(* ===== verification/Prelude.thy ===== *)
theory Prelude
  imports Complex_Main "HOL-Library.Word" "HOL-Library.AList"
begin

text \<open>
  What every component shares: Python's exceptions as values, bytes and IPv4 addresses as machine
  words, Python's dictionaries as association lists in insertion order, the part of the standard
  library's \<^verbatim>\<open>struct\<close> module the packet code uses, and the loop that reads fixed-size items off a
  buffer (\<^verbatim>\<open>while pos + LEN <= len(data)\<close>), which five packet parsers share.
\<close>

unbundle bit_operations_syntax

named_theorems struct_simps \<open>evaluation of struct formats\<close>
named_theorems result_elims \<open>facts drawn from a computation that did not raise\<close>

section \<open>Exceptions as values\<close>

text \<open>The exception classes the modelled code raises or lets escape from the standard library.\<close>

datatype py_error =
    ValueError
  | StructError
  | IndexError
  | AddressValueError
  | RuntimeError
  | AttributeError
  | OSError
  | FileNotFoundError
  | FileExistsError
  | RecursionError
  | TypeError
  | OverflowError

type_synonym 'a result = "py_error + 'a"

definition bindE :: "'a result \<Rightarrow> ('a \<Rightarrow> 'b result) \<Rightarrow> 'b result" where
  "bindE m f = (case m of Inl e \<Rightarrow> Inl e | Inr x \<Rightarrow> f x)"

lemma bindE_simps [simp]:
  "bindE (Inl e) f = Inl e"
  "bindE (Inr x) f = f x"
  by (simp_all add: bindE_def)

lemma bindE_Inr_iff: "bindE m f = Inr y \<longleftrightarrow> (\<exists>x. m = Inr x \<and> f x = Inr y)"
  by (cases m) simp_all

lemma bindE_Inl_iff: "bindE m f = Inl e \<longleftrightarrow> m = Inl e \<or> (\<exists>x. m = Inr x \<and> f x = Inl e)"
  by (cases m) simp_all

lemma bindE_InrE [elim!, result_elims]:
  assumes "bindE m f = Inr y"
  obtains x where "m = Inr x" and "f x = Inr y"
  using assms by (auto simp: bindE_Inr_iff)

lemma bindE_assoc [simp]: "bindE (bindE m f) g = bindE m (\<lambda>x. bindE (f x) g)"
  by (cases m) simp_all

lemma bindE_cong [fundef_cong]:
  "m = m' \<Longrightarrow> (\<And>x. m' = Inr x \<Longrightarrow> f x = f' x) \<Longrightarrow> bindE m f = bindE m' f'"
  by (cases m') simp_all

definition guardE :: "bool \<Rightarrow> py_error \<Rightarrow> unit result" where
  \<comment> \<open>\<^verbatim>\<open>if not b: raise e\<close>\<close>
  "guardE b e = (if b then Inr () else Inl e)"

lemma guardE_simps [simp]:
  "guardE True e = Inr ()"
  "guardE False e = Inl e"
  "guardE b e = Inr u \<longleftrightarrow> b"
  by (simp_all add: guardE_def)

section \<open>Bytes\<close>

type_synonym byte = "8 word"
type_synonym bytes = "byte list"
type_synonym ipv4 = "32 word"

definition pslice :: "'a list \<Rightarrow> nat \<Rightarrow> nat \<Rightarrow> 'a list" where
  \<comment> \<open>Python's \<^verbatim>\<open>xs[i:j]\<close> for indices that are not negative\<close>
  "pslice xs i j = take (j - i) (drop i xs)"

lemma length_pslice [simp]: "length (pslice xs i j) = min (j - i) (length xs - i)"
  by (simp add: pslice_def min.commute)

lemma pslice_append_skip [simp]: "i = length pre \<Longrightarrow> j = i + length bs \<Longrightarrow> pslice (pre @ bs @ rest) i j = bs"
  by (simp add: pslice_def)

fun be_encode :: "nat \<Rightarrow> int \<Rightarrow> bytes" where
  \<comment> \<open>the low \<open>n\<close> bytes of an integer, most significant first\<close>
  "be_encode 0 v = []"
| "be_encode (Suc n) v = be_encode n (v div 256) @ [word_of_int v]"

definition be_decode :: "bytes \<Rightarrow> int" where
  "be_decode bs = foldl (\<lambda>acc b. acc * 256 + uint b) 0 bs"

lemma be_decode_Nil [simp]: "be_decode [] = 0"
  by (simp add: be_decode_def)

lemma be_decode_snoc [simp]: "be_decode (bs @ [b]) = be_decode bs * 256 + uint b"
  by (simp add: be_decode_def)

lemma be_decode_single [simp]: "be_decode [b] = uint b"
  by (simp add: be_decode_def)

lemma length_be_encode [simp]: "length (be_encode n v) = n"
  by (induction n arbitrary: v) simp_all

lemma uint_byte_of_int: "uint (word_of_int v :: byte) = v mod 256"
  by (simp add: unsigned_of_int take_bit_eq_mod)

lemma be_decode_encode: "be_decode (be_encode n v) = v mod 256 ^ n"
proof (induction n arbitrary: v)
  case 0
  then show ?case by simp
next
  case (Suc n)
  have "v mod 256 ^ Suc n = v mod (256 * 256 ^ n)" by simp
  also have "\<dots> = 256 * (v div 256 mod 256 ^ n) + v mod 256"
    by (rule zmod_zmult2_eq) simp
  finally show ?case by (simp add: Suc.IH uint_byte_of_int mult.commute)
qed

lemma be_decode_range: "0 \<le> be_decode bs \<and> be_decode bs < 256 ^ length bs"
proof (induction bs rule: rev_induct)
  case Nil
  then show ?case by simp
next
  case (snoc b bs)
  have "0 \<le> uint b" "uint b < 256" using uint_lt2p [of b] by simp_all
  with snoc show ?case by simp
qed

lemma be_encode_decode: "be_encode (length bs) (be_decode bs) = bs"
proof (induction bs rule: rev_induct)
  case Nil
  then show ?case by simp
next
  case (snoc b bs)
  have b: "0 \<le> uint b" "uint b < 256" using uint_lt2p [of b] by simp_all
  then have "(be_decode bs * 256 + uint b) div 256 = be_decode bs" by simp
  moreover have "word_of_int (be_decode bs * 256 + uint b) = b"
    using b by (metis be_decode_snoc mod_mult_self3 mod_pos_pos_trivial uint_byte_of_int
        word_uint_eq_iff)
  ultimately show ?case using snoc by simp
qed

section \<open>IPv4 addresses\<close>

text \<open>
  \<^verbatim>\<open>ipaddress.IPv4Address\<close>: a 32-bit value with unsigned comparison; \<^verbatim>\<open>.packed\<close> is its four bytes in
  network order and the constructor refuses a byte string of any other length.
\<close>

definition packed :: "ipv4 \<Rightarrow> bytes" where
  "packed a = be_encode 4 (uint a)"

definition ipv4_of_packed :: "bytes \<Rightarrow> ipv4 result" where
  "ipv4_of_packed bs =
     (if length bs = 4 then Inr (word_of_int (be_decode bs)) else Inl AddressValueError)"

lemma length_packed [simp]: "length (packed a) = 4"
  by (simp add: packed_def)

lemma packed_not_Nil [simp]: "packed a \<noteq> []"
  using length_packed [of a] by (auto simp del: length_packed)

lemma ipv4_of_packed_packed [simp]: "ipv4_of_packed (packed a) = Inr a"
proof -
  have "uint a < 2 ^ 32" using uint_lt2p [of a] by simp
  then show ?thesis by (simp add: ipv4_of_packed_def packed_def be_decode_encode)
qed

lemma packed_of_ipv4: "ipv4_of_packed bs = Inr a \<Longrightarrow> packed a = bs"
  using be_decode_range [of bs] be_encode_decode [of bs]
  by (auto simp: ipv4_of_packed_def packed_def unsigned_of_int take_bit_eq_mod split: if_splits)

abbreviation zero_addr :: ipv4 where
  "zero_addr \<equiv> 0"

section \<open>Dictionaries\<close>

text \<open>
  A Python dictionary is an association list in insertion order: \<open>AList.update\<close> keeps the place of
  a key that is there and appends a new one, \<open>AList.delete\<close> is \<^verbatim>\<open>pop(key, None)\<close>.
\<close>

lemma length_update:
  "length (AList.update k v xs) = (if map_of xs k = None then Suc (length xs) else length xs)"
  by (induction xs) auto

lemma set_update_subset: "set (AList.update k v xs) \<subseteq> insert (k, v) (set xs)"
  by (induction xs) auto

lemma list_all_updateI: "list_all P xs \<Longrightarrow> P (k, v) \<Longrightarrow> list_all P (AList.update k v xs)"
  using set_update_subset [of k v xs] by (auto simp: list_all_iff)

lemma set_delete_subset: "set (AList.delete k xs) \<subseteq> set xs"
  by (auto simp: AList.delete_eq)

lemma list_all_deleteI: "list_all P xs \<Longrightarrow> list_all P (AList.delete k xs)"
  using set_delete_subset [of k xs] by (auto simp: list_all_iff)

lemma list_all_map_of: "list_all P xs \<Longrightarrow> map_of xs k = Some v \<Longrightarrow> P (k, v)"
  by (auto simp: list_all_iff dest: map_of_SomeD)

section \<open>Time\<close>

text \<open>
  \<^verbatim>\<open>time.monotonic()\<close> gives seconds as a float; the model reads the clock as an exact rational that
  is an argument of every operation that reads it. \<^verbatim>\<open>int(x)\<close> truncates towards zero.
\<close>

type_synonym time = rat

definition py_int :: "rat \<Rightarrow> int" where
  "py_int q = (if 0 \<le> q then \<lfloor>q\<rfloor> else \<lceil>q\<rceil>)"

end
