(* ===== verification/Struct_Codec.thy ===== *)
theory Struct_Codec
  imports Prelude
begin

text \<open>
  The part of Python's standard \<^verbatim>\<open>struct\<close> module the packet code calls (network byte order, formats
  \<^verbatim>\<open>B H I i\<close> and \<^verbatim>\<open>4s\<close>/\<^verbatim>\<open>8s\<close>), and the two loops every packet module has: appending the encodings
  of a list, and reading items of a fixed size while a whole one is left. The interface
  \<open>fixed_codec\<close> states what such an item codec promises; its round trip of whole lists is proved
  once and used by the Hello neighbour list, the DD and LSAck header lists, the LSR items and the
  Network LSA router list.
\<close>

section \<open>struct.pack and struct.unpack\<close>

datatype fmt =
    FB        \<comment> \<open>\<^verbatim>\<open>B\<close>: one unsigned byte\<close>
  | FH        \<comment> \<open>\<^verbatim>\<open>H\<close>: two bytes, unsigned\<close>
  | FI        \<comment> \<open>\<^verbatim>\<open>I\<close>: four bytes, unsigned\<close>
  | Fi        \<comment> \<open>\<^verbatim>\<open>i\<close>: four bytes, two's complement\<close>
  | FS nat    \<comment> \<open>\<^verbatim>\<open>4s\<close>: a byte string of that length\<close>

datatype pyval = VInt int | VBytes bytes

fun fmt_size :: "fmt \<Rightarrow> nat" where
  "fmt_size FB = 1"
| "fmt_size FH = 2"
| "fmt_size FI = 4"
| "fmt_size Fi = 4"
| "fmt_size (FS n) = n"

definition calcsize :: "fmt list \<Rightarrow> nat" where
  "calcsize fs = sum_list (map fmt_size fs)"

definition pack_int :: "nat \<Rightarrow> int \<Rightarrow> int \<Rightarrow> int \<Rightarrow> bytes result" where
  \<comment> \<open>an integer outside the format's range is a \<^verbatim>\<open>struct.error\<close>\<close>
  "pack_int n lo hi v = (if lo \<le> v \<and> v < hi then Inr (be_encode n v) else Inl StructError)"

fun pack_item :: "fmt \<Rightarrow> pyval \<Rightarrow> bytes result" where
  "pack_item FB (VInt v) = pack_int 1 0 256 v"
| "pack_item FH (VInt v) = pack_int 2 0 65536 v"
| "pack_item FI (VInt v) = pack_int 4 0 4294967296 v"
| "pack_item Fi (VInt v) = pack_int 4 (- 2147483648) 2147483648 v"
| "pack_item (FS n) (VBytes b) = Inr (take n (b @ replicate n 0))"
| "pack_item _ _ = Inl StructError"

fun struct_pack :: "fmt list \<Rightarrow> pyval list \<Rightarrow> bytes result" where
  "struct_pack [] [] = Inr []"
| "struct_pack (f # fs) (v # vs) =
     bindE (pack_item f v) (\<lambda>b. bindE (struct_pack fs vs) (\<lambda>bs. Inr (b @ bs)))"
| "struct_pack _ _ = Inl StructError"

fun unpack_item :: "fmt \<Rightarrow> bytes \<Rightarrow> pyval" where
  "unpack_item Fi b = (let u = be_decode b in VInt (if u < 2147483648 then u else u - 4294967296))"
| "unpack_item (FS n) b = VBytes b"
| "unpack_item _ b = VInt (be_decode b)"

fun unpack_items :: "fmt list \<Rightarrow> bytes \<Rightarrow> pyval list" where
  "unpack_items [] bs = []"
| "unpack_items (f # fs) bs =
     unpack_item f (take (fmt_size f) bs) # unpack_items fs (drop (fmt_size f) bs)"

definition struct_unpack :: "fmt list \<Rightarrow> bytes \<Rightarrow> pyval list result" where
  "struct_unpack fs bs =
     (if length bs = calcsize fs then Inr (unpack_items fs bs) else Inl StructError)"

definition struct_unpack_from :: "fmt list \<Rightarrow> bytes \<Rightarrow> nat \<Rightarrow> pyval list result" where
  "struct_unpack_from fs bs off =
     (if off + calcsize fs \<le> length bs then Inr (unpack_items fs (drop off bs))
      else Inl StructError)"

lemma calcsize_simps [simp, struct_simps]:
  "calcsize [] = 0"
  "calcsize (f # fs) = fmt_size f + calcsize fs"
  by (simp_all add: calcsize_def)

text \<open>The values a format writes without loss.\<close>

fun fits :: "fmt \<Rightarrow> pyval \<Rightarrow> bool" where
  "fits FB (VInt v) \<longleftrightarrow> 0 \<le> v \<and> v < 256"
| "fits FH (VInt v) \<longleftrightarrow> 0 \<le> v \<and> v < 65536"
| "fits FI (VInt v) \<longleftrightarrow> 0 \<le> v \<and> v < 4294967296"
| "fits Fi (VInt v) \<longleftrightarrow> - 2147483648 \<le> v \<and> v < 2147483648"
| "fits (FS n) (VBytes b) \<longleftrightarrow> length b = n"
| "fits _ _ \<longleftrightarrow> False"

lemma pack_item_length: "pack_item f v = Inr bs \<Longrightarrow> length bs = fmt_size f"
  by (cases "(f, v)" rule: pack_item.cases) (auto simp: pack_int_def split: if_splits)

lemma struct_pack_length: "struct_pack fs vs = Inr bs \<Longrightarrow> length bs = calcsize fs"
  by (induction fs vs arbitrary: bs rule: struct_pack.induct) (auto simp: pack_item_length)

lemma pack_item_roundtrip:
  assumes "fits f v"
  obtains bs where "pack_item f v = Inr bs" and "unpack_item f bs = v"
    and "length bs = fmt_size f"
proof -
  have "\<exists>bs. pack_item f v = Inr bs \<and> unpack_item f bs = v"
    using assms
  proof (cases "(f, v)" rule: fits.cases)
    case (4 w)
    have "w mod 4294967296 = (if 0 \<le> w then w else w + 4294967296)"
      using assms 4 mod_pos_pos_trivial [of "w + 4294967296" 4294967296]
      by (cases "0 \<le> w") simp_all
    then show ?thesis using assms 4
      by (auto simp: pack_int_def be_decode_encode Let_def)
  qed (auto simp: pack_int_def be_decode_encode uint_byte_of_int)
  then show ?thesis using that pack_item_length by blast
qed

text \<open>What was packed is read back, wherever it stands at the front of a buffer.\<close>

lemma struct_pack_roundtrip:
  assumes "list_all2 fits fs vs"
  shows "\<exists>bs. struct_pack fs vs = Inr bs \<and> length bs = calcsize fs
    \<and> (\<forall>rest. unpack_items fs (bs @ rest) = vs)"
  using assms
proof (induction fs vs rule: list_all2_induct)
  case Nil
  then show ?case by simp
next
  case (Cons f fs v vs)
  obtain b where b: "pack_item f v = Inr b" "unpack_item f b = v" "length b = fmt_size f"
    using Cons.hyps(1) by (rule pack_item_roundtrip)
  with Cons.IH show ?case by fastforce
qed

lemma struct_pack_ok:
  assumes "list_all2 fits fs vs"
  obtains bs where "struct_pack fs vs = Inr bs" and "length bs = calcsize fs"
    and "struct_unpack fs bs = Inr vs"
    and "\<And>pre rest. struct_unpack_from fs (pre @ bs @ rest) (length pre) = Inr vs"
proof -
  obtain bs where bs: "struct_pack fs vs = Inr bs" "length bs = calcsize fs"
    "\<And>rest. unpack_items fs (bs @ rest) = vs"
    using struct_pack_roundtrip [OF assms] by blast
  moreover have "struct_unpack fs bs = Inr vs"
    using bs(2) bs(3) [of "[]"] by (simp add: struct_unpack_def)
  moreover have "struct_unpack_from fs (pre @ bs @ rest) (length pre) = Inr vs" for pre rest
    using bs(2,3) by (simp add: struct_unpack_from_def)
  ultimately show ?thesis using that by blast
qed

lemma struct_pack_fits: "struct_pack fs vs = Inr bs \<Longrightarrow>
    list_all2 (\<lambda>f v. fits f v \<or> (\<exists>n b. f = FS n \<and> v = VBytes b)) fs vs"
proof (induction fs vs arbitrary: bs rule: struct_pack.induct)
  case (2 f fs v vs)
  then have "\<exists>b. pack_item f v = Inr b" by auto
  then have "fits f v \<or> (\<exists>n b. f = FS n \<and> v = VBytes b)"
    by (cases "(f, v)" rule: pack_item.cases) (auto simp: pack_int_def split: if_splits)
  with 2 show ?case by auto
qed simp_all

section \<open>Appending encodings, reading fixed-size items\<close>

fun ser_all :: "('a \<Rightarrow> bytes result) \<Rightarrow> 'a list \<Rightarrow> bytes result" where
  \<comment> \<open>\<^verbatim>\<open>for x in xs: data += x.serialize()\<close>\<close>
  "ser_all enc [] = Inr []"
| "ser_all enc (x # xs) = bindE (enc x) (\<lambda>b. bindE (ser_all enc xs) (\<lambda>bs. Inr (b @ bs)))"

function parse_fixed :: "nat \<Rightarrow> (nat \<Rightarrow> 'a result) \<Rightarrow> nat \<Rightarrow> nat \<Rightarrow> 'a list result" where
  \<comment> \<open>\<^verbatim>\<open>while pos + sz <= end: xs.append(dec(pos)); pos += sz\<close>\<close>
  "parse_fixed sz dec pos stop =
     (if 0 < sz \<and> pos + sz \<le> stop
      then bindE (dec pos) (\<lambda>x. bindE (parse_fixed sz dec (pos + sz) stop) (\<lambda>xs. Inr (x # xs)))
      else Inr [])"
  by pat_completeness auto
termination
  by (relation "measure (\<lambda>(sz, dec, pos, stop). Suc stop - pos)") auto

declare parse_fixed.simps [simp del]

lemma parse_fixed_length:
  assumes "parse_fixed sz dec pos stop = Inr xs" and "0 < sz" and "pos \<le> stop"
  shows "length xs = (stop - pos) div sz"
  using assms
proof (induction sz dec pos stop arbitrary: xs rule: parse_fixed.induct)
  case (1 sz dec pos stop)
  show ?case
  proof (cases "pos + sz \<le> stop")
    case True
    with 1 obtain x ys where ys: "dec pos = Inr x"
        "parse_fixed sz dec (pos + sz) stop = Inr ys" "xs = x # ys"
      by (auto simp: parse_fixed.simps [of sz dec pos stop])
    with 1 True have "length ys = (stop - (pos + sz)) div sz" by simp
    moreover have "(stop - pos) div sz = Suc ((stop - (pos + sz)) div sz)"
      using True "1.prems"(2) le_div_geq [of sz "stop - pos"] by simp
    ultimately show ?thesis using ys by simp
  next
    case False
    with 1 show ?thesis by (simp add: parse_fixed.simps [of sz dec pos stop])
  qed
qed

fun read_n :: "nat \<Rightarrow> (nat \<Rightarrow> ('a \<times> nat) result) \<Rightarrow> nat \<Rightarrow> ('a list \<times> nat) result" where
  \<comment> \<open>\<^verbatim>\<open>for _ in range(n): x, consumed = dec(pos); xs.append(x); pos += consumed\<close>\<close>
  "read_n 0 dec pos = Inr ([], pos)"
| "read_n (Suc n) dec pos =
     bindE (dec pos) (\<lambda>(x, c). bindE (read_n n dec (pos + c)) (\<lambda>(xs, p). Inr (x # xs, p)))"

locale counted_codec =
  fixes enc :: "'a \<Rightarrow> bytes result"
    and dec :: "bytes \<Rightarrow> nat \<Rightarrow> ('a \<times> nat) result"
    and wf :: "'a \<Rightarrow> bool"
  assumes enc_dec: "wf x \<Longrightarrow> \<exists>bs. enc x = Inr bs
      \<and> (\<forall>pre rest. dec (pre @ bs @ rest) (length pre) = Inr (x, length bs))"
begin

lemma ser_all_total: "list_all wf xs \<Longrightarrow> \<exists>bs. ser_all enc xs = Inr bs"
  by (induction xs) (auto dest!: enc_dec)

lemma read_n_ser_all:
  assumes "list_all wf xs" and "ser_all enc xs = Inr bs"
  shows "read_n (length xs) (dec (pre @ bs @ rest)) (length pre)
    = Inr (xs, length pre + length bs)"
  using assms
proof (induction xs arbitrary: pre bs)
  case Nil
  then show ?case by simp
next
  case (Cons x xs)
  from Cons.prems obtain b bs' where b: "enc x = Inr b" "ser_all enc xs = Inr bs'" "bs = b @ bs'"
    by auto
  with Cons.prems enc_dec [of x]
  have dec: "dec (pre @ b @ bs' @ rest) (length pre) = Inr (x, length b)" by auto
  have "read_n (length xs) (dec ((pre @ b) @ bs' @ rest)) (length (pre @ b))
      = Inr (xs, length (pre @ b) + length bs')"
    using Cons b by (intro Cons.IH) auto
  with b dec show ?case by simp
qed

end

locale fixed_codec =
  fixes enc :: "'a \<Rightarrow> bytes result"
    and dec :: "bytes \<Rightarrow> nat \<Rightarrow> 'a result"
    and wf :: "'a \<Rightarrow> bool"
    and sz :: nat
  assumes sz_pos: "0 < sz"
    and enc_ok: "wf x \<Longrightarrow> \<exists>bs. enc x = Inr bs \<and> length bs = sz
      \<and> (\<forall>pre rest. dec (pre @ bs @ rest) (length pre) = Inr x)"
begin

lemma ser_all_ok:
  assumes "list_all wf xs"
  obtains bs where "ser_all enc xs = Inr bs" and "length bs = length xs * sz"
proof -
  have "\<exists>bs. ser_all enc xs = Inr bs \<and> length bs = length xs * sz"
    using assms by (induction xs) (auto dest!: enc_ok)
  then show ?thesis using that by blast
qed

lemma parse_all_within:
  assumes "list_all wf xs" and "ser_all enc xs = Inr bs" and "stop < length (pre @ bs) + sz"
    and "length (pre @ bs) \<le> stop"
  shows "parse_fixed sz (dec (pre @ bs @ rest)) (length pre) stop = Inr xs"
  using assms
proof (induction xs arbitrary: pre bs)
  case Nil
  then show ?case by (simp add: parse_fixed.simps)
next
  case (Cons x xs)
  from Cons.prems obtain b bs' where b: "enc x = Inr b" "ser_all enc xs = Inr bs'" "bs = b @ bs'"
    by auto
  with Cons.prems enc_ok [of x] have len: "length b = sz"
    and dec: "dec (pre @ b @ bs' @ rest) (length pre) = Inr x" by auto
  have "parse_fixed sz (dec ((pre @ b) @ bs' @ rest)) (length (pre @ b)) stop = Inr xs"
    using Cons.prems b by (intro Cons.IH) auto
  with b len dec sz_pos Cons.prems(4) show ?case
    by (subst parse_fixed.simps) simp
qed

lemma parse_all:
  assumes "list_all wf xs" and "ser_all enc xs = Inr bs" and "length rest < sz"
  shows "parse_fixed sz (dec (pre @ bs @ rest)) (length pre) (length (pre @ bs @ rest)) = Inr xs"
  using assms by (intro parse_all_within) simp_all

end

sublocale fixed_codec \<subseteq> counted: counted_codec enc "\<lambda>data pos. bindE (dec data pos) (\<lambda>x. Inr (x, sz))" wf
proof
  fix x assume "wf x"
  then show "\<exists>bs. enc x = Inr bs \<and> (\<forall>pre rest.
      bindE (dec (pre @ bs @ rest) (length pre)) (\<lambda>x. Inr (x, sz)) = Inr (x, length bs))"
    using enc_ok [of x] by auto
qed

end
