(* ===== verification/Checksum.thy ===== *)
theory Checksum
  imports Prelude
begin

text \<open>
  \<^verbatim>\<open>packet/checksum.py\<close>: the ones-complement checksum of the OSPF packet header (RFC 1071) and the
  Fletcher checksum of an LSA (RFC 905 Annex B), each with the check the receiver makes. The
  theorems say that a buffer carrying the computed checksum passes its check.
\<close>

section \<open>The IP checksum\<close>

definition pad_even :: "bytes \<Rightarrow> bytes" where
  "pad_even data = (if length data mod 2 \<noteq> 0 then data @ [0] else data)"

fun iter_unpack_H :: "bytes \<Rightarrow> int list" where
  \<comment> \<open>\<^verbatim>\<open>struct.iter_unpack("!H", data)\<close>, called on a buffer of even length\<close>
  "iter_unpack_H (a # b # rest) = (uint a * 256 + uint b) # iter_unpack_H rest"
| "iter_unpack_H _ = []"

lemma and_FFFF: "(n::int) AND 0xFFFF = n mod 65536"
proof -
  have "n AND mask 16 = n mod 65536" by (simp flip: take_bit_eq_mask add: take_bit_eq_mod)
  then show ?thesis by (simp add: mask_eq_exp_minus_1)
qed

lemma carry_split: "(n::int) = (n mod 65536 + n div 65536) + 65535 * (n div 65536)"
  using mult_div_mod_eq [of 65536 n] by linarith

function fold_carry :: "int \<Rightarrow> int" where
  \<comment> \<open>\<^verbatim>\<open>while total >> 16: total = (total & 0xFFFF) + (total >> 16)\<close>; the total is never negative\<close>
  "fold_carry n =
     (if drop_bit 16 n > 0 then fold_carry ((n AND 0xFFFF) + drop_bit 16 n)
      else n)"
  by pat_completeness auto

termination
proof (relation "measure nat", simp)
  fix n :: int
  assume "drop_bit 16 n > 0"
  then have "0 < n div 65536" by (simp add: drop_bit_eq_div)
  moreover have "0 \<le> n mod 65536" by simp
  ultimately have "0 < n" "n mod 65536 + n div 65536 < n" using carry_split [of n] by linarith+
  then show "((n AND 0xFFFF) + drop_bit 16 n, n) \<in> measure nat"
    by (simp add: and_FFFF drop_bit_eq_div)
qed

declare fold_carry.simps [simp del]

definition ip_total :: "bytes \<Rightarrow> int" where
  "ip_total data = fold_carry (sum_list (iter_unpack_H (pad_even data)))"

definition ip_checksum :: "bytes \<Rightarrow> int" where
  "ip_checksum data = NOT (ip_total data) AND 0xFFFF"

definition verify_ip_checksum :: "bytes \<Rightarrow> bool" where
  "verify_ip_checksum data \<longleftrightarrow> ip_total data = 0xFFFF"

text \<open>The carry loop reduces modulo 65535, keeping zero apart from the other multiples.\<close>

lemma fold_carry_spec:
  "0 \<le> n \<Longrightarrow> 0 \<le> fold_carry n \<and> fold_carry n \<le> 65535 \<and> fold_carry n mod 65535 = n mod 65535
    \<and> (fold_carry n = 0 \<longleftrightarrow> n = 0)"
proof (induction n rule: fold_carry.induct)
  case (1 n)
  let ?m = "n mod 65536 + n div 65536"
  show ?case
  proof (cases "drop_bit 16 n > 0")
    case False
    then have "n div 65536 \<le> 0" by (simp add: drop_bit_eq_div)
    then have "n < 65536" using carry_split [of n] pos_mod_bound [of 65536 n] by linarith
    then show ?thesis using False 1 by (simp add: fold_carry.simps [of n])
  next
    case True
    then have d: "0 < n div 65536" by (simp add: drop_bit_eq_div)
    have m: "0 < ?m" using d by (simp add: add_nonneg_pos)
    have "n mod 65535 = ?m mod 65535"
      by (subst carry_split) (rule mod_mult_self2)
    moreover have "n > 0" using d by (simp add: pos_imp_zdiv_pos_iff)
    moreover have "fold_carry n = fold_carry ?m"
      using True by (subst fold_carry.simps) (simp add: and_FFFF drop_bit_eq_div)
    ultimately show ?thesis
      using "1.IH" [OF True] m by (simp add: and_FFFF drop_bit_eq_div)
  qed
qed

lemma iter_unpack_H_nonneg: "0 \<le> sum_list (iter_unpack_H bs)"
  by (induction bs rule: iter_unpack_H.induct) auto

lemma ip_total_range: "0 \<le> ip_total data \<and> ip_total data \<le> 65535"
  using fold_carry_spec [OF iter_unpack_H_nonneg] by (simp add: ip_total_def)

lemma ip_checksum_eq: "ip_checksum data = 65535 - ip_total data"
proof -
  let ?t = "ip_total data"
  have t: "0 \<le> ?t" "?t \<le> 65535" using ip_total_range [of data] by simp_all
  have "NOT ?t AND mask 16 = (- ?t - 1) mod 65536"
    by (simp flip: take_bit_eq_mask add: take_bit_eq_mod not_int_def)
  also have "\<dots> = (65535 - ?t) mod 65536"
    using mod_add_self2 [of "- ?t - 1" 65536] by (simp add: algebra_simps)
  also have "\<dots> = 65535 - ?t" using t by (simp add: mod_pos_pos_trivial)
  finally show ?thesis by (simp add: ip_checksum_def mask_eq_exp_minus_1)
qed

lemma ip_checksum_range: "0 \<le> ip_checksum data \<and> ip_checksum data \<le> 65535"
  using ip_total_range [of data] by (simp add: ip_checksum_eq)

text \<open>Sums of 16-bit units, at an even offset.\<close>

lemma iter_unpack_H_append:
  "even (length xs) \<Longrightarrow> iter_unpack_H (xs @ ys) = iter_unpack_H xs @ iter_unpack_H ys"
  by (induction xs rule: iter_unpack_H.induct) auto

lemma pad_even_append: "even (length xs) \<Longrightarrow> pad_even (xs @ ys) = xs @ pad_even ys"
  by (auto simp: pad_even_def)

lemma length_pad_even: "even (length (pad_even xs))"
  by (auto simp: pad_even_def)

definition hi_byte :: "int \<Rightarrow> byte" where
  \<comment> \<open>\<^verbatim>\<open>(chksum >> 8) & 0xFF\<close>\<close>
  "hi_byte v = word_of_int (drop_bit 8 v AND 0xFF)"

definition lo_byte :: "int \<Rightarrow> byte" where
  \<comment> \<open>\<^verbatim>\<open>chksum & 0xFF\<close>\<close>
  "lo_byte v = word_of_int (v AND 0xFF)"

lemma and_FF: "(v::int) AND 0xFF = v mod 256"
proof -
  have "v AND mask 8 = v mod 256" by (simp flip: take_bit_eq_mask add: take_bit_eq_mod)
  then show ?thesis by (simp add: mask_eq_exp_minus_1)
qed

lemma hi_lo_byte: "0 \<le> v \<Longrightarrow> v < 65536 \<Longrightarrow> uint (hi_byte v) * 256 + uint (lo_byte v) = v"
proof -
  assume v: "0 \<le> v" "v < 65536"
  then have "v div 256 < 256" "0 \<le> v div 256" by (simp_all add: div_less_iff_less_mult
        pos_imp_zdiv_nonneg_iff)
  then show ?thesis
    by (simp add: hi_byte_def lo_byte_def uint_byte_of_int and_FF drop_bit_eq_div mod_pos_pos_trivial)
qed

lemma byte_parts:
  "0 \<le> x \<Longrightarrow> x < 256 \<Longrightarrow> 0 \<le> y \<Longrightarrow> y < 256 \<Longrightarrow>
    uint (hi_byte (x * 256 + y)) = x \<and> uint (lo_byte (x * 256 + y)) = y"
  by (simp add: hi_byte_def lo_byte_def uint_byte_of_int and_FF drop_bit_eq_div mod_pos_pos_trivial)

lemma ip_checksum_stamp:
  assumes pre: "even (length pre)"
    and chk: "chk = ip_checksum (pre @ [0, 0] @ post)"
  shows "verify_ip_checksum (pre @ [hi_byte chk, lo_byte chk] @ post)"
proof -
  define S where "S = sum_list (iter_unpack_H pre) + sum_list (iter_unpack_H (pad_even post))"
  have padded: "pad_even (pre @ [a, b] @ post) = pre @ [a, b] @ pad_even post" for a b
    using pad_even_append [of "pre @ [a, b]" post] pre by simp
  have tot: "sum_list (iter_unpack_H (pad_even (pre @ [a, b] @ post))) = S + (uint a * 256 + uint b)"
    for a b unfolding padded S_def using pre by (simp add: iter_unpack_H_append)
  have S: "0 \<le> S" using iter_unpack_H_nonneg by (simp add: S_def add_nonneg_nonneg)
  note spec = fold_carry_spec [OF S]
  have t: "ip_total (pre @ [0, 0] @ post) = fold_carry S"
    using tot [of 0 0] by (simp add: ip_total_def)
  have range: "0 \<le> chk" "chk < 65536" using ip_checksum_range [of "pre @ [0, 0] @ post"] chk by simp_all
  have c: "uint (hi_byte chk) * 256 + uint (lo_byte chk) = 65535 - fold_carry S"
    using hi_lo_byte [OF range] chk t by (simp add: ip_checksum_eq)
  let ?T = "S + (65535 - fold_carry S)"
  have T: "0 < ?T" using spec S by (cases "S = 0") auto
  have "?T mod 65535 = (fold_carry S + (65535 - fold_carry S)) mod 65535"
    using spec by (metis mod_add_left_eq)
  also have "\<dots> = 0" by simp
  finally have "fold_carry ?T mod 65535 = 0" "0 < fold_carry ?T" "fold_carry ?T \<le> 65535"
    using fold_carry_spec [of ?T] T by auto
  then have "fold_carry ?T = 65535"
    by (metis antisym_conv2 less_irrefl mod_pos_pos_trivial order_less_imp_le)
  then show ?thesis by (simp only: verify_ip_checksum_def ip_total_def tot c)
qed

text \<open>
  A packet header is built with a zero checksum field, the checksum is computed over the whole
  and written into the field: for every even offset of the field and any bytes around it, the
  receiver's check then succeeds.
\<close>

theorem ip_checksum_fills_gap:
  assumes "even (length pre)" and "chk = ip_checksum (pre @ [0, 0] @ post)"
  shows "verify_ip_checksum (pre @ [hi_byte chk, lo_byte chk] @ post)"
  using assms by (rule ip_checksum_stamp)

theorem ip_checksum_fills_gap_witness:
  "ip_checksum ([2, 1, 0, 44, 255, 255] @ [0, 0] @ [9]) = 62674
   \<and> verify_ip_checksum ([2, 1, 0, 44, 255, 255] @ [hi_byte 62674, lo_byte 62674] @ [9])"
proof -
  have "ip_checksum ([2, 1, 0, 44, 255, 255] @ [0, 0] @ [9]) = 62674" by code_simp
  then show ?thesis using ip_checksum_fills_gap [of "[2, 1, 0, 44, 255, 255]" 62674 "[9]"] by simp
qed

section \<open>The Fletcher checksum\<close>

fun fletcher_loop :: "bytes \<Rightarrow> int \<times> int \<Rightarrow> int \<times> int" where
  \<comment> \<open>\<^verbatim>\<open>for b in ...: c0 = (c0 + b) % 255; c1 = (c1 + c0) % 255\<close>\<close>
  "fletcher_loop [] c = c"
| "fletcher_loop (b # bs) (c0, c1) =
     (let c0' = (c0 + uint b) mod 255; c1' = (c1 + c0') mod 255 in fletcher_loop bs (c0', c1'))"

definition check_bytes :: "int \<Rightarrow> int \<Rightarrow> int \<Rightarrow> int \<times> int" where
  "check_bytes k c0 c1 =
     (let x0 = (k * c0 - c1) mod 255;
          x = (if x0 \<le> 0 then x0 + 255 else x0);
          y0 = 510 - c0 - x;
          y = (if y0 > 255 then y0 - 255 else y0)
      in (x, y))"

definition fletcher_checksum :: "bytes \<Rightarrow> nat \<Rightarrow> int result" where
  \<comment> \<open>writing outside the buffer is an \<^verbatim>\<open>IndexError\<close>\<close>
  "fletcher_checksum data off =
     (if length data \<le> off + 1 then Inl IndexError
      else
        let buf = data[off := 0, off + 1 := 0];
            (c0, c1) = fletcher_loop (drop 2 buf) (0, 0);
            len = int (length buf);
            pos = int off - 2;
            (x, y) = check_bytes (len - 2 - pos - 1) c0 c1
        in Inr (push_bit 8 x OR y))"

definition verify_fletcher_checksum :: "bytes \<Rightarrow> bool" where
  "verify_fletcher_checksum data \<longleftrightarrow> fletcher_loop (drop 2 data) (0, 0) = (0, 0)"

text \<open>Closed forms: the plain sum, and the sum weighted by the distance to the end.\<close>

definition bsum :: "bytes \<Rightarrow> int" where
  "bsum bs = sum_list (map uint bs)"

fun wsum :: "bytes \<Rightarrow> int" where
  "wsum [] = 0"
| "wsum (b # bs) = (int (length bs) + 1) * uint b + wsum bs"

lemma bsum_simps [simp]:
  "bsum [] = 0"
  "bsum (b # bs) = uint b + bsum bs"
  "bsum (xs @ ys) = bsum xs + bsum ys"
  by (simp_all add: bsum_def)

lemma wsum_append: "wsum (xs @ ys) = wsum xs + int (length ys) * bsum xs + wsum ys"
  by (induction xs) (simp_all add: algebra_simps)

lemma fletcher_loop_closed:
  assumes "0 \<le> c0" "c0 < 255" "0 \<le> c1" "c1 < 255"
  shows "fletcher_loop bs (c0, c1) =
    ((c0 + bsum bs) mod 255, (c1 + int (length bs) * c0 + wsum bs) mod 255)"
  using assms
proof (induction bs arbitrary: c0 c1)
  case Nil
  then show ?case by (simp add: mod_pos_pos_trivial)
next
  case (Cons b bs)
  define d0 where "d0 = (c0 + uint b) mod 255"
  define d1 where "d1 = (c1 + d0) mod 255"
  define q where "q = (c0 + uint b) div 255"
  define r where "r = (c1 + d0) div 255"
  have d0: "d0 = c0 + uint b - 255 * q" and d1: "d1 = c1 + d0 - 255 * r"
    by (simp_all add: d0_def d1_def q_def r_def minus_mult_div_eq_mod)
  have "fletcher_loop (b # bs) (c0, c1) = fletcher_loop bs (d0, d1)"
    by (simp add: d0_def d1_def Let_def)
  also have "\<dots> = ((d0 + bsum bs) mod 255, (d1 + int (length bs) * d0 + wsum bs) mod 255)"
    by (rule Cons.IH) (simp_all add: d0_def d1_def)
  also have "d0 + bsum bs = c0 + bsum (b # bs) + 255 * (- q)"
    by (simp add: d0)
  also have "d1 + int (length bs) * d0 + wsum bs
      = c1 + int (length (b # bs)) * c0 + wsum (b # bs) + 255 * (- r - (int (length bs) + 1) * q)"
    by (simp add: d1 d0 algebra_simps)
  finally show ?case by (simp only: mod_mult_self2)
qed

lemma fletcher_loop_zero: "fletcher_loop bs (0, 0) = (bsum bs mod 255, wsum bs mod 255)"
  using fletcher_loop_closed [of 0 0 bs] by simp

text \<open>
  The two check bytes: the formulas of the code solve the two congruences the receiver tests, and
  both results are bytes.
\<close>

lemma check_bytes_spec:
  assumes c: "check_bytes k c0 c1 = (x, y)" and c0: "0 \<le> c0" "c0 < 255"
  shows "0 < x" "x \<le> 255" "0 < y" "y \<le> 255"
    and "(c0 + x + y) mod 255 = 0" and "(c1 + (k + 1) * x + k * y) mod 255 = 0"
proof -
  define x0 where "x0 = (k * c0 - c1) mod 255"
  have x0: "0 \<le> x0" "x0 < 255" by (simp_all add: x0_def)
  have x: "x = (if x0 \<le> 0 then x0 + 255 else x0)"
    and y: "y = (if 510 - c0 - x > 255 then 510 - c0 - x - 255 else 510 - c0 - x)"
    using c by (auto simp: check_bytes_def Let_def x0_def)
  show "0 < x" "x \<le> 255" using x x0 by auto
  then show "0 < y" "y \<le> 255" using y c0 by auto
  obtain q where q: "c0 + x + y = 255 * q" using y by (cases "510 - c0 - x > 255") (auto intro: that)
  then show "(c0 + x + y) mod 255 = 0" by simp
  have "x mod 255 = (k * c0 - c1) mod 255" using x x0 by (auto simp: x0_def)
  then have "(k * c0 - c1) mod 255 = x mod 255" by simp
  then have "255 dvd (k * c0 - c1 - x)" by (simp add: mod_eq_dvd_iff)
  then obtain r where r: "k * c0 - c1 - x = 255 * r" by (auto simp: dvd_def)
  have "c1 + (k + 1) * x + k * y = k * (c0 + x + y) - (k * c0 - c1 - x)"
    by (simp add: algebra_simps)
  also have "\<dots> = 255 * (k * q - r)" using q r by (simp add: algebra_simps)
  finally show "(c1 + (k + 1) * x + k * y) mod 255 = 0" by simp
qed

lemma push_or_byte: "0 \<le> y \<Longrightarrow> y < 256 \<Longrightarrow> push_bit 8 x OR y = x * 256 + (y::int)"
proof -
  assume y: "0 \<le> y" "y < 256"
  then have ty: "take_bit 8 y = y" by (simp add: take_bit_eq_mod mod_pos_pos_trivial)
  have "push_bit 8 x OR y = push_bit 8 x + y"
    by (rule disjunctive_add [symmetric])
      (metis bit_push_bit_iff bit_take_bit_iff linorder_not_le ty)
  then show ?thesis by (simp add: push_bit_eq_mult)
qed

lemma fletcher_checksum_split:
  assumes "length data > off + 1"
  obtains pre a b post where "data = pre @ [a, b] @ post" and "length pre = off"
proof -
  have "data = take off data @ [data ! off, data ! (off + 1)] @ drop (off + 2) data"
    using assms by (simp add: Cons_nth_drop_Suc)
  then show ?thesis using that [of "take off data"] assms by simp
qed

lemma fletcher_checksum_value:
  assumes data: "data = pre @ [a, b] @ post" and off: "length pre = off" "2 \<le> off"
    and C: "C = drop 2 pre @ [0, 0] @ post"
    and xy: "check_bytes (int (length post) + 1) (bsum C mod 255) (wsum C mod 255) = (x, y)"
  shows "fletcher_checksum data off = Inr (x * 256 + y)"
proof -
  have buf: "data[off := 0, off + 1 := 0] = pre @ [0, 0] @ post"
    using data off by (simp add: list_update_append)
  have "drop 2 (pre @ [0, 0] @ post) = C" using C off by simp
  then have loop: "fletcher_loop (drop 2 (data[off := 0, Suc off := 0])) (0, 0)
      = (bsum C mod 255, wsum C mod 255)" using buf fletcher_loop_zero by simp
  have k: "int (length data) - int off - 1 = int (length post) + 1" using data off by simp
  have v: "push_bit 8 x OR y = x * 256 + y"
    using check_bytes_spec(3,4) [OF xy] by (intro push_or_byte) simp_all
  have "\<not> length data \<le> off + 1" using data off by simp
  then show ?thesis by (simp add: fletcher_checksum_def Let_def loop k xy v)
qed

lemma fletcher_stamp_verifies:
  assumes chk: "fletcher_checksum data off = Inr chk" and off: "2 \<le> off"
  shows "verify_fletcher_checksum (data[off := hi_byte chk, off + 1 := lo_byte chk])
    \<and> 0 < chk \<and> chk < 65536 \<and> hi_byte chk \<noteq> 0 \<and> lo_byte chk \<noteq> 0"
proof -
  have len: "length data > off + 1" using chk by (auto simp: fletcher_checksum_def split: if_splits)
  then obtain pre a b post where data: "data = pre @ [a, b] @ post" and pre: "length pre = off"
    by (rule fletcher_checksum_split)
  define C where "C = drop 2 pre @ [0, 0] @ post"
  obtain x y where xy: "check_bytes (int (length post) + 1) (bsum C mod 255) (wsum C mod 255) = (x, y)"
    by fastforce
  note spec = check_bytes_spec [OF xy]
  have chk_val: "chk = x * 256 + y"
    using fletcher_checksum_value [OF data pre off C_def xy] chk by simp
  then have range: "0 < chk" "chk < 65536" using spec(1-4) by simp_all
  have bytes: "uint (hi_byte chk) = x" "uint (lo_byte chk) = y"
    using byte_parts [of x y] spec(1-4) chk_val by simp_all
  have D: "drop 2 (data[off := hi_byte chk, Suc off := lo_byte chk])
      = drop 2 pre @ [hi_byte chk, lo_byte chk] @ post"
    using data pre off by (simp add: list_update_append)
  have "bsum (drop 2 pre @ [hi_byte chk, lo_byte chk] @ post) = bsum C + x + y"
    by (simp add: C_def bytes)
  moreover have "wsum (drop 2 pre @ [hi_byte chk, lo_byte chk] @ post)
      = wsum C + (int (length post) + 1 + 1) * x + (int (length post) + 1) * y"
    by (simp add: C_def bytes wsum_append algebra_simps)
  ultimately have "fletcher_loop (drop 2 pre @ [hi_byte chk, lo_byte chk] @ post) (0, 0) = (0, 0)"
    using spec(5,6) by (simp add: fletcher_loop_zero mod_simps add.assoc)
  then show ?thesis
    using range bytes spec(1,3) by (auto simp: verify_fletcher_checksum_def D)
qed

text \<open>
  An LSA whose checksum field holds the computed Fletcher checksum passes the Fletcher check,
  whatever the bytes are and wherever the field stands after the age: the receiver accepts what
  the sender stamped, and the value stamped is a 16-bit number without a zero byte.
\<close>

theorem fletcher_checksum_verifies:
  assumes "fletcher_checksum data off = Inr chk" and "2 \<le> off"
  shows "verify_fletcher_checksum (data[off := hi_byte chk, off + 1 := lo_byte chk])
    \<and> 0 < chk \<and> chk < 65536 \<and> hi_byte chk \<noteq> 0 \<and> lo_byte chk \<noteq> 0"
  using assms by (rule fletcher_stamp_verifies)

theorem fletcher_checksum_verifies_witness:
  "let data = [0, 1, 2, 1, 10, 0, 0, 1, 10, 0, 0, 1, 128, 0, 0, 1, 0, 0, 0, 24, 2, 0, 0, 0] in
   fletcher_checksum data 16 = Inr 39090
   \<and> verify_fletcher_checksum (data[16 := hi_byte 39090, 16 + 1 := lo_byte 39090])"
proof -
  let ?d = "[0, 1, 2, 1, 10, 0, 0, 1, 10, 0, 0, 1, 128, 0, 0, 1, 0, 0, 0, 24, 2, 0, 0, 0] :: bytes"
  have "fletcher_checksum ?d 16 = Inr 39090" by code_simp
  then show ?thesis using fletcher_checksum_verifies [of ?d 16 39090] by simp
qed

end
