(* ===== verification/Lsa.thy ===== *)
theory Lsa
  imports Struct_Codec Checksum
begin

text \<open>
  \<^verbatim>\<open>packet/lsa.py\<close>: the LSA header, the bodies of the five standard LSA types with the opaque raw
  body, and the complete LSA with its installation metadata. Every \<^verbatim>\<open>serialize\<close> and \<^verbatim>\<open>deserialize\<close>
  of the module is an operation here, with the exceptions \<^verbatim>\<open>struct\<close>, \<^verbatim>\<open>ipaddress\<close> and the bound
  checks raise. \<^verbatim>\<open>Lsa.serialize\<close> updates the header it serializes, so the model returns the LSA as
  it stands afterwards. The lemmas give each codec's round trip, the last ones that of a whole LSA.
\<close>

section \<open>The LSA header\<close>

definition max_age :: int where "max_age = 3600"

record lsa_header =
  lh_ls_age :: int
  lh_options :: int
  lh_ls_type :: int
  lh_link_state_id :: ipv4
  lh_advertising_router :: ipv4
  lh_ls_sequence_number :: int
  lh_ls_checksum :: int
  lh_length :: int

type_synonym lsa_ident = "int \<times> ipv4 \<times> ipv4"

definition lsa_hdr_format :: "fmt list" where
  "lsa_hdr_format = [FH, FB, FB, FS 4, FS 4, FI, FH, FH]"

lemma calcsize_lsa_hdr [simp]: "calcsize lsa_hdr_format = 20"
  by (simp add: lsa_hdr_format_def)

definition lsa_header_serialize :: "lsa_header \<Rightarrow> bytes result" where
  "lsa_header_serialize h = struct_pack lsa_hdr_format
     [VInt (lh_ls_age h), VInt (lh_options h), VInt (lh_ls_type h),
      VBytes (packed (lh_link_state_id h)), VBytes (packed (lh_advertising_router h)),
      VInt (lh_ls_sequence_number h), VInt (lh_ls_checksum h), VInt (lh_length h)]"

definition lsa_header_deserialize :: "bytes \<Rightarrow> lsa_header result" where
  "lsa_header_deserialize data =
     (if length data < 20 then Inl ValueError
      else bindE (struct_unpack lsa_hdr_format (take 20 data)) (\<lambda>vs. case vs of
        [VInt age, VInt opts, VInt ty, VBytes i, VBytes a, VInt sq, VInt ck, VInt len] \<Rightarrow>
          bindE (ipv4_of_packed i) (\<lambda>ls_id. bindE (ipv4_of_packed a) (\<lambda>adv.
            Inr \<lparr>lh_ls_age = age, lh_options = opts, lh_ls_type = ty, lh_link_state_id = ls_id,
                 lh_advertising_router = adv, lh_ls_sequence_number = sq, lh_ls_checksum = ck,
                 lh_length = len\<rparr>))
      | _ \<Rightarrow> Inl StructError))"

definition lsa_header_key :: "lsa_header \<Rightarrow> lsa_ident" where
  "lsa_header_key h = (lh_ls_type h, lh_link_state_id h, lh_advertising_router h)"

definition lsa_header_is_maxage :: "lsa_header \<Rightarrow> bool" where
  "lsa_header_is_maxage h \<longleftrightarrow> max_age \<le> lh_ls_age h"

definition u8 :: "int \<Rightarrow> bool" where "u8 v \<longleftrightarrow> 0 \<le> v \<and> v < 256"
definition u16 :: "int \<Rightarrow> bool" where "u16 v \<longleftrightarrow> 0 \<le> v \<and> v < 65536"
definition u32 :: "int \<Rightarrow> bool" where "u32 v \<longleftrightarrow> 0 \<le> v \<and> v < 4294967296"

lemmas int_range_defs = u8_def u16_def u32_def

definition wf_lsa_header :: "lsa_header \<Rightarrow> bool" where
  "wf_lsa_header h \<longleftrightarrow> u16 (lh_ls_age h) \<and> u8 (lh_options h) \<and> u8 (lh_ls_type h)
     \<and> u32 (lh_ls_sequence_number h) \<and> u16 (lh_ls_checksum h) \<and> u16 (lh_length h)"

lemma lsa_header_roundtrip:
  assumes "wf_lsa_header h"
  shows "\<exists>bs. lsa_header_serialize h = Inr bs \<and> length bs = 20
    \<and> (\<forall>rest. lsa_header_deserialize (bs @ rest) = Inr h)"
proof -
  let ?vs = "[VInt (lh_ls_age h), VInt (lh_options h), VInt (lh_ls_type h),
      VBytes (packed (lh_link_state_id h)), VBytes (packed (lh_advertising_router h)),
      VInt (lh_ls_sequence_number h), VInt (lh_ls_checksum h), VInt (lh_length h)]"
  have "list_all2 fits lsa_hdr_format ?vs"
    using assms by (simp add: lsa_hdr_format_def wf_lsa_header_def int_range_defs)
  then obtain bs where bs: "struct_pack lsa_hdr_format ?vs = Inr bs" "length bs = 20"
    "struct_unpack lsa_hdr_format bs = Inr ?vs"
    by (rule struct_pack_ok) simp
  have "lsa_header_deserialize (bs @ rest) = Inr h" for rest
    using bs by (simp add: lsa_header_deserialize_def)
  with bs show ?thesis by (auto simp: lsa_header_serialize_def)
qed

lemma lsa_header_serialize_length: "lsa_header_serialize h = Inr bs \<Longrightarrow> length bs = 20"
  by (auto simp: lsa_header_serialize_def dest: struct_pack_length)

lemma lsa_header_serialize_wf: "lsa_header_serialize h = Inr bs \<Longrightarrow> wf_lsa_header h"
  unfolding lsa_header_serialize_def
  by (drule struct_pack_fits) (simp add: lsa_hdr_format_def wf_lsa_header_def int_range_defs)

interpretation lsa_hdr: fixed_codec lsa_header_serialize
  "\<lambda>data pos. lsa_header_deserialize (drop pos data)" wf_lsa_header 20
  by unfold_locales (auto dest!: lsa_header_roundtrip)

section \<open>Router LSA\<close>

record router_link =
  rl_link_id :: ipv4
  rl_link_data :: ipv4
  rl_type :: int
  rl_num_tos :: int
  rl_metric :: int
  rl_tos_metrics :: "(int \<times> int) list"

definition router_link_format :: "fmt list" where
  "router_link_format = [FS 4, FS 4, FB, FB, FH]"

definition tos_metric_format :: "fmt list" where
  "tos_metric_format = [FB, FB, FH]"

lemma calcsize_router_formats [simp]:
  "calcsize router_link_format = 12" "calcsize tos_metric_format = 4"
  by (simp_all add: router_link_format_def tos_metric_format_def)

definition tos_serialize :: "int \<times> int \<Rightarrow> bytes result" where
  "tos_serialize tm = struct_pack tos_metric_format [VInt (fst tm), VInt 0, VInt (snd tm)]"

definition tos_deserialize :: "bytes \<Rightarrow> nat \<Rightarrow> ((int \<times> int) \<times> nat) result" where
  "tos_deserialize data pos =
     bindE (struct_unpack_from tos_metric_format data pos) (\<lambda>vs. case vs of
       [VInt tos, _, VInt m] \<Rightarrow> Inr ((tos, m), 4)
     | _ \<Rightarrow> Inl StructError)"

definition router_link_serialize :: "router_link \<Rightarrow> bytes result" where
  "router_link_serialize l =
     bindE (struct_pack router_link_format
       [VBytes (packed (rl_link_id l)), VBytes (packed (rl_link_data l)),
        VInt (rl_type l), VInt (rl_num_tos l), VInt (rl_metric l)]) (\<lambda>fixed.
     bindE (ser_all tos_serialize (rl_tos_metrics l)) (\<lambda>tos. Inr (fixed @ tos)))"

definition router_link_deserialize :: "bytes \<Rightarrow> nat \<Rightarrow> (router_link \<times> nat) result" where
  "router_link_deserialize data off =
     bindE (struct_unpack_from router_link_format data off) (\<lambda>vs. case vs of
       [VBytes li, VBytes ld, VInt ty, VInt num_tos, VInt metric] \<Rightarrow>
         if num_tos * 4 > int (length data) - int (off + 12) then Inl ValueError
         else bindE (read_n (nat num_tos) (tos_deserialize data) (off + 12)) (\<lambda>(tos, pos).
           bindE (ipv4_of_packed li) (\<lambda>link_id. bindE (ipv4_of_packed ld) (\<lambda>link_data.
             Inr (\<lparr>rl_link_id = link_id, rl_link_data = link_data, rl_type = ty,
                   rl_num_tos = num_tos, rl_metric = metric, rl_tos_metrics = tos\<rparr>,
                  pos - off))))
     | _ \<Rightarrow> Inl StructError)"

definition wf_router_link :: "router_link \<Rightarrow> bool" where
  "wf_router_link l \<longleftrightarrow> u8 (rl_type l) \<and> u8 (rl_num_tos l) \<and> u16 (rl_metric l)
     \<and> rl_num_tos l = int (length (rl_tos_metrics l))
     \<and> list_all (\<lambda>tm. u8 (fst tm) \<and> u16 (snd tm)) (rl_tos_metrics l)"

interpretation tos: counted_codec tos_serialize tos_deserialize "\<lambda>tm. u8 (fst tm) \<and> u16 (snd tm)"
proof
  fix tm :: "int \<times> int" assume wf: "u8 (fst tm) \<and> u16 (snd tm)"
  let ?vs = "[VInt (fst tm), VInt 0, VInt (snd tm)]"
  have "list_all2 fits tos_metric_format ?vs"
    using wf by (simp add: tos_metric_format_def int_range_defs)
  then obtain bs where "struct_pack tos_metric_format ?vs = Inr bs" "length bs = 4"
    "\<And>pre rest. struct_unpack_from tos_metric_format (pre @ bs @ rest) (length pre) = Inr ?vs"
    by (rule struct_pack_ok) simp
  then show "\<exists>bs. tos_serialize tm = Inr bs
      \<and> (\<forall>pre rest. tos_deserialize (pre @ bs @ rest) (length pre) = Inr (tm, length bs))"
    by (auto simp: tos_serialize_def tos_deserialize_def)
qed

lemma tos_ser_all_length: "ser_all tos_serialize tms = Inr bs \<Longrightarrow> length bs = 4 * length tms"
  by (induction tms arbitrary: bs) (auto simp: tos_serialize_def dest!: struct_pack_length)

interpretation rlink: counted_codec router_link_serialize router_link_deserialize wf_router_link
proof
  fix l assume wf: "wf_router_link l"
  let ?vs = "[VBytes (packed (rl_link_id l)), VBytes (packed (rl_link_data l)),
        VInt (rl_type l), VInt (rl_num_tos l), VInt (rl_metric l)]"
  have "list_all2 fits router_link_format ?vs"
    using wf by (simp add: router_link_format_def wf_router_link_def int_range_defs)
  then obtain a where a: "struct_pack router_link_format ?vs = Inr a" "length a = 12"
    "\<And>pre rest. struct_unpack_from router_link_format (pre @ a @ rest) (length pre) = Inr ?vs"
    by (rule struct_pack_ok) simp
  have tos_wf: "list_all (\<lambda>tm. u8 (fst tm) \<and> u16 (snd tm)) (rl_tos_metrics l)"
    using wf by (simp add: wf_router_link_def)
  then obtain t where t: "ser_all tos_serialize (rl_tos_metrics l) = Inr t"
    using tos.ser_all_total by blast
  have "router_link_deserialize (pre @ (a @ t) @ rest) (length pre) = Inr (l, length (a @ t))"
    for pre rest
  proof -
    have "read_n (length (rl_tos_metrics l)) (tos_deserialize ((pre @ a) @ t @ rest))
        (length (pre @ a)) = Inr (rl_tos_metrics l, length (pre @ a) + length t)"
      by (rule tos.read_n_ser_all [OF tos_wf t])
    then show ?thesis
      using a wf tos_ser_all_length [OF t]
      by (simp add: router_link_deserialize_def wf_router_link_def)
  qed
  then show "\<exists>bs. router_link_serialize l = Inr bs
      \<and> (\<forall>pre rest. router_link_deserialize (pre @ bs @ rest) (length pre) = Inr (l, length bs))"
    using a t by (auto simp: router_link_serialize_def)
qed

record router_lsa =
  rt_flags :: int
  rt_num_links :: int
  rt_links :: "router_link list"

definition router_lsa_body_format :: "fmt list" where
  "router_lsa_body_format = [FB, FB, FH]"

definition router_lsa_serialize :: "router_lsa \<Rightarrow> bytes result" where
  "router_lsa_serialize r =
     bindE (struct_pack router_lsa_body_format [VInt (rt_flags r), VInt 0, VInt (rt_num_links r)])
       (\<lambda>fixed. bindE (ser_all router_link_serialize (rt_links r)) (\<lambda>ls. Inr (fixed @ ls)))"

definition router_lsa_deserialize :: "bytes \<Rightarrow> nat \<Rightarrow> router_lsa result" where
  "router_lsa_deserialize data off =
     bindE (struct_unpack_from router_lsa_body_format data off) (\<lambda>vs. case vs of
       [VInt flags, _, VInt num_links] \<Rightarrow>
         if num_links > 0 \<and> num_links * 12 > int (length data) - int off - 4 then Inl ValueError
         else bindE (read_n (nat num_links) (router_link_deserialize data) (off + 4))
           (\<lambda>(links, pos). Inr \<lparr>rt_flags = flags, rt_num_links = num_links, rt_links = links\<rparr>)
     | _ \<Rightarrow> Inl StructError)"

definition wf_router_lsa :: "router_lsa \<Rightarrow> bool" where
  "wf_router_lsa r \<longleftrightarrow> u8 (rt_flags r) \<and> u16 (rt_num_links r)
     \<and> rt_num_links r = int (length (rt_links r)) \<and> list_all wf_router_link (rt_links r)"

lemma router_links_length:
  "ser_all router_link_serialize ls = Inr bs \<Longrightarrow> 12 * length ls \<le> length bs"
  by (induction ls arbitrary: bs)
    (force simp: router_link_serialize_def dest!: struct_pack_length)+

lemma router_lsa_roundtrip:
  assumes "wf_router_lsa r"
  shows "\<exists>bs. router_lsa_serialize r = Inr bs \<and> 4 \<le> length bs
    \<and> (\<forall>pre rest. router_lsa_deserialize (pre @ bs @ rest) (length pre) = Inr r)"
proof -
  let ?vs = "[VInt (rt_flags r), VInt 0, VInt (rt_num_links r)]"
  have "list_all2 fits router_lsa_body_format ?vs"
    using assms by (simp add: router_lsa_body_format_def wf_router_lsa_def int_range_defs)
  then obtain a where a: "struct_pack router_lsa_body_format ?vs = Inr a" "length a = 4"
    "\<And>pre rest. struct_unpack_from router_lsa_body_format (pre @ a @ rest) (length pre) = Inr ?vs"
    by (rule struct_pack_ok) (simp add: router_lsa_body_format_def)
  have links_wf: "list_all wf_router_link (rt_links r)"
    and n: "rt_num_links r = int (length (rt_links r))"
    using assms by (simp_all add: wf_router_lsa_def)
  from links_wf obtain t where t: "ser_all router_link_serialize (rt_links r) = Inr t"
    using rlink.ser_all_total by blast
  have "length t \<ge> 12 * length (rt_links r)"
    using t router_links_length by blast
  moreover have "read_n (length (rt_links r)) (router_link_deserialize ((pre @ a) @ t @ rest))
      (length (pre @ a)) = Inr (rt_links r, length (pre @ a) + length t)" for pre rest
    by (rule rlink.read_n_ser_all [OF links_wf t])
  ultimately have "router_lsa_deserialize (pre @ (a @ t) @ rest) (length pre) = Inr r" for pre rest
    using a n by (simp add: router_lsa_deserialize_def)
  then show ?thesis using a t by (auto simp: router_lsa_serialize_def)
qed

section \<open>Network, summary and AS-external LSA\<close>

record network_lsa =
  nl_network_mask :: ipv4
  nl_attached_routers :: "ipv4 list"

definition network_lsa_serialize :: "network_lsa \<Rightarrow> bytes" where
  "network_lsa_serialize n = packed (nl_network_mask n) @ concat (map packed (nl_attached_routers n))"

definition read_addr :: "bytes \<Rightarrow> nat \<Rightarrow> ipv4 result" where
  \<comment> \<open>\<^verbatim>\<open>IPv4Address(data[pos : pos + 4])\<close>\<close>
  "read_addr data pos = ipv4_of_packed (pslice data pos (pos + 4))"

definition network_lsa_deserialize :: "bytes \<Rightarrow> nat \<Rightarrow> nat \<Rightarrow> network_lsa result" where
  "network_lsa_deserialize data off len =
     bindE (read_addr data off) (\<lambda>mask.
     bindE (parse_fixed 4 (read_addr data) (off + 4) (if len \<noteq> 0 then off + len else length data))
       (\<lambda>routers. Inr \<lparr>nl_network_mask = mask, nl_attached_routers = routers\<rparr>))"

lemma read_addr_packed [simp]: "read_addr (pre @ packed a @ rest) (length pre) = Inr a"
  by (simp add: read_addr_def)

interpretation addr: fixed_codec "\<lambda>a. Inr (packed a)" read_addr "\<lambda>_. True" 4
  by unfold_locales auto

lemma ser_all_packed: "ser_all (\<lambda>a. Inr (packed a)) as = Inr (concat (map packed as))"
  by (induction as) simp_all

lemma length_concat_packed [simp]: "length (concat (map packed as)) = 4 * length as"
  by (induction as) simp_all

lemma sum_list_length_packed [simp]: "sum_list (map (length \<circ> packed) as) = 4 * length as"
  by (induction as) simp_all

lemma network_lsa_roundtrip:
  assumes bs_def: "bs = network_lsa_serialize n"
  shows "network_lsa_deserialize (pre @ bs @ rest) (length pre) (length bs) = Inr n"
proof -
  let ?m = "packed (nl_network_mask n)" and ?r = "concat (map packed (nl_attached_routers n))"
  have "read_addr (pre @ bs @ rest) (length pre) = Inr (nl_network_mask n)"
    using read_addr_packed [of pre _ "?r @ rest"] by (simp add: bs_def network_lsa_serialize_def)
  moreover have "parse_fixed 4 (read_addr ((pre @ ?m) @ ?r @ rest)) (length (pre @ ?m))
      (length (pre @ ?m @ ?r)) = Inr (nl_attached_routers n)"
    by (rule addr.parse_all_within [OF _ ser_all_packed]) (simp_all add: list.pred_True)
  ultimately show ?thesis
    by (simp add: network_lsa_deserialize_def bs_def network_lsa_serialize_def add.commute)
qed

record summary_lsa =
  sl_network_mask :: ipv4
  sl_metric :: int

definition summary_lsa_serialize :: "summary_lsa \<Rightarrow> bytes result" where
  "summary_lsa_serialize s =
     bindE (struct_pack [FI] [VInt (sl_metric s AND 0x00FFFFFF)])
       (\<lambda>m. Inr (packed (sl_network_mask s) @ m))"

definition unpack_u32 :: "bytes \<Rightarrow> nat \<Rightarrow> int result" where
  \<comment> \<open>\<^verbatim>\<open>struct.unpack_from("!I", data, pos)[0]\<close>\<close>
  "unpack_u32 data pos =
     bindE (struct_unpack_from [FI] data pos)
       (\<lambda>vs. case vs of [VInt v] \<Rightarrow> Inr v | _ \<Rightarrow> Inl StructError)"

definition summary_lsa_deserialize :: "bytes \<Rightarrow> nat \<Rightarrow> summary_lsa result" where
  "summary_lsa_deserialize data off =
     bindE (read_addr data off) (\<lambda>mask.
     bindE (unpack_u32 data (off + 4)) (\<lambda>metric_word.
       Inr \<lparr>sl_network_mask = mask, sl_metric = metric_word AND 0x00FFFFFF\<rparr>))"

record external_lsa =
  el_network_mask :: ipv4
  el_e_bit :: bool
  el_metric :: int
  el_forwarding_address :: ipv4
  el_external_route_tag :: int

definition external_lsa_serialize :: "external_lsa \<Rightarrow> bytes result" where
  "external_lsa_serialize e =
     (let metric_word = (el_metric e AND 0x00FFFFFF);
          metric_word = (if el_e_bit e then metric_word OR 0x80000000 else metric_word)
      in bindE (struct_pack [FI] [VInt metric_word]) (\<lambda>m.
         bindE (struct_pack [FI] [VInt (el_external_route_tag e)]) (\<lambda>t.
           Inr (packed (el_network_mask e) @ m @ packed (el_forwarding_address e) @ t))))"

definition external_lsa_deserialize :: "bytes \<Rightarrow> nat \<Rightarrow> external_lsa result" where
  "external_lsa_deserialize data off =
     bindE (read_addr data off) (\<lambda>mask.
     bindE (unpack_u32 data (off + 4)) (\<lambda>metric_word.
     bindE (read_addr data (off + 8)) (\<lambda>fwd.
     bindE (unpack_u32 data (off + 12)) (\<lambda>tag.
       Inr \<lparr>el_network_mask = mask, el_e_bit = (metric_word AND 0x80000000 \<noteq> 0),
            el_metric = metric_word AND 0x00FFFFFF, el_forwarding_address = fwd,
            el_external_route_tag = tag\<rparr>))))"

lemma and_FFFFFF: "(v::int) AND 0x00FFFFFF = v mod 16777216"
proof -
  have "v AND mask 24 = v mod 16777216" by (simp flip: take_bit_eq_mask add: take_bit_eq_mod)
  then show ?thesis by (simp add: mask_eq_exp_minus_1)
qed

lemma and_bit31_iff: "(v::int) AND 0x80000000 \<noteq> 0 \<longleftrightarrow> odd (v div 2147483648)"
  using and_exp_eq_0_iff_not_bit [of v 31] by (simp add: bit_iff_odd)

lemma or_bit31: "0 \<le> v \<Longrightarrow> v < 16777216 \<Longrightarrow> v OR 0x80000000 = v + (2147483648::int)"
proof -
  assume v: "0 \<le> v" "v < 16777216"
  then have "\<not> bit v 31" by (simp add: bit_iff_odd)
  then have "v OR 2 ^ 31 = v + 2 ^ 31"
    by (intro disjunctive_add [symmetric]) (metis bit_exp_iff)
  then show ?thesis by simp
qed

lemma mod_add_bit31: "(v + 2147483648) mod 16777216 = v mod (16777216::int)"
  using mod_mult_self1 [of v 128 16777216] by simp

lemma unpack_u32_pack:
  assumes "u32 v"
  obtains bs where "struct_pack [FI] [VInt v] = Inr bs" and "length bs = 4"
    and "\<And>pre rest. unpack_u32 (pre @ bs @ rest) (length pre) = Inr v"
proof -
  have "list_all2 fits [FI] [VInt v]" using assms by (simp add: int_range_defs)
  then obtain bs where "struct_pack [FI] [VInt v] = Inr bs" "length bs = 4"
    "\<And>pre rest. struct_unpack_from [FI] (pre @ bs @ rest) (length pre) = Inr [VInt v]"
    by (rule struct_pack_ok) simp
  then show ?thesis using that by (simp add: unpack_u32_def del: struct_pack.simps)
qed

definition wf_summary_lsa :: "summary_lsa \<Rightarrow> bool" where
  "wf_summary_lsa s \<longleftrightarrow> 0 \<le> sl_metric s \<and> sl_metric s < 16777216"

definition wf_external_lsa :: "external_lsa \<Rightarrow> bool" where
  "wf_external_lsa e \<longleftrightarrow> 0 \<le> el_metric e \<and> el_metric e < 16777216 \<and> u32 (el_external_route_tag e)"

lemma summary_lsa_roundtrip:
  assumes "wf_summary_lsa s"
  shows "\<exists>bs. summary_lsa_serialize s = Inr bs \<and> length bs = 8
    \<and> (\<forall>pre rest. summary_lsa_deserialize (pre @ bs @ rest) (length pre) = Inr s)"
proof -
  have m: "sl_metric s AND 0x00FFFFFF = sl_metric s"
    using assms by (simp add: and_FFFFFF wf_summary_lsa_def mod_pos_pos_trivial)
  have "u32 (sl_metric s)" using assms by (simp add: wf_summary_lsa_def int_range_defs)
  then obtain b where b: "struct_pack [FI] [VInt (sl_metric s)] = Inr b" "length b = 4"
    "\<And>pre rest. unpack_u32 (pre @ b @ rest) (length pre) = Inr (sl_metric s)"
    by (rule unpack_u32_pack) blast
  have "summary_lsa_deserialize (pre @ (packed (sl_network_mask s) @ b) @ rest) (length pre) = Inr s"
    for pre rest
    using read_addr_packed [of pre "sl_network_mask s" "b @ rest"]
      b(3) [of "pre @ packed (sl_network_mask s)" rest]
    by (simp add: summary_lsa_deserialize_def m)
  then show ?thesis using b m by (auto simp: summary_lsa_serialize_def simp del: struct_pack.simps)
qed

lemma external_lsa_roundtrip:
  assumes wf: "wf_external_lsa e"
  shows "\<exists>bs. external_lsa_serialize e = Inr bs \<and> length bs = 16
    \<and> (\<forall>pre rest. external_lsa_deserialize (pre @ bs @ rest) (length pre) = Inr e)"
proof -
  let ?w = "(if el_e_bit e then el_metric e OR 0x80000000 else el_metric e)"
  have range: "0 \<le> el_metric e" "el_metric e < 16777216" using wf by (simp_all add: wf_external_lsa_def)
  have w: "?w = (if el_e_bit e then el_metric e + 2147483648 else el_metric e)"
    using or_bit31 [OF range] by simp
  have m: "el_metric e AND 0x00FFFFFF = el_metric e"
    using range by (simp add: and_FFFFFF mod_pos_pos_trivial)
  have wm: "?w AND 0x00FFFFFF = el_metric e" and we: "(?w AND 0x80000000 \<noteq> 0) = el_e_bit e"
    using range unfolding w and_bit31_iff and_FFFFFF
    by (auto simp: mod_pos_pos_trivial mod_add_bit31)
  have "u32 ?w" using range unfolding w by (simp add: int_range_defs)
  then obtain b where b: "struct_pack [FI] [VInt ?w] = Inr b" "length b = 4"
    "\<And>pre rest. unpack_u32 (pre @ b @ rest) (length pre) = Inr ?w"
    by (rule unpack_u32_pack) blast
  have "u32 (el_external_route_tag e)" using wf by (simp add: wf_external_lsa_def)
  then obtain t where t: "struct_pack [FI] [VInt (el_external_route_tag e)] = Inr t" "length t = 4"
    "\<And>pre rest. unpack_u32 (pre @ t @ rest) (length pre) = Inr (el_external_route_tag e)"
    by (rule unpack_u32_pack) blast
  let ?n = "packed (el_network_mask e)" and ?f = "packed (el_forwarding_address e)"
  have "external_lsa_deserialize (pre @ (?n @ b @ ?f @ t) @ rest) (length pre) = Inr e" for pre rest
    using read_addr_packed [of pre "el_network_mask e" "b @ ?f @ t @ rest"]
      b(3) [of "pre @ ?n" "?f @ t @ rest"] b(2)
      read_addr_packed [of "pre @ ?n @ b" "el_forwarding_address e" "t @ rest"]
      t(3) [of "pre @ ?n @ b @ ?f" rest]
    by (simp add: external_lsa_deserialize_def wm we add.assoc del: split_paired_All)
  moreover have "external_lsa_serialize e = Inr (?n @ b @ ?f @ t)"
    using b(1) t(1) by (simp add: external_lsa_serialize_def m Let_def del: struct_pack.simps)
  ultimately show ?thesis using b(2) t(2) by auto
qed

section \<open>The complete LSA\<close>

text \<open>
  \<open>Raw_Body\<close> stands for both classes that keep unparsed bytes, \<^verbatim>\<open>_RawBody\<close> and the SR subsystem's
  \<^verbatim>\<open>OpaqueLsaBody\<close>.
\<close>

datatype lsa_body =
    Router_Body router_lsa
  | Network_Body network_lsa
  | Summary_Body summary_lsa
  | External_Body external_lsa
  | Raw_Body bytes

fun lsa_body_serialize :: "lsa_body \<Rightarrow> bytes result" where
  "lsa_body_serialize (Router_Body r) = router_lsa_serialize r"
| "lsa_body_serialize (Network_Body n) = Inr (network_lsa_serialize n)"
| "lsa_body_serialize (Summary_Body s) = summary_lsa_serialize s"
| "lsa_body_serialize (External_Body e) = external_lsa_serialize e"
| "lsa_body_serialize (Raw_Body raw) = Inr raw"

record lsa =
  l_header :: lsa_header
  l_body :: "lsa_body option"
  l_install_time :: "time option"
  l_installed_age :: int

definition lsa_key :: "lsa \<Rightarrow> lsa_ident" where
  "lsa_key l = lsa_header_key (l_header l)"

definition current_age :: "time \<Rightarrow> lsa \<Rightarrow> int" where
  "current_age now l =
     (case l_install_time l of
        None \<Rightarrow> lh_ls_age (l_header l)
      | Some t \<Rightarrow> min (l_installed_age l + py_int (now - t)) max_age)"

definition body_bytes :: "lsa_body option \<Rightarrow> bytes result" where
  "body_bytes b = (case b of None \<Rightarrow> Inr [] | Some b \<Rightarrow> lsa_body_serialize b)"

definition lsa_serialize :: "time \<Rightarrow> bool \<Rightarrow> lsa \<Rightarrow> (bytes \<times> lsa) result" where
  "lsa_serialize now recompute_checksum l =
     bindE (body_bytes (l_body l)) (\<lambda>bb.
       let total_len = 20 + int (length bb);
           h = (l_header l)\<lparr>lh_length := total_len, lh_ls_age := min (current_age now l) max_age\<rparr>
       in bindE
           (if recompute_checksum then
              let h0 = h\<lparr>lh_ls_checksum := 0\<rparr> in
              bindE (lsa_header_serialize h0) (\<lambda>hb.
              bindE (fletcher_checksum (hb @ bb) 16) (\<lambda>c. Inr (h0\<lparr>lh_ls_checksum := c\<rparr>)))
            else Inr h)
           (\<lambda>h'. bindE (lsa_header_serialize h') (\<lambda>hb.
             Inr (hb @ bb, l\<lparr>l_header := h'\<rparr>))))"

definition body_deserializer :: "int \<Rightarrow> (bytes \<Rightarrow> nat \<Rightarrow> nat \<Rightarrow> lsa_body result) option" where
  \<comment> \<open>\<^verbatim>\<open>_BODY_DESERIALIZERS\<close>; only the Network LSA's parser is given the body length\<close>
  "body_deserializer ls_type =
     (if ls_type = 1 then Some (\<lambda>d off len. bindE (router_lsa_deserialize d off) (\<lambda>r. Inr (Router_Body r)))
      else if ls_type = 2 then
        Some (\<lambda>d off len. bindE (network_lsa_deserialize d off len) (\<lambda>n. Inr (Network_Body n)))
      else if ls_type = 3 \<or> ls_type = 4 then
        Some (\<lambda>d off len. bindE (summary_lsa_deserialize d off) (\<lambda>s. Inr (Summary_Body s)))
      else if ls_type = 5 then
        Some (\<lambda>d off len. bindE (external_lsa_deserialize d off) (\<lambda>e. Inr (External_Body e)))
      else None)"

definition lsa_deserialize :: "bytes \<Rightarrow> nat \<Rightarrow> (lsa \<times> nat) result" where
  "lsa_deserialize data off =
     bindE (lsa_header_deserialize (drop off data)) (\<lambda>header.
     bindE (guardE (\<not> lh_length header < 20) ValueError) (\<lambda>_.
     bindE (guardE (\<not> lh_length header > int (length data) - int off) ValueError) (\<lambda>_.
       let body_offset = off + 20;
           body_len = nat (lh_length header) - 20
       in bindE
           (case body_deserializer (lh_ls_type header) of
              Some deserializer \<Rightarrow>
                if body_len > 0 then bindE (deserializer data body_offset body_len) (\<lambda>b. Inr (Some b))
                else Inr None
            | None \<Rightarrow>
                if body_len > 0
                then Inr (Some (Raw_Body (pslice data body_offset (body_offset + body_len))))
                else Inr None)
           (\<lambda>body. Inr (\<lparr>l_header = header, l_body = body, l_install_time = None,
                        l_installed_age = 0\<rparr>, nat (lh_length header))))))"

definition mark_installed :: "time \<Rightarrow> lsa \<Rightarrow> lsa" where
  "mark_installed now l =
     l\<lparr>l_installed_age := lh_ls_age (l_header l), l_install_time := Some now\<rparr>"

section \<open>Round trip and checksum of a complete LSA\<close>

definition body_matches :: "int \<Rightarrow> lsa_body option \<Rightarrow> bool" where
  \<comment> \<open>the body is one the LS type's parser reads back\<close>
  "body_matches ty b = (case b of
      None \<Rightarrow> True
    | Some (Router_Body r) \<Rightarrow> ty = 1 \<and> wf_router_lsa r
    | Some (Network_Body n) \<Rightarrow> ty = 2
    | Some (Summary_Body s) \<Rightarrow> (ty = 3 \<or> ty = 4) \<and> wf_summary_lsa s
    | Some (External_Body e) \<Rightarrow> ty = 5 \<and> wf_external_lsa e
    | Some (Raw_Body raw) \<Rightarrow> ty \<notin> {1, 2, 3, 4, 5} \<and> raw \<noteq> [])"

definition parse_body :: "int \<Rightarrow> bytes \<Rightarrow> nat \<Rightarrow> nat \<Rightarrow> lsa_body option result" where
  "parse_body ty data body_offset body_len =
     (case body_deserializer ty of
        Some deserializer \<Rightarrow>
          if body_len > 0 then bindE (deserializer data body_offset body_len) (\<lambda>b. Inr (Some b))
          else Inr None
      | None \<Rightarrow>
          if body_len > 0
          then Inr (Some (Raw_Body (pslice data body_offset (body_offset + body_len))))
          else Inr None)"

lemma parse_body_roundtrip:
  assumes "body_matches ty b" and "body_bytes b = Inr bb"
  shows "parse_body ty (pre @ bb @ rest) (length pre) (length bb) = Inr b"
proof (cases b)
  case None
  then show ?thesis using assms by (auto simp: parse_body_def body_bytes_def split: option.split)
next
  case (Some body)
  then show ?thesis
  proof (cases body)
    case (Router_Body r)
    with Some assms show ?thesis
      using router_lsa_roundtrip [of r]
      by (auto simp: parse_body_def body_bytes_def body_matches_def body_deserializer_def)
  next
    case (Network_Body n)
    with Some assms show ?thesis
      using network_lsa_roundtrip [of bb n pre rest]
      by (auto simp: parse_body_def body_bytes_def body_matches_def body_deserializer_def
          network_lsa_serialize_def)
  next
    case (Summary_Body x)
    with Some assms show ?thesis
      using summary_lsa_roundtrip [of x]
      by (auto simp: parse_body_def body_bytes_def body_matches_def body_deserializer_def)
  next
    case (External_Body e)
    with Some assms show ?thesis
      using external_lsa_roundtrip [of e]
      by (auto simp: parse_body_def body_bytes_def body_matches_def body_deserializer_def)
  next
    case (Raw_Body raw)
    with Some assms show ?thesis
      by (auto simp: parse_body_def body_bytes_def body_matches_def body_deserializer_def)
  qed
qed

lemma lsa_deserialize_eq:
  "lsa_deserialize data off =
     bindE (lsa_header_deserialize (drop off data)) (\<lambda>header.
     bindE (guardE (\<not> lh_length header < 20) ValueError) (\<lambda>_.
     bindE (guardE (\<not> lh_length header > int (length data) - int off) ValueError) (\<lambda>_.
     bindE (parse_body (lh_ls_type header) data (off + 20) (nat (lh_length header) - 20)) (\<lambda>body.
       Inr (\<lparr>l_header = header, l_body = body, l_install_time = None, l_installed_age = 0\<rparr>,
            nat (lh_length header))))))"
  by (simp add: lsa_deserialize_def parse_body_def Let_def)

lemma lsa_serialize_cases:
  assumes "lsa_serialize now rc l = Inr (bs, l')"
  obtains hb bb where "body_bytes (l_body l) = Inr bb" and "bs = hb @ bb"
    and "lsa_header_serialize (l_header l') = Inr hb"
    and "lh_length (l_header l') = 20 + int (length bb)"
    and "l' = l\<lparr>l_header := l_header l'\<rparr>"
    and "lsa_header_key (l_header l') = lsa_header_key (l_header l)"
    and "lh_ls_sequence_number (l_header l') = lh_ls_sequence_number (l_header l)"
    and "lh_ls_age (l_header l') = min (current_age now l) max_age"
    and "rc \<longrightarrow> (\<exists>hb0 c. lsa_header_serialize ((l_header l')\<lparr>lh_ls_checksum := 0\<rparr>) = Inr hb0
      \<and> fletcher_checksum (hb0 @ bb) 16 = Inr c \<and> lh_ls_checksum (l_header l') = c)"
  using assms
  by (cases rc) (auto simp: lsa_serialize_def Let_def lsa_header_key_def intro!: that)

lemma lsa_serialize_deserialize:
  assumes ser: "lsa_serialize now rc l = Inr (bs, l')"
    and body: "body_matches (lh_ls_type (l_header l)) (l_body l)"
  shows "lsa_deserialize (pre @ bs @ rest) (length pre)
    = Inr (l'\<lparr>l_install_time := None, l_installed_age := 0\<rparr>, length bs)"
proof -
  from ser obtain hb bb where bb: "body_bytes (l_body l) = Inr bb" and bs: "bs = hb @ bb"
    and hb: "lsa_header_serialize (l_header l') = Inr hb"
    and len: "lh_length (l_header l') = 20 + int (length bb)"
    and l': "l' = l\<lparr>l_header := l_header l'\<rparr>"
    and key: "lsa_header_key (l_header l') = lsa_header_key (l_header l)"
    by (rule lsa_serialize_cases)
  have ty: "lh_ls_type (l_header l') = lh_ls_type (l_header l)"
    using key by (simp add: lsa_header_key_def)
  have body': "l_body l' = l_body l" by (subst l') simp
  have hlen: "length hb = 20" using hb by (rule lsa_header_serialize_length)
  have dec: "lsa_header_deserialize (drop (length pre) (pre @ bs @ rest)) = Inr (l_header l')"
    using lsa_header_roundtrip [OF lsa_header_serialize_wf [OF hb]] hb bs by auto
  have "parse_body (lh_ls_type (l_header l)) ((pre @ hb) @ bb @ rest) (length (pre @ hb)) (length bb)
      = Inr (l_body l)" by (rule parse_body_roundtrip [OF body bb])
  then have "parse_body (lh_ls_type (l_header l)) (pre @ bs @ rest) (length pre + 20) (length bb)
      = Inr (l_body l)" using hlen bs by simp
  then show ?thesis
    using dec len hlen bs ty body' by (simp add: lsa_deserialize_eq nat_add_distrib)
qed

text \<open>The header's bytes written out, to see where the checksum stands.\<close>

lemma lsa_header_serialize_eq:
  assumes "wf_lsa_header h"
  shows "lsa_header_serialize h = Inr
    ((be_encode 2 (lh_ls_age h) @ be_encode 1 (lh_options h) @ be_encode 1 (lh_ls_type h)
      @ packed (lh_link_state_id h) @ packed (lh_advertising_router h)
      @ be_encode 4 (lh_ls_sequence_number h)) @ be_encode 2 (lh_ls_checksum h)
      @ be_encode 2 (lh_length h))"
  using assms
  by (simp add: lsa_header_serialize_def lsa_hdr_format_def pack_int_def wf_lsa_header_def
      int_range_defs del: be_encode.simps)

declare be_encode.simps [simp del]

lemma be_encode_2: "0 \<le> v \<Longrightarrow> v < 65536 \<Longrightarrow> be_encode 2 v = [hi_byte v, lo_byte v]"
  by (simp add: be_encode.simps numeral_2_eq_2 hi_byte_def lo_byte_def and_FF drop_bit_eq_div
      word_uint_eq_iff uint_byte_of_int)

lemma lsa_serialize_checksum:
  assumes ser: "lsa_serialize now True l = Inr (bs, l')"
  shows "verify_fletcher_checksum bs"
proof -
  from ser obtain hb bb hb0 c where bs: "bs = hb @ bb"
    and hb: "lsa_header_serialize (l_header l') = Inr hb"
    and hb0: "lsa_header_serialize ((l_header l')\<lparr>lh_ls_checksum := 0\<rparr>) = Inr hb0"
    and c: "fletcher_checksum (hb0 @ bb) 16 = Inr c" "lh_ls_checksum (l_header l') = c"
    by (rule lsa_serialize_cases) blast
  define P where "P = be_encode 2 (lh_ls_age (l_header l')) @ be_encode 1 (lh_options (l_header l'))
      @ be_encode 1 (lh_ls_type (l_header l')) @ packed (lh_link_state_id (l_header l'))
      @ packed (lh_advertising_router (l_header l'))
      @ be_encode 4 (lh_ls_sequence_number (l_header l'))"
  define Q where "Q = be_encode 2 (lh_length (l_header l'))"
  have P: "length P = 16" by (simp add: P_def del: be_encode.simps)
  have "hb = P @ be_encode 2 c @ Q"
    using lsa_header_serialize_eq [OF lsa_header_serialize_wf [OF hb]] hb c(2)
    by (simp add: P_def Q_def)
  moreover have "hb0 = P @ be_encode 2 0 @ Q"
    using lsa_header_serialize_eq [OF lsa_header_serialize_wf [OF hb0]] hb0
    by (simp add: P_def Q_def)
  moreover have "0 \<le> c \<and> c < 65536"
    using lsa_header_serialize_wf [OF hb] c(2) by (simp add: wf_lsa_header_def int_range_defs)
  then have "be_encode 2 c = [hi_byte c, lo_byte c]" by (simp add: be_encode_2)
  moreover have "be_encode 2 0 = [0, 0]" by (simp add: be_encode.simps numeral_2_eq_2)
  ultimately have "bs = (hb0 @ bb)[16 := hi_byte c, 16 + 1 := lo_byte c]"
    using P by (simp add: bs list_update_append)
  then show ?thesis using fletcher_stamp_verifies [OF c(1)] by simp
qed

text \<open>A concrete router LSA: one transit link, one stub link with a TOS metric.\<close>

definition sample_lsa :: lsa where
  "sample_lsa = \<lparr>l_header = \<lparr>lh_ls_age = 1, lh_options = 2, lh_ls_type = 1,
       lh_link_state_id = 167772161, lh_advertising_router = 167772161,
       lh_ls_sequence_number = 2147483649, lh_ls_checksum = 0, lh_length = 0\<rparr>,
     l_body = Some (Router_Body \<lparr>rt_flags = 0, rt_num_links = 2, rt_links =
       [\<lparr>rl_link_id = 167772417, rl_link_data = 167772161, rl_type = 2, rl_num_tos = 0,
         rl_metric = 10, rl_tos_metrics = []\<rparr>,
        \<lparr>rl_link_id = 3232235776, rl_link_data = 4294967040, rl_type = 3, rl_num_tos = 1,
         rl_metric = 1, rl_tos_metrics = [(8, 5)]\<rparr>]\<rparr>),
     l_install_time = None, l_installed_age = 0\<rparr>"

definition sample_bytes :: bytes where
  "sample_bytes = [0, 1, 2, 1, 10, 0, 0, 1, 10, 0, 0, 1, 128, 0, 0, 1, 63, 80, 0, 52,
     0, 0, 0, 2, 10, 0, 1, 1, 10, 0, 0, 1, 2, 0, 0, 10,
     192, 168, 1, 0, 255, 255, 255, 0, 3, 1, 0, 1, 8, 0, 0, 5]"

text \<open>
  C23. An LSA that serializes is read back: wherever its bytes stand in an update, the receiver's
  parser consumes exactly those bytes and rebuilds the header the sender holds after serializing
  (length, age and checksum filled in) with the same body, not yet marked as installed.
\<close>

theorem lsa_wire_roundtrip:
  assumes "lsa_serialize now rc l = Inr (bs, l')"
    and "body_matches (lh_ls_type (l_header l)) (l_body l)"
  shows "lsa_deserialize (pre @ bs @ rest) (length pre)
      = Inr (l'\<lparr>l_install_time := None, l_installed_age := 0\<rparr>, length bs)
    \<and> l_body l' = l_body l \<and> lsa_key l' = lsa_key l
    \<and> lh_ls_sequence_number (l_header l') = lh_ls_sequence_number (l_header l)
    \<and> lh_ls_age (l_header l') = min (current_age now l) 3600
    \<and> lh_length (l_header l') = int (length bs)"
proof -
  from assms(1) obtain hb bb where l': "l' = l\<lparr>l_header := l_header l'\<rparr>" "bs = hb @ bb"
    "lsa_header_serialize (l_header l') = Inr hb" "lh_length (l_header l') = 20 + int (length bb)"
    "lsa_header_key (l_header l') = lsa_header_key (l_header l)"
    "lh_ls_sequence_number (l_header l') = lh_ls_sequence_number (l_header l)"
    "lh_ls_age (l_header l') = min (current_age now l) max_age"
    by (rule lsa_serialize_cases)
  moreover have "l_body l' = l_body l" by (subst l'(1)) simp
  ultimately show ?thesis
    using lsa_serialize_deserialize [OF assms] lsa_header_serialize_length [of "l_header l'" hb]
    by (simp add: lsa_key_def max_age_def)
qed

lemma sample_lsa_serialize:
  "lsa_serialize 0 True sample_lsa = Inr (sample_bytes, sample_lsa\<lparr>l_header :=
     (l_header sample_lsa)\<lparr>lh_ls_checksum := 16208, lh_length := 52\<rparr>\<rparr>)"
  by code_simp

theorem lsa_wire_roundtrip_witness:
  "lsa_deserialize ([7, 7] @ sample_bytes @ [1, 2, 3]) 2 = Inr (sample_lsa\<lparr>l_header :=
     (l_header sample_lsa)\<lparr>lh_ls_checksum := 16208, lh_length := 52\<rparr>\<rparr>, 52)"
proof -
  have "body_matches (lh_ls_type (l_header sample_lsa)) (l_body sample_lsa)" by code_simp
  note conjunct1 [OF lsa_wire_roundtrip [OF sample_lsa_serialize this, of "[7, 7]" "[1, 2, 3]"]]
  moreover have "length sample_bytes = 52" by (simp add: sample_bytes_def)
  moreover have "length [7 :: byte, 7] = 2" by simp
  moreover have "(sample_lsa\<lparr>l_header := (l_header sample_lsa)\<lparr>lh_ls_checksum := 16208, lh_length := 52\<rparr>\<rparr>)
      \<lparr>l_install_time := None, l_installed_age := 0\<rparr>
    = sample_lsa\<lparr>l_header := (l_header sample_lsa)\<lparr>lh_ls_checksum := 16208, lh_length := 52\<rparr>\<rparr>"
    by (simp add: sample_lsa_def)
  ultimately show ?thesis by (simp only:)
qed

text \<open>
  C24. Every LSA serialized with its checksum recomputed passes the Fletcher check over the bytes
  that go on the wire.
\<close>

theorem lsa_wire_checksum_valid:
  assumes "lsa_serialize now True l = Inr (bs, l')"
  shows "verify_fletcher_checksum bs"
  using assms by (rule lsa_serialize_checksum)

theorem lsa_wire_checksum_valid_witness: "verify_fletcher_checksum sample_bytes"
  using lsa_wire_checksum_valid [OF sample_lsa_serialize] by simp

end
