(* ===== verification/Ip_Util.thy ===== *)
theory Ip_Util
  imports Prelude
begin

text \<open>
  \<^verbatim>\<open>util/ip.py\<close> (masks, prefix lengths and networks) and \<^verbatim>\<open>util/identifier.py\<close> (router id
  selection). The lemmas describe a mask by its bits, from which the conversions' round trip and the
  membership test follow.
\<close>

section \<open>Masks and networks\<close>

definition mask_to_prefix_len :: "ipv4 \<Rightarrow> int" where
  \<comment> \<open>\<^verbatim>\<open>bin(int(mask)).count('1')\<close>\<close>
  "mask_to_prefix_len m = int (length (filter (bit m) [0..<32]))"

definition prefix_len_to_mask :: "int \<Rightarrow> ipv4 result" where
  \<comment> \<open>a negative shift count is a \<^verbatim>\<open>ValueError\<close>\<close>
  "prefix_len_to_mask prefix_len =
     (if prefix_len = 0 then Inr 0
      else if 32 - prefix_len < 0 then Inl ValueError
      else Inr (word_of_int (push_bit (nat (32 - prefix_len)) 0xFFFFFFFF AND 0xFFFFFFFF)))"

definition network_address :: "ipv4 \<Rightarrow> ipv4 \<Rightarrow> ipv4" where
  "network_address addr m = addr AND m"

definition ip_in_network :: "ipv4 \<Rightarrow> ipv4 \<Rightarrow> ipv4 \<Rightarrow> bool" where
  "ip_in_network addr net_addr m \<longleftrightarrow> addr AND m = net_addr AND m"

text \<open>\<^verbatim>\<open>IPv4Network\<close>: the network address and its prefix length; host bits set are a \<^verbatim>\<open>ValueError\<close>.\<close>

type_synonym network = "ipv4 \<times> int"

definition ipv4_network :: "ipv4 \<Rightarrow> int \<Rightarrow> network result" where
  "ipv4_network addr prefix_len =
     (if prefix_len < 0 \<or> 32 < prefix_len then Inl ValueError
      else bindE (prefix_len_to_mask prefix_len) (\<lambda>m.
        if addr AND m = addr then Inr (addr, prefix_len) else Inl ValueError))"

definition ip_to_network :: "ipv4 \<Rightarrow> ipv4 \<Rightarrow> network result" where
  "ip_to_network addr m =
     (let prefix_len = mask_to_prefix_len m; net_addr = network_address addr m
      in ipv4_network net_addr prefix_len)"

lemma filter_upt_ge: "a \<le> n \<Longrightarrow> filter ((\<le>) a) [0..<n] = [a..<n]"
proof -
  assume "a \<le> n"
  then have "[0..<n] = [0..<a] @ [a..<n]" using upt_add_eq_append [of 0 a "n - a"] by simp
  then show ?thesis by (auto simp: filter_id_conv intro!: filter_False)
qed

lemma bit_FFFFFFFF: "bit (0xFFFFFFFF :: int) i \<longleftrightarrow> i < 32"
proof -
  have "(0xFFFFFFFF :: int) = mask 32" by (simp add: mask_eq_exp_minus_1)
  then show ?thesis by (simp only: bit_mask_iff) simp
qed

lemma prefix_mask_bits:
  assumes "prefix_len_to_mask p = Inr m" and "0 \<le> p"
  shows "bit m i \<longleftrightarrow> 32 - nat p \<le> i \<and> i < 32" and "p \<le> 32"
proof -
  show p: "p \<le> 32" using assms by (auto simp: prefix_len_to_mask_def split: if_splits)
  show "bit m i \<longleftrightarrow> 32 - nat p \<le> i \<and> i < 32"
    using assms p
    by (auto simp: prefix_len_to_mask_def bit_word_of_int_iff bit_and_iff bit_push_bit_iff bit_FFFFFFFF
        nat_diff_distrib split: if_splits)
qed

lemma prefix_mask_total: "0 \<le> p \<Longrightarrow> p \<le> 32 \<Longrightarrow> \<exists>m. prefix_len_to_mask p = Inr m"
  by (auto simp: prefix_len_to_mask_def)

lemma mask_prefix_len:
  assumes "prefix_len_to_mask p = Inr m" and "0 \<le> p"
  shows "mask_to_prefix_len m = p"
proof -
  have "filter (bit m) [0..<32] = filter ((\<le>) (32 - nat p)) [0..<32]"
    by (rule filter_cong) (auto simp: prefix_mask_bits [OF assms])
  also have "\<dots> = [32 - nat p..<32]" by (rule filter_upt_ge) simp
  finally show ?thesis using prefix_mask_bits(2) [OF assms] assms(2)
    by (simp add: mask_to_prefix_len_def)
qed

lemma and_mask_idem: "(a AND m) AND m = a AND (m :: ipv4)"
  by (simp add: and.assoc)

lemma ip_to_network_prefix:
  assumes "prefix_len_to_mask p = Inr m" and "0 \<le> p"
  shows "ip_to_network addr m = Inr (network_address addr m, p)"
  using mask_prefix_len [OF assms] prefix_mask_bits(2) [OF assms] assms
  by (simp add: ip_to_network_def ipv4_network_def network_address_def and_mask_idem)

lemma ip_in_network_bits:
  assumes "prefix_len_to_mask p = Inr m" and "0 \<le> p"
  shows "ip_in_network a b m \<longleftrightarrow> (\<forall>i<32. 32 - nat p \<le> i \<longrightarrow> bit a i = bit b i)"
proof -
  have "ip_in_network a b m \<longleftrightarrow> (\<forall>i<32. (bit a i \<and> bit m i) = (bit b i \<and> bit m i))"
    by (simp add: ip_in_network_def bit_eq_iff [where 'a = ipv4] bit_and_iff)
  then show ?thesis
    using prefix_mask_bits(1) [OF assms] by auto
qed

section \<open>Router id selection\<close>

definition loopback_host :: ipv4 where
  "loopback_host = 0x7F000001"

definition is_lo :: "string \<Rightarrow> bool" where
  \<comment> \<open>\<^verbatim>\<open>name.startswith("lo")\<close>\<close>
  "is_lo name \<longleftrightarrow> take 2 name = ''lo''"

type_synonym sys_addrs = "(string \<times> (ipv4 \<times> int) list) list"

fun collect_addrs :: "sys_addrs \<Rightarrow> ipv4 list \<times> ipv4 list" where
  \<comment> \<open>loopback addresses and the others, without 127.0.0.1\<close>
  "collect_addrs [] = ([], [])"
| "collect_addrs ((name, addrs) # intfs) =
     (let (lo, other) = collect_addrs intfs;
          here = filter (\<lambda>a. a \<noteq> loopback_host) (map fst addrs)
      in if is_lo name then (here @ lo, other) else (lo, here @ other))"

definition select_router_id :: "ipv4 option \<Rightarrow> sys_addrs \<Rightarrow> ipv4 result" where
  "select_router_id configured_id interfaces =
     (case configured_id of
        Some rid \<Rightarrow> if rid \<noteq> 0 then Inr rid else
          (let (lo, other) = collect_addrs interfaces in
           if lo \<noteq> [] then Inr (Max (set lo))
           else if other \<noteq> [] then Inr (Max (set other)) else Inl RuntimeError)
      | None \<Rightarrow>
          (let (lo, other) = collect_addrs interfaces in
           if lo \<noteq> [] then Inr (Max (set lo))
           else if other \<noteq> [] then Inr (Max (set other)) else Inl RuntimeError))"

definition usable :: "bool \<Rightarrow> sys_addrs \<Rightarrow> ipv4 set" where
  \<comment> \<open>the addresses of the loopback (or the other) interfaces that may become the router id\<close>
  "usable lo intfs = {a. a \<noteq> loopback_host \<and> (\<exists>(name, addrs)\<in>set intfs. is_lo name = lo
     \<and> a \<in> fst ` set addrs)}"

lemma collect_addrs_usable:
  "set (fst (collect_addrs intfs)) = usable True intfs
   \<and> set (snd (collect_addrs intfs)) = usable False intfs"
proof (induction intfs rule: collect_addrs.induct)
  case 1
  then show ?case by (simp add: usable_def)
next
  case (2 name addrs intfs)
  have split: "usable b ((name, addrs) # intfs)
      = (if is_lo name = b then {a \<in> fst ` set addrs. a \<noteq> loopback_host} else {}) \<union> usable b intfs" for b
    by (auto simp: usable_def)
  show ?case
    using 2 unfolding split by (auto simp: Let_def split: prod.splits)
qed

text \<open>
  For every prefix length from 0 to 32 the mask computed from it gives the length back, the
  network of an address under that mask is built without error, and an address is in a network
  exactly when it agrees with it on the leading prefix bits.
\<close>

theorem prefix_mask_roundtrip:
  assumes "0 \<le> p" and "p \<le> 32"
  shows "\<exists>m. prefix_len_to_mask p = Inr m \<and> mask_to_prefix_len m = p
    \<and> (\<forall>addr. ip_to_network addr m = Inr (network_address addr m, p))
    \<and> (\<forall>a b. ip_in_network a b m \<longleftrightarrow> (\<forall>i<32. 32 - nat p \<le> i \<longrightarrow> bit a i = bit b i))"
proof -
  obtain m where m: "prefix_len_to_mask p = Inr m" using prefix_mask_total assms by blast
  then show ?thesis
    using mask_prefix_len [OF m assms(1)] ip_to_network_prefix [OF m assms(1)]
      ip_in_network_bits [OF m assms(1)] by blast
qed

theorem prefix_mask_roundtrip_witness:
  "\<exists>m. prefix_len_to_mask 24 = Inr m \<and> mask_to_prefix_len m = 24
    \<and> ip_to_network 167772165 m = Inr (network_address 167772165 m, 24)"
  using prefix_mask_roundtrip [of 24] by auto

text \<open>
  The router id selected is the configured one if it is set and not 0.0.0.0, else the highest
  usable loopback address, else the highest usable address of another interface; the daemon fails
  to start exactly when there is none of the three.
\<close>

theorem select_router_id_spec:
  "select_router_id configured interfaces =
     (case configured of
        Some rid \<Rightarrow> if rid \<noteq> 0 then Inr rid else select_router_id None interfaces
      | None \<Rightarrow>
          if usable True interfaces \<noteq> {} then Inr (Max (usable True interfaces))
          else if usable False interfaces \<noteq> {} then Inr (Max (usable False interfaces))
          else Inl RuntimeError)"
  using collect_addrs_usable [of interfaces]
  by (auto simp: select_router_id_def simp flip: set_empty split: option.split prod.splits)

end
