(* ===== verification/Netlink.thy ===== *)
theory Netlink
  imports Ip_Util
begin

text \<open>
  \<^verbatim>\<open>io/netlink.py\<close>: what the daemon asks of the kernel's routing tables and how it reads the list of
  interfaces. The pyroute2 socket is outside: a call of \<^verbatim>\<open>IPRoute.route\<close> is a value of
  \<open>kernel_request\<close>, and the messages the socket returns are arguments, with the attributes the code
  reads.
\<close>

section \<open>Requests\<close>

record nl_nexthop =
  nl_gateway :: ipv4
  nl_interface_index :: int
  nl_interface_name :: string

datatype kernel_request =
    Route_Replace network "(ipv4 \<times> int) list" "int option"  \<comment> \<open>gateways with their interfaces; the priority, when one is given\<close>
  | Route_Del network
  | Sr_Replace network ipv4 "int option"  \<comment> \<open>the gateway and the label to push, when one is\<close>

definition install_route :: "network \<Rightarrow> nl_nexthop list \<Rightarrow> int \<Rightarrow> kernel_request" where
  "install_route dest hops metric =
     Route_Replace dest (map (\<lambda>n. (nl_gateway n, nl_interface_index n)) hops) (if metric = 0 then None else Some metric)"

definition remove_route :: "network \<Rightarrow> kernel_request" where
  "remove_route dest = Route_Del dest"

definition flush_ospf_routes :: "(ipv4 option \<times> int option) list \<Rightarrow> kernel_request list" where
  \<comment> \<open>the routes of the daemon's protocol number, with their \<^verbatim>\<open>RTA_DST\<close> and \<^verbatim>\<open>dst_len\<close>\<close>
  "flush_ospf_routes routes = List.map_filter (\<lambda>(dst, dst_len). map_option (\<lambda>d.
     Route_Del (d, case dst_len of None \<Rightarrow> 32 | Some n \<Rightarrow> n)) dst) routes"

definition mpls_label_implicit_null :: int where "mpls_label_implicit_null = 3"

section \<open>Interfaces\<close>

record interface_info =
  ii_name :: string
  ii_index :: int
  ii_mtu :: int
  ii_addresses :: "(ipv4 \<times> int) list"
  ii_state :: string
  ii_mac :: string

record link_message =
  lm_index :: int
  lm_ifname :: "string option"
  lm_address :: "string option"
  lm_mtu :: "int option"
  lm_operstate :: "string option"  \<comment> \<open>\<open>None\<close> when it is not a string\<close>

record addr_message =
  am_index :: int
  am_address :: "ipv4 option"
  am_prefixlen :: int

definition char_lower :: "char \<Rightarrow> char" where
  "char_lower c = (let n = of_char c :: int in if 65 \<le> n \<and> n \<le> 90 then char_of (n + 32) else c)"

definition py_lower :: "string \<Rightarrow> string" where
  \<comment> \<open>\<^verbatim>\<open>str.lower\<close> on ASCII\<close>
  "py_lower s = map char_lower s"

definition interface_addresses :: "addr_message list \<Rightarrow> int \<Rightarrow> (ipv4 \<times> int) list" where
  \<comment> \<open>\<^verbatim>\<open>addr_map[idx]\<close>; empty when there is no entry\<close>
  "interface_addresses addrs idx = List.map_filter (\<lambda>a.
     if am_index a = idx then map_option (\<lambda>v. (v, am_prefixlen a)) (am_address a) else None) addrs"

definition read_link :: "addr_message list \<Rightarrow> link_message \<Rightarrow> interface_info option" where
  "read_link addrs l =
     (let state = (case lm_operstate l of Some s \<Rightarrow> py_lower s | None \<Rightarrow> ''down'');
          addresses = interface_addresses addrs (lm_index l)
      in if state \<noteq> ''up'' \<or> addresses = [] then None
         else Some \<lparr>ii_name = (case lm_ifname l of None \<Rightarrow> [] | Some s \<Rightarrow> s), ii_index = lm_index l,
           ii_mtu = (case lm_mtu l of None \<Rightarrow> 1500 | Some m \<Rightarrow> if m = 0 then 1500 else m),
           ii_addresses = addresses, ii_state = state,
           ii_mac = (case lm_address l of None \<Rightarrow> [] | Some s \<Rightarrow> s)\<rparr>)"

definition discover_interfaces :: "link_message list \<Rightarrow> addr_message list \<Rightarrow> interface_info list" where
  "discover_interfaces links addrs = List.map_filter (read_link addrs) links"

end
