(* ===== verification/Config.thy ===== *)
theory Config
  imports Lsa Netlink
begin

text \<open>
  \<^verbatim>\<open>config.py\<close>: the typed configuration made of a loaded YAML document. Reading the file and the YAML
  syntax are outside; a document is a value of \<open>yaml\<close>, with the dynamically typed operations the
  parser applies to it. Values the parser only passes on are kept as they are, as Python keeps them.
  Strings hold code points below 256. Floating-point numbers have infinities and NaN; the finite ones
  are exact rationals. The dates, sets and binary strings that YAML also knows are left out.
\<close>

section \<open>Loaded documents\<close>

datatype pyfloat = Fin rat | Infinite | Neg_Infinite | NaN

datatype yaml =
    Y_Null
  | Y_Bool bool
  | Y_Int int
  | Y_Float pyfloat  \<comment> \<open>\<^verbatim>\<open>.inf\<close> and \<^verbatim>\<open>.nan\<close> among them\<close>
  | Y_Str string
  | Y_List "yaml list"
  | Y_Map "(yaml \<times> yaml) list"

fun truthy :: "yaml \<Rightarrow> bool" where
  "truthy Y_Null = False"
| "truthy (Y_Bool b) = b"
| "truthy (Y_Int n) = (n \<noteq> 0)"
| "truthy (Y_Float r) = (r \<noteq> Fin 0)"
| "truthy (Y_Str s) = (s \<noteq> [])"
| "truthy (Y_List xs) = (xs \<noteq> [])"
| "truthy (Y_Map m) = (m \<noteq> [])"

fun numeric :: "yaml \<Rightarrow> pyfloat option" where
  \<comment> \<open>Python's numbers, \<^verbatim>\<open>bool\<close> among them\<close>
  "numeric (Y_Bool b) = Some (Fin (if b then 1 else 0))"
| "numeric (Y_Int n) = Some (Fin (of_int n))"
| "numeric (Y_Float r) = Some r"
| "numeric _ = None"

definition py_eq :: "yaml \<Rightarrow> yaml \<Rightarrow> bool" where
  \<comment> \<open>\<^verbatim>\<open>==\<close> of hashable values; a NaN, every one an object of its own, is like no other\<close>
  "py_eq x y = (case (numeric x, numeric y) of (Some a, Some b) \<Rightarrow> a = b \<and> a \<noteq> NaN | _ \<Rightarrow> x = y)"

definition yget :: "(yaml \<times> yaml) list \<Rightarrow> string \<Rightarrow> yaml \<Rightarrow> yaml" where
  \<comment> \<open>\<^verbatim>\<open>d.get(key, default)\<close>\<close>
  "yget m key dflt = (case map_of m (Y_Str key) of None \<Rightarrow> dflt | Some v \<Rightarrow> v)"

fun get_attr :: "yaml \<Rightarrow> (yaml \<times> yaml) list result" where
  \<comment> \<open>what has a \<^verbatim>\<open>.get\<close>\<close>
  "get_attr (Y_Map m) = Inr m"
| "get_attr _ = Inl AttributeError"

definition or_empty :: "yaml \<Rightarrow> yaml" where
  "or_empty v = (if truthy v then v else Y_Map [])"

fun lower_attr :: "yaml \<Rightarrow> string result" where
  "lower_attr (Y_Str s) = Inr (py_lower s)"
| "lower_attr _ = Inl AttributeError"

definition utf8 :: "string \<Rightarrow> bytes" where
  "utf8 s = concat (map (\<lambda>c. let n = of_char c :: int in
     if n < 128 then [word_of_int n] else [word_of_int (0xC0 OR drop_bit 6 n), word_of_int (0x80 OR n AND 0x3F)]) s)"

section \<open>Addresses\<close>

fun split_dots :: "string \<Rightarrow> string list" where
  "split_dots [] = [[]]"
| "split_dots (c # s) =
     (if c = CHR ''.'' then [] # split_dots s
      else case split_dots s of [] \<Rightarrow> [[c]] | p # ps \<Rightarrow> (c # p) # ps)"

definition digit_value :: "char \<Rightarrow> int" where
  "digit_value c = of_char c - 48"

definition parse_octet :: "string \<Rightarrow> int result" where
  \<comment> \<open>one to three decimal digits, no leading zero, at most 255\<close>
  "parse_octet s =
     (if s = [] \<or> \<not> list_all (\<lambda>c. 0 \<le> digit_value c \<and> digit_value c \<le> 9) s \<or> length s > 3
         \<or> s \<noteq> ''0'' \<and> hd s = CHR ''0'' then Inl AddressValueError
      else let v = foldl (\<lambda>a c. a * 10 + digit_value c) 0 s in if v > 255 then Inl AddressValueError else Inr v)"

definition ipv4_of_string :: "string \<Rightarrow> ipv4 result" where
  "ipv4_of_string s = (case split_dots s of
     [a, b, c, d] \<Rightarrow> bindE (parse_octet a) (\<lambda>a. bindE (parse_octet b) (\<lambda>b. bindE (parse_octet c) (\<lambda>c.
       bindE (parse_octet d) (\<lambda>d. Inr (word_of_int (((a * 256 + b) * 256 + c) * 256 + d))))))
   | _ \<Rightarrow> Inl AddressValueError)"

definition ipv4_of_int :: "int \<Rightarrow> ipv4 result" where
  "ipv4_of_int n = (if 0 \<le> n \<and> n < 4294967296 then Inr (word_of_int n) else Inl AddressValueError)"

fun ipv4_of_yaml :: "yaml \<Rightarrow> ipv4 result" where
  \<comment> \<open>\<^verbatim>\<open>IPv4Address(v)\<close>; what is neither an integer nor a string is printed and does not parse\<close>
  "ipv4_of_yaml (Y_Str s) = ipv4_of_string s"
| "ipv4_of_yaml (Y_Int n) = ipv4_of_int n"
| "ipv4_of_yaml (Y_Bool b) = ipv4_of_int (if b then 1 else 0)"
| "ipv4_of_yaml _ = Inl AddressValueError"

section \<open>The configuration\<close>

record auth_config =
  ac_type :: int
  ac_key :: bytes
  ac_key_id :: yaml

record interface_config =
  ic_name :: yaml
  ic_type :: int
  ic_cost :: yaml
  ic_priority :: yaml
  ic_hello_interval :: yaml
  ic_dead_interval :: yaml
  ic_retransmit_interval :: yaml
  ic_transmit_delay :: yaml
  ic_passive :: yaml
  ic_auth :: auth_config

record area_config =
  acf_area_id :: ipv4
  acf_stub :: yaml
  acf_default_cost :: yaml
  acf_interfaces :: "interface_config list"

record redistribute_config =
  rc_static :: yaml
  rc_connected :: yaml
  rc_metric :: yaml
  rc_metric_type :: yaml

record sr_config =
  src_enabled :: yaml
  src_srgb_start :: yaml
  src_srgb_size :: yaml
  src_node_sid_index :: yaml

record ospf_config =
  cf_router_id :: "ipv4 option"
  cf_log_level :: yaml
  cf_log_file :: yaml
  cf_pid_file :: yaml
  cf_spf_delay :: pyfloat
  cf_spf_hold :: pyfloat
  cf_lsa_refresh :: int
  cf_areas :: "area_config list"
  cf_redistribute :: redistribute_config
  cf_sr :: sr_config

definition default_auth :: auth_config where
  "default_auth = \<lparr>ac_type = 0, ac_key = [], ac_key_id = Y_Int 0\<rparr>"

definition default_config :: ospf_config where
  "default_config = \<lparr>cf_router_id = None, cf_log_level = Y_Str ''info'', cf_log_file = Y_Null,
     cf_pid_file = Y_Str ''/var/run/ospfd.pid'', cf_spf_delay = Fin 1, cf_spf_hold = Fin 5, cf_lsa_refresh = 1800,
     cf_areas = [], cf_redistribute = \<lparr>rc_static = Y_Bool False, rc_connected = Y_Bool False,
       rc_metric = Y_Int 20, rc_metric_type = Y_Int 2\<rparr>,
     cf_sr = \<lparr>src_enabled = Y_Bool False, src_srgb_start = Y_Int 16000, src_srgb_size = Y_Int 8000,
       src_node_sid_index = Y_Null\<rparr>\<rparr>"

section \<open>Interfaces and areas\<close>

definition intf_type_map :: "(string \<times> int) list" where
  "intf_type_map = [(''broadcast'', 2), (''point-to-point'', 1), (''p2p'', 1), (''nbma'', 3),
     (''point-to-multipoint'', 4), (''p2mp'', 4), (''virtual'', 5)]"

definition auth_type_map :: "(string \<times> int) list" where
  "auth_type_map = [(''none'', 0), (''simple'', 1), (''md5'', 2)]"

definition key_bytes :: "yaml \<Rightarrow> auth_config \<Rightarrow> auth_config" where
  \<comment> \<open>a key that is a string is stored\<close>
  "key_bytes v a = (case v of Y_Str s \<Rightarrow> a\<lparr>ac_key := utf8 s\<rparr> | _ \<Rightarrow> a)"

definition parse_auth :: "yaml \<Rightarrow> auth_config result" where
  "parse_auth auth_raw =
     (case auth_raw of
        Y_Map m \<Rightarrow>
          bindE (lower_attr (yget m ''type'' (Y_Str ''none''))) (\<lambda>auth_type_str.
          case map_of auth_type_map auth_type_str of
            None \<Rightarrow> Inl ValueError
          | Some auth_type \<Rightarrow>
              let a = key_bytes (yget m ''key'' (Y_Str [])) (default_auth\<lparr>ac_type := auth_type\<rparr>)
              in Inr (case yget m ''md5'' (Y_Map []) of
                   Y_Map m' \<Rightarrow> key_bytes (yget m' ''key'' (Y_Str [])) (a\<lparr>ac_key_id := yget m' ''key_id'' (Y_Int 0)\<rparr>)
                 | _ \<Rightarrow> a))
      | _ \<Rightarrow> Inr default_auth)"

fun float_times4 :: "pyfloat \<Rightarrow> pyfloat" where
  "float_times4 (Fin r) = Fin (r * 4)"
| "float_times4 r = r"

fun times4 :: "yaml \<Rightarrow> yaml result" where
  "times4 (Y_Bool b) = Inr (Y_Int (if b then 4 else 0))"
| "times4 (Y_Int n) = Inr (Y_Int (n * 4))"
| "times4 (Y_Float r) = Inr (Y_Float (float_times4 r))"
| "times4 (Y_Str s) = Inr (Y_Str (s @ s @ s @ s))"
| "times4 (Y_List xs) = Inr (Y_List (xs @ xs @ xs @ xs))"
| "times4 _ = Inl TypeError"

definition post_init :: "interface_config \<Rightarrow> interface_config result" where
  "post_init c =
     (if numeric (ic_dead_interval c) = Some (Fin 0)
      then bindE (times4 (ic_hello_interval c)) (\<lambda>d. Inr (c\<lparr>ic_dead_interval := d\<rparr>))
      else Inr c)"

definition parse_interface :: "yaml \<Rightarrow> yaml \<Rightarrow> interface_config result" where
  "parse_interface name data =
     bindE (get_attr data) (\<lambda>m.
     bindE (lower_attr (yget m ''type'' (Y_Str ''broadcast''))) (\<lambda>intf_type_str.
     case map_of intf_type_map intf_type_str of
       None \<Rightarrow> Inl ValueError
     | Some intf_type \<Rightarrow>
         bindE (parse_auth (yget m ''auth'' (Y_Map []))) (\<lambda>auth.
           post_init \<lparr>ic_name = name, ic_type = intf_type, ic_cost = yget m ''cost'' (Y_Int 10),
             ic_priority = yget m ''priority'' (Y_Int 1),
             ic_hello_interval = yget m ''hello_interval'' (Y_Int 10),
             ic_dead_interval = yget m ''dead_interval'' (Y_Int 0),
             ic_retransmit_interval = yget m ''retransmit_interval'' (Y_Int 5),
             ic_transmit_delay = yget m ''transmit_delay'' (Y_Int 1),
             ic_passive = yget m ''passive'' (Y_Bool False), ic_auth = auth\<rparr>)))"

fun parse_items :: "(yaml \<Rightarrow> yaml \<Rightarrow> 'a result) \<Rightarrow> (yaml \<times> yaml) list \<Rightarrow> 'a list result" where
  \<comment> \<open>\<^verbatim>\<open>for k, v in d.items(): xs.append(f(k, v or {}))\<close>\<close>
  "parse_items f [] = Inr []"
| "parse_items f ((k, v) # m) = bindE (f k (or_empty v)) (\<lambda>x. bindE (parse_items f m) (\<lambda>xs. Inr (x # xs)))"

definition parse_area :: "yaml \<Rightarrow> yaml \<Rightarrow> area_config result" where
  "parse_area area_id_str data =
     bindE (ipv4_of_yaml area_id_str) (\<lambda>area_id.
     bindE (get_attr data) (\<lambda>m.
     bindE (case yget m ''interfaces'' (Y_Map []) of
              Y_Map is \<Rightarrow> parse_items parse_interface is | _ \<Rightarrow> Inr []) (\<lambda>interfaces.
       Inr \<lparr>acf_area_id = area_id, acf_stub = yget m ''stub'' (Y_Bool False),
         acf_default_cost = yget m ''default_cost'' (Y_Int 1), acf_interfaces = interfaces\<rparr>)))"

section \<open>Validation\<close>

fun float_at_most_zero :: "pyfloat \<Rightarrow> bool" where
  \<comment> \<open>a comparison with NaN is false\<close>
  "float_at_most_zero (Fin r) = (r \<le> 0)"
| "float_at_most_zero Neg_Infinite = True"
| "float_at_most_zero Infinite = False"
| "float_at_most_zero NaN = False"

definition at_most_zero :: "yaml \<Rightarrow> bool result" where
  \<comment> \<open>\<^verbatim>\<open>v <= 0\<close>\<close>
  "at_most_zero v = (case numeric v of None \<Rightarrow> Inl TypeError | Some r \<Rightarrow> Inr (float_at_most_zero r))"

definition require_positive :: "yaml \<Rightarrow> unit result" where
  "require_positive v = bindE (at_most_zero v) (\<lambda>b. guardE (\<not> b) ValueError)"

fun validate_interfaces :: "yaml list \<Rightarrow> interface_config list \<Rightarrow> yaml list result" where
  \<comment> \<open>returns the names seen so far\<close>
  "validate_interfaces seen [] = Inr seen"
| "validate_interfaces seen (c # cs) =
     bindE (guardE (\<not> list_ex (py_eq (ic_name c)) seen) ValueError) (\<lambda>_.
     bindE (require_positive (ic_hello_interval c)) (\<lambda>_.
     bindE (require_positive (ic_dead_interval c)) (\<lambda>_.
     bindE (require_positive (ic_cost c)) (\<lambda>_.
       validate_interfaces (seen @ [ic_name c]) cs))))"

fun validate_areas :: "yaml list \<Rightarrow> area_config list \<Rightarrow> yaml list result" where
  "validate_areas seen [] = Inr seen"
| "validate_areas seen (a # areas) =
     bindE (guardE (acf_interfaces a \<noteq> []) ValueError) (\<lambda>_.
     bindE (validate_interfaces seen (acf_interfaces a)) (\<lambda>seen. validate_areas seen areas))"

definition validate :: "ospf_config \<Rightarrow> unit result" where
  "validate c =
     bindE (guardE (cf_areas c \<noteq> []) ValueError) (\<lambda>_.
     bindE (validate_areas [] (cf_areas c)) (\<lambda>_. Inr ()))"

section \<open>The whole document\<close>

text \<open>
  The file system and the number parser of the standard library are arguments: \<^verbatim>\<open>Path.resolve\<close> and
  \<^verbatim>\<open>float\<close> and \<^verbatim>\<open>int\<close> of a string.
\<close>

record py_env =
  pe_resolve :: "string \<Rightarrow> string"
  pe_float :: "string \<Rightarrow> pyfloat option"
  pe_int :: "string \<Rightarrow> int option"

definition some_or :: "py_error \<Rightarrow> 'a option \<Rightarrow> 'a result" where
  "some_or e v = (case v of None \<Rightarrow> Inl e | Some x \<Rightarrow> Inr x)"

definition py_float :: "py_env \<Rightarrow> yaml \<Rightarrow> pyfloat result" where
  \<comment> \<open>an integer that would round to an infinity is refused\<close>
  "py_float env v = (case v of
     Y_Str s \<Rightarrow> some_or ValueError (pe_float env s)
   | Y_Int n \<Rightarrow> if \<bar>n\<bar> \<ge> 2 ^ 1024 - 2 ^ 970 then Inl OverflowError else Inr (Fin (of_int n))
   | _ \<Rightarrow> some_or TypeError (numeric v))"

fun cut_float :: "pyfloat \<Rightarrow> int result" where
  \<comment> \<open>towards zero\<close>
  "cut_float (Fin r) = Inr (if r < 0 then - \<lfloor>- r\<rfloor> else \<lfloor>r\<rfloor>)"
| "cut_float NaN = Inl ValueError"
| "cut_float Infinite = Inl OverflowError"
| "cut_float Neg_Infinite = Inl OverflowError"

definition py_to_int :: "py_env \<Rightarrow> yaml \<Rightarrow> int result" where
  "py_to_int env v = (case v of
     Y_Str s \<Rightarrow> some_or ValueError (pe_int env s)
   | _ \<Rightarrow> bindE (some_or TypeError (numeric v)) cut_float)"

definition check_log_file :: "py_env \<Rightarrow> yaml \<Rightarrow> unit result" where
  "check_log_file env v =
     (if truthy v then
        (case v of
           Y_Str s \<Rightarrow> guardE (take 9 (pe_resolve env s) = ''/var/log/'') ValueError
         | _ \<Rightarrow> Inl TypeError)
      else Inr ())"

definition parse_timers :: "py_env \<Rightarrow> yaml \<Rightarrow> ospf_config \<Rightarrow> ospf_config result" where
  "parse_timers env timers c =
     (case timers of
        Y_Map m \<Rightarrow>
          bindE (py_float env (yget m ''spf_delay'' (Y_Float (Fin 1)))) (\<lambda>delay.
          bindE (py_float env (yget m ''spf_hold'' (Y_Float (Fin 5)))) (\<lambda>hold.
          bindE (py_to_int env (yget m ''lsa_refresh'' (Y_Int 1800))) (\<lambda>refresh.
            Inr (c\<lparr>cf_spf_delay := delay, cf_spf_hold := hold, cf_lsa_refresh := refresh\<rparr>))))
      | _ \<Rightarrow> Inr c)"

definition parse_redistribute :: "yaml \<Rightarrow> ospf_config \<Rightarrow> ospf_config" where
  "parse_redistribute raw c =
     (case raw of
        Y_Map m \<Rightarrow> c\<lparr>cf_redistribute := \<lparr>rc_static = yget m ''static'' (Y_Bool False),
          rc_connected = yget m ''connected'' (Y_Bool False), rc_metric = yget m ''metric'' (Y_Int 20),
          rc_metric_type = yget m ''metric_type'' (Y_Int 2)\<rparr>\<rparr>
      | _ \<Rightarrow> c)"

definition parse_sr :: "yaml \<Rightarrow> ospf_config \<Rightarrow> ospf_config" where
  "parse_sr raw c =
     (case raw of
        Y_Map m \<Rightarrow> c\<lparr>cf_sr := \<lparr>src_enabled = yget m ''enabled'' (Y_Bool False),
          src_srgb_start = yget m ''srgb_start'' (Y_Int 16000), src_srgb_size = yget m ''srgb_size'' (Y_Int 8000),
          src_node_sid_index = yget m ''node_sid_index'' Y_Null\<rparr>\<rparr>
      | _ \<Rightarrow> c)"

definition parse_config :: "py_env \<Rightarrow> (yaml \<times> yaml) list \<Rightarrow> ospf_config result" where
  "parse_config env raw =
     (let rid = yget raw ''router_id'' Y_Null in
     bindE (if truthy rid then bindE (ipv4_of_yaml rid) (\<lambda>a. Inr (Some a)) else Inr None) (\<lambda>router_id.
     let log_file = yget raw ''log_file'' Y_Null in
     bindE (check_log_file env log_file) (\<lambda>_.
     bindE (parse_timers env (yget raw ''timers'' (Y_Map []))
       (default_config\<lparr>cf_router_id := router_id, cf_log_level := yget raw ''log_level'' (Y_Str ''info''),
          cf_log_file := log_file, cf_pid_file := yget raw ''pid_file'' (Y_Str ''/var/run/ospfd.pid'')\<rparr>)) (\<lambda>c.
     bindE (case yget raw ''areas'' (Y_Map []) of Y_Map m \<Rightarrow> parse_items parse_area m | _ \<Rightarrow> Inr []) (\<lambda>areas.
     let c = parse_sr (yget raw ''sr'' (Y_Map [])) (parse_redistribute (yget raw ''redistribute'' (Y_Map []))
           (c\<lparr>cf_areas := areas\<rparr>))
     in bindE (validate c) (\<lambda>_. Inr c))))))"

definition load_document :: "py_env \<Rightarrow> yaml option \<Rightarrow> ospf_config result" where
  \<comment> \<open>\<^verbatim>\<open>from_yaml\<close> of a file's document; \<open>None\<close> when the file does not exist\<close>
  "load_document env doc = (case doc of
     None \<Rightarrow> Inl FileNotFoundError
   | Some (Y_Map raw) \<Rightarrow> parse_config env raw
   | Some _ \<Rightarrow> Inl ValueError)"

definition get_interface_area :: "string \<Rightarrow> ospf_config \<Rightarrow> area_config option" where
  "get_interface_area name c =
     find (\<lambda>a. list_ex (\<lambda>i. ic_name i = Y_Str name) (acf_interfaces a)) (cf_areas c)"

definition get_interface_config :: "string \<Rightarrow> ospf_config \<Rightarrow> interface_config option" where
  "get_interface_config name c =
     find (\<lambda>i. ic_name i = Y_Str name) (concat (map acf_interfaces (cf_areas c)))"

section \<open>What a validated configuration promises\<close>

fun above_zero :: "pyfloat \<Rightarrow> bool" where
  "above_zero (Fin r) = (0 < r)"
| "above_zero Infinite = True"
| "above_zero _ = False"

definition positive_or_nan :: "yaml \<Rightarrow> bool" where
  "positive_or_nan v \<longleftrightarrow> (case numeric v of None \<Rightarrow> False | Some r \<Rightarrow> above_zero r \<or> r = NaN)"

definition interface_ok :: "interface_config \<Rightarrow> bool" where
  "interface_ok c \<longleftrightarrow> positive_or_nan (ic_hello_interval c) \<and> positive_or_nan (ic_dead_interval c)
     \<and> positive_or_nan (ic_cost c)"

definition unlike :: "yaml list \<Rightarrow> bool" where
  \<comment> \<open>no two are equal for Python\<close>
  "unlike names \<longleftrightarrow> sorted_wrt (\<lambda>x y. \<not> py_eq y x) names"

lemma float_at_most_zero_iff: "float_at_most_zero r \<longleftrightarrow> \<not> (above_zero r \<or> r = NaN)"
  by (cases r) auto

lemma require_positive_iff: "require_positive v = Inr () \<longleftrightarrow> positive_or_nan v"
  by (auto simp: require_positive_def at_most_zero_def positive_or_nan_def float_at_most_zero_iff split: option.splits)

lemma validate_interfaces_ok:
  assumes "validate_interfaces seen cs = Inr seen'" and "unlike seen"
  shows "seen' = seen @ map ic_name cs" and "unlike seen'" and "list_all interface_ok cs"
proof -
  have "seen' = seen @ map ic_name cs \<and> unlike seen' \<and> list_all interface_ok cs"
    using assms
  proof (induction seen cs rule: validate_interfaces.induct)
    case (2 seen c cs)
    have fresh: "\<not> list_ex (py_eq (ic_name c)) seen" and rest: "validate_interfaces (seen @ [ic_name c]) cs = Inr seen'"
      and ok: "interface_ok c"
      using "2.prems"(1) by (auto simp: interface_ok_def simp flip: require_positive_iff)
    have "unlike (seen @ [ic_name c])"
      using "2.prems"(2) fresh by (auto simp: unlike_def sorted_wrt_append list_ex_iff)
    then show ?case using "2.IH" "2.prems"(1) rest ok by auto
  qed simp
  then show "seen' = seen @ map ic_name cs" "unlike seen'" "list_all interface_ok cs" by blast+
qed

lemma validate_areas_ok:
  assumes "validate_areas seen areas = Inr seen'" and "unlike seen"
  shows "unlike (seen @ map ic_name (concat (map acf_interfaces areas)))
    \<and> list_all (\<lambda>a. acf_interfaces a \<noteq> [] \<and> list_all interface_ok (acf_interfaces a)) areas"
  using assms
proof (induction seen areas rule: validate_areas.induct)
  case (2 seen a areas)
  obtain seen1 where s: "validate_interfaces seen (acf_interfaces a) = Inr seen1" "validate_areas seen1 areas = Inr seen'"
    "acf_interfaces a \<noteq> []" using "2.prems"(1) by auto
  note v = validate_interfaces_ok [OF s(1) "2.prems"(2)]
  have "unlike (seen1 @ map ic_name (concat (map acf_interfaces areas)))
      \<and> list_all (\<lambda>a. acf_interfaces a \<noteq> [] \<and> list_all interface_ok (acf_interfaces a)) areas"
    using "2.IH" s v(2) by auto
  then show ?case using v s(3) by simp
qed simp

section \<open>Properties\<close>

text \<open>
  C38. What the parser guarantees of a configuration it accepts: it has an area, every area has an
  interface, no interface name occurs twice in the whole document, and every interface has a hello
  interval, a dead interval and a cost that are numbers, and each of them is above zero or NaN. The
  check \<^verbatim>\<open>v <= 0\<close> lets exactly these values pass, so the value \<^verbatim>\<open>.nan\<close> is accepted although its message
  says that the value must be above zero.
\<close>
theorem accepted_config_valid:
  assumes "load_document env doc = Inr c"
  shows "cf_areas c \<noteq> [] \<and> list_all (\<lambda>a. acf_interfaces a \<noteq> []) (cf_areas c)
    \<and> unlike (map ic_name (concat (map acf_interfaces (cf_areas c))))
    \<and> list_all interface_ok (concat (map acf_interfaces (cf_areas c)))
    \<and> (\<forall>v. require_positive v = Inr () \<longleftrightarrow> positive_or_nan v)"
proof -
  obtain raw where "parse_config env raw = Inr c"
    using assms by (auto simp: load_document_def split: option.splits yaml.splits)
  then have "validate c = Inr ()" by (auto simp: parse_config_def Let_def)
  then obtain seen where ne: "cf_areas c \<noteq> []" and v: "validate_areas [] (cf_areas c) = Inr seen"
    by (auto simp: validate_def)
  have "unlike []" by (simp add: unlike_def)
  from validate_areas_ok [OF v this] ne show ?thesis by (auto simp: list_all_iff require_positive_iff)
qed

definition sample_doc_of :: "yaml \<Rightarrow> yaml" where
  "sample_doc_of intf = Y_Map [(Y_Str ''router_id'', Y_Str ''1.2.3.4''), (Y_Str ''areas'',
     Y_Map [(Y_Str ''0.0.0.0'', Y_Map [(Y_Str ''interfaces'', Y_Map [(Y_Str ''eth0'', intf)])])])]"

definition sample_doc :: yaml where
  "sample_doc = sample_doc_of (Y_Map [(Y_Str ''cost'', Y_Int 20), (Y_Str ''auth'',
     Y_Map [(Y_Str ''type'', Y_Str ''simple''), (Y_Str ''key'', Y_Str ''secret'')])])"

definition nan_doc :: yaml where
  "nan_doc = sample_doc_of (Y_Map [(Y_Str ''hello_interval'', Y_Float NaN)])"

definition sample_env :: py_env where
  "sample_env = \<lparr>pe_resolve = (\<lambda>s. s), pe_float = (\<lambda>_. None), pe_int = (\<lambda>_. None)\<rparr>"

theorem accepted_config_valid_witness:
  "(\<exists>c. load_document sample_env (Some sample_doc) = Inr c \<and> cf_router_id c = Some 16909060
     \<and> list_all interface_ok (concat (map acf_interfaces (cf_areas c))))
   \<and> (\<exists>c. load_document sample_env (Some nan_doc) = Inr c
     \<and> map (\<lambda>i. (ic_hello_interval i, ic_dead_interval i)) (concat (map acf_interfaces (cf_areas c)))
         = [(Y_Float NaN, Y_Float NaN)]
     \<and> list_all interface_ok (concat (map acf_interfaces (cf_areas c))))"
proof -
  have "(case load_document sample_env (Some sample_doc) of Inl _ \<Rightarrow> False | Inr c \<Rightarrow> cf_router_id c = Some 16909060)"
    by code_simp
  then obtain c where c: "load_document sample_env (Some sample_doc) = Inr c" "cf_router_id c = Some 16909060"
    by (auto split: sum.splits)
  have "(case load_document sample_env (Some nan_doc) of Inl _ \<Rightarrow> False | Inr c \<Rightarrow>
      map (\<lambda>i. (ic_hello_interval i, ic_dead_interval i)) (concat (map acf_interfaces (cf_areas c)))
        = [(Y_Float NaN, Y_Float NaN)])" by code_simp
  then obtain c' where c': "load_document sample_env (Some nan_doc) = Inr c'"
      "map (\<lambda>i. (ic_hello_interval i, ic_dead_interval i)) (concat (map acf_interfaces (cf_areas c')))
        = [(Y_Float NaN, Y_Float NaN)]"
    by (auto split: sum.splits)
  show ?thesis
    using accepted_config_valid [OF c(1)] accepted_config_valid [OF c'(1)] c c' by (intro conjI exI [of _ c] exI [of _ c']) simp_all
qed

text \<open>
  C39. A password given under \<^verbatim>\<open>auth: key\<close> is dropped: unless the section has an \<^verbatim>\<open>md5\<close> entry, the default
  empty mapping stands in for it, whose absent key is the empty string, and this overwrites the key
  read before. An interface with simple password authentication then runs with an empty password.
\<close>
theorem simple_password_dropped:
  assumes "parse_auth (Y_Map m) = Inr a" and "map_of m (Y_Str ''md5'') = None"
  shows "ac_key a = []"
  using assms by (auto simp: parse_auth_def yget_def key_bytes_def utf8_def Let_def split: option.splits)

theorem simple_password_dropped_witness:
  "\<exists>a. parse_auth (Y_Map [(Y_Str ''type'', Y_Str ''simple''), (Y_Str ''key'', Y_Str ''secret'')]) = Inr a
     \<and> ac_type a = 1 \<and> ac_key a = []"
proof -
  let ?m = "[(Y_Str ''type'', Y_Str ''simple''), (Y_Str ''key'', Y_Str ''secret'')]"
  have "(case parse_auth (Y_Map ?m) of Inl _ \<Rightarrow> False | Inr a \<Rightarrow> ac_type a = 1)" by code_simp
  then obtain a where "parse_auth (Y_Map ?m) = Inr a" "ac_type a = 1" by (auto split: sum.splits)
  then show ?thesis using simple_password_dropped [of ?m a] by auto
qed

end
