(* ===== verification/Packets.thy ===== *)
theory Packets
  imports Lsa
begin

text \<open>
  The common OSPF header (\<^verbatim>\<open>packet/header.py\<close>) and the five packet bodies: Hello
  (\<^verbatim>\<open>packet/hello.py\<close>), Database Description (\<^verbatim>\<open>packet/dd.py\<close>), Link State Request
  (\<^verbatim>\<open>packet/lsr.py\<close>), Link State Update (\<^verbatim>\<open>packet/lsu.py\<close>) and Link State Acknowledgment
  (\<^verbatim>\<open>packet/lsack.py\<close>). Each body's round trip is an instance of the item codecs of
  \<open>Struct_Codec\<close>; for the Update, whose items have varying sizes, the parser is also shown to stay
  inside its buffer for any bytes at all.
\<close>

section \<open>The common header\<close>

record ospf_header =
  oh_version :: int
  oh_type :: int
  oh_length :: int
  oh_router_id :: ipv4
  oh_area_id :: ipv4
  oh_checksum :: int
  oh_auth_type :: int
  oh_auth_data :: bytes

definition ospf_hdr_format :: "fmt list" where
  "ospf_hdr_format = [FB, FB, FH, FS 4, FS 4, FH, FH, FS 8]"

definition ospf_header_serialize :: "ospf_header \<Rightarrow> bytes result" where
  "ospf_header_serialize h = struct_pack ospf_hdr_format
     [VInt (oh_version h), VInt (oh_type h), VInt (oh_length h),
      VBytes (packed (oh_router_id h)), VBytes (packed (oh_area_id h)),
      VInt (oh_checksum h), VInt (oh_auth_type h), VBytes (oh_auth_data h)]"

definition ospf_header_deserialize :: "bytes \<Rightarrow> ospf_header result" where
  "ospf_header_deserialize data =
     (if length data < 24 then Inl ValueError
      else bindE (struct_unpack ospf_hdr_format (take 24 data)) (\<lambda>vs. case vs of
        [VInt ver, VInt ty, VInt len, VBytes r, VBytes a, VInt ck, VInt au, VBytes ad] \<Rightarrow>
          bindE (ipv4_of_packed r) (\<lambda>rid. bindE (ipv4_of_packed a) (\<lambda>aid.
            Inr \<lparr>oh_version = ver, oh_type = ty, oh_length = len, oh_router_id = rid,
                 oh_area_id = aid, oh_checksum = ck, oh_auth_type = au, oh_auth_data = ad\<rparr>))
      | _ \<Rightarrow> Inl StructError))"

definition ospf_header_build :: "int \<Rightarrow> ipv4 \<Rightarrow> ipv4 \<Rightarrow> int \<Rightarrow> bytes \<Rightarrow> ospf_header" where
  "ospf_header_build pkt_type router_id area_id auth_type auth_data =
     \<lparr>oh_version = 2, oh_type = pkt_type, oh_length = 0, oh_router_id = router_id,
      oh_area_id = area_id, oh_checksum = 0, oh_auth_type = auth_type, oh_auth_data = auth_data\<rparr>"

lemma calcsize_ospf_hdr [simp]: "calcsize ospf_hdr_format = 24"
  by (simp add: ospf_hdr_format_def)

definition wf_ospf_header :: "ospf_header \<Rightarrow> bool" where
  "wf_ospf_header h \<longleftrightarrow> u8 (oh_version h) \<and> u8 (oh_type h) \<and> u16 (oh_length h)
     \<and> u16 (oh_checksum h) \<and> u16 (oh_auth_type h) \<and> length (oh_auth_data h) = 8"

lemma ospf_header_roundtrip:
  assumes "wf_ospf_header h"
  shows "\<exists>bs. ospf_header_serialize h = Inr bs \<and> length bs = 24
    \<and> (\<forall>rest. ospf_header_deserialize (bs @ rest) = Inr h)"
proof -
  let ?vs = "[VInt (oh_version h), VInt (oh_type h), VInt (oh_length h),
      VBytes (packed (oh_router_id h)), VBytes (packed (oh_area_id h)),
      VInt (oh_checksum h), VInt (oh_auth_type h), VBytes (oh_auth_data h)]"
  have "list_all2 fits ospf_hdr_format ?vs"
    using assms by (simp add: ospf_hdr_format_def wf_ospf_header_def int_range_defs)
  then obtain bs where bs: "struct_pack ospf_hdr_format ?vs = Inr bs" "length bs = 24"
    "struct_unpack ospf_hdr_format bs = Inr ?vs"
    by (rule struct_pack_ok) simp
  have "ospf_header_deserialize (bs @ rest) = Inr h" for rest
    using bs by (simp add: ospf_header_deserialize_def)
  with bs show ?thesis by (auto simp: ospf_header_serialize_def)
qed

section \<open>Hello\<close>

record hello_packet =
  hp_network_mask :: ipv4
  hp_hello_interval :: int
  hp_options :: int
  hp_priority :: int
  hp_dead_interval :: int
  hp_designated_router :: ipv4
  hp_backup_designated_router :: ipv4
  hp_neighbors :: "ipv4 list"

definition hello_format :: "fmt list" where
  "hello_format = [FS 4, FH, FB, FB, FI, FS 4, FS 4]"

definition hello_serialize :: "hello_packet \<Rightarrow> bytes result" where
  "hello_serialize h =
     bindE (struct_pack hello_format
       [VBytes (packed (hp_network_mask h)), VInt (hp_hello_interval h), VInt (hp_options h),
        VInt (hp_priority h), VInt (hp_dead_interval h), VBytes (packed (hp_designated_router h)),
        VBytes (packed (hp_backup_designated_router h))]) (\<lambda>data.
     bindE (ser_all (\<lambda>a. Inr (packed a)) (hp_neighbors h)) (\<lambda>nbrs. Inr (data @ nbrs)))"

definition hello_deserialize :: "bytes \<Rightarrow> nat \<Rightarrow> hello_packet result" where
  "hello_deserialize data off =
     bindE (struct_unpack_from hello_format data off) (\<lambda>vs. case vs of
       [VBytes m, VInt hi, VInt opts, VInt pri, VInt di, VBytes dr, VBytes bdr] \<Rightarrow>
         bindE (parse_fixed 4 (read_addr data) (off + 20) (length data)) (\<lambda>nbrs.
         bindE (ipv4_of_packed m) (\<lambda>mask. bindE (ipv4_of_packed dr) (\<lambda>d.
         bindE (ipv4_of_packed bdr) (\<lambda>b.
           Inr \<lparr>hp_network_mask = mask, hp_hello_interval = hi, hp_options = opts,
                hp_priority = pri, hp_dead_interval = di, hp_designated_router = d,
                hp_backup_designated_router = b, hp_neighbors = nbrs\<rparr>))))
     | _ \<Rightarrow> Inl StructError)"

lemma calcsize_hello [simp]: "calcsize hello_format = 20"
  by (simp add: hello_format_def)

definition wf_hello :: "hello_packet \<Rightarrow> bool" where
  "wf_hello h \<longleftrightarrow> u16 (hp_hello_interval h) \<and> u8 (hp_options h) \<and> u8 (hp_priority h)
     \<and> u32 (hp_dead_interval h)"

lemma hello_codec:
  assumes "wf_hello h"
  shows "\<exists>bs. hello_serialize h = Inr bs \<and> length bs = 20 + 4 * length (hp_neighbors h)
    \<and> (\<forall>pre rest. length rest < 4 \<longrightarrow> hello_deserialize (pre @ bs @ rest) (length pre) = Inr h)"
proof -
  let ?vs = "[VBytes (packed (hp_network_mask h)), VInt (hp_hello_interval h), VInt (hp_options h),
        VInt (hp_priority h), VInt (hp_dead_interval h), VBytes (packed (hp_designated_router h)),
        VBytes (packed (hp_backup_designated_router h))]"
  let ?n = "concat (map packed (hp_neighbors h))"
  have "list_all2 fits hello_format ?vs"
    using assms by (simp add: hello_format_def wf_hello_def int_range_defs)
  then obtain a where a: "struct_pack hello_format ?vs = Inr a" "length a = 20"
    "\<And>pre rest. struct_unpack_from hello_format (pre @ a @ rest) (length pre) = Inr ?vs"
    by (rule struct_pack_ok) simp
  have "parse_fixed 4 (read_addr ((pre @ a) @ ?n @ rest)) (length (pre @ a))
      (length ((pre @ a) @ ?n @ rest)) = Inr (hp_neighbors h)" if "length rest < 4" for pre rest
    using that by (intro addr.parse_all [OF _ ser_all_packed]) (simp_all add: list.pred_True)
  then have "hello_deserialize (pre @ (a @ ?n) @ rest) (length pre) = Inr h"
    if "length rest < 4" for pre rest
    using that a by (simp add: hello_deserialize_def add.assoc)
  then show ?thesis
    using a by (auto simp: hello_serialize_def ser_all_packed)
qed

section \<open>Database Description and Link State Acknowledgment\<close>

record dd_packet =
  dd_interface_mtu :: int
  dd_options :: int
  dd_flags :: int
  dd_seq_number :: int
  dd_lsa_headers :: "lsa_header list"

definition dd_is_init :: "dd_packet \<Rightarrow> bool" where
  "dd_is_init d \<longleftrightarrow> dd_flags d AND 0x04 \<noteq> 0"

definition dd_is_more :: "dd_packet \<Rightarrow> bool" where
  "dd_is_more d \<longleftrightarrow> dd_flags d AND 0x02 \<noteq> 0"

definition dd_is_master :: "dd_packet \<Rightarrow> bool" where
  "dd_is_master d \<longleftrightarrow> dd_flags d AND 0x01 \<noteq> 0"

definition dd_format :: "fmt list" where
  "dd_format = [FH, FB, FB, Fi]"

definition read_lsa_header :: "bytes \<Rightarrow> nat \<Rightarrow> lsa_header result" where
  \<comment> \<open>\<^verbatim>\<open>LsaHeader.deserialize(data[pos:])\<close>\<close>
  "read_lsa_header data pos = lsa_header_deserialize (drop pos data)"

definition dd_serialize :: "dd_packet \<Rightarrow> bytes result" where
  "dd_serialize d =
     bindE (struct_pack dd_format
       [VInt (dd_interface_mtu d), VInt (dd_options d), VInt (dd_flags d), VInt (dd_seq_number d)])
       (\<lambda>data. bindE (ser_all lsa_header_serialize (dd_lsa_headers d)) (\<lambda>hs. Inr (data @ hs)))"

definition dd_deserialize :: "bytes \<Rightarrow> nat \<Rightarrow> dd_packet result" where
  "dd_deserialize data off =
     bindE (struct_unpack_from dd_format data off) (\<lambda>vs. case vs of
       [VInt mtu, VInt opts, VInt flags, VInt sq] \<Rightarrow>
         bindE (parse_fixed 20 (read_lsa_header data) (off + 8) (length data)) (\<lambda>hs.
           Inr \<lparr>dd_interface_mtu = mtu, dd_options = opts, dd_flags = flags,
                dd_seq_number = sq, dd_lsa_headers = hs\<rparr>)
     | _ \<Rightarrow> Inl StructError)"

definition lsack_serialize :: "lsa_header list \<Rightarrow> bytes result" where
  "lsack_serialize headers = ser_all lsa_header_serialize headers"

definition lsack_deserialize :: "bytes \<Rightarrow> nat \<Rightarrow> lsa_header list result" where
  "lsack_deserialize data off = parse_fixed 20 (read_lsa_header data) off (length data)"

interpretation lsa_hdrs: fixed_codec lsa_header_serialize read_lsa_header wf_lsa_header 20
  using lsa_hdr.fixed_codec_axioms unfolding read_lsa_header_def .

lemma calcsize_dd [simp]: "calcsize dd_format = 8"
  by (simp add: dd_format_def)

definition wf_dd :: "dd_packet \<Rightarrow> bool" where
  "wf_dd d \<longleftrightarrow> u16 (dd_interface_mtu d) \<and> u8 (dd_options d) \<and> u8 (dd_flags d)
     \<and> - 2147483648 \<le> dd_seq_number d \<and> dd_seq_number d < 2147483648
     \<and> list_all wf_lsa_header (dd_lsa_headers d)"

lemma dd_codec:
  assumes "wf_dd d"
  shows "\<exists>bs. dd_serialize d = Inr bs \<and> length bs = 8 + 20 * length (dd_lsa_headers d)
    \<and> (\<forall>pre rest. length rest < 20 \<longrightarrow> dd_deserialize (pre @ bs @ rest) (length pre) = Inr d)"
proof -
  let ?vs = "[VInt (dd_interface_mtu d), VInt (dd_options d), VInt (dd_flags d), VInt (dd_seq_number d)]"
  have "list_all2 fits dd_format ?vs"
    using assms by (simp add: dd_format_def wf_dd_def int_range_defs)
  then obtain a where a: "struct_pack dd_format ?vs = Inr a" "length a = 8"
    "\<And>pre rest. struct_unpack_from dd_format (pre @ a @ rest) (length pre) = Inr ?vs"
    by (rule struct_pack_ok) simp
  have hs: "list_all wf_lsa_header (dd_lsa_headers d)" using assms by (simp add: wf_dd_def)
  then obtain t where t: "ser_all lsa_header_serialize (dd_lsa_headers d) = Inr t"
    "length t = length (dd_lsa_headers d) * 20" by (rule lsa_hdrs.ser_all_ok)
  have "parse_fixed 20 (read_lsa_header ((pre @ a) @ t @ rest)) (length (pre @ a))
      (length ((pre @ a) @ t @ rest)) = Inr (dd_lsa_headers d)" if "length rest < 20" for pre rest
    by (rule lsa_hdrs.parse_all [OF hs t(1) that])
  then have "dd_deserialize (pre @ (a @ t) @ rest) (length pre) = Inr d"
    if "length rest < 20" for pre rest
    using that a by (simp add: dd_deserialize_def add.assoc)
  then show ?thesis using a t by (auto simp: dd_serialize_def)
qed

lemma lsack_codec:
  assumes "list_all wf_lsa_header hs"
  shows "\<exists>bs. lsack_serialize hs = Inr bs \<and> length bs = 20 * length hs
    \<and> (\<forall>pre rest. length rest < 20 \<longrightarrow> lsack_deserialize (pre @ bs @ rest) (length pre) = Inr hs)"
  using lsa_hdrs.ser_all_ok [OF assms] lsa_hdrs.parse_all [OF assms]
  by (metis lsack_serialize_def lsack_deserialize_def mult.commute)

section \<open>Link State Request\<close>

record lsr_item =
  li_ls_type :: int
  li_link_state_id :: ipv4
  li_advertising_router :: ipv4

definition lsr_item_key :: "lsr_item \<Rightarrow> lsa_ident" where
  "lsr_item_key i = (li_ls_type i, li_link_state_id i, li_advertising_router i)"

definition lsr_item_format :: "fmt list" where
  "lsr_item_format = [FI, FS 4, FS 4]"

definition lsr_item_serialize :: "lsr_item \<Rightarrow> bytes result" where
  "lsr_item_serialize i = struct_pack lsr_item_format
     [VInt (li_ls_type i), VBytes (packed (li_link_state_id i)),
      VBytes (packed (li_advertising_router i))]"

definition lsr_item_deserialize :: "bytes \<Rightarrow> nat \<Rightarrow> lsr_item result" where
  "lsr_item_deserialize data off =
     bindE (struct_unpack_from lsr_item_format data off) (\<lambda>vs. case vs of
       [VInt ty, VBytes i, VBytes a] \<Rightarrow>
         bindE (ipv4_of_packed i) (\<lambda>ls_id. bindE (ipv4_of_packed a) (\<lambda>adv.
           Inr \<lparr>li_ls_type = ty, li_link_state_id = ls_id, li_advertising_router = adv\<rparr>))
     | _ \<Rightarrow> Inl StructError)"

definition lsr_serialize :: "lsr_item list \<Rightarrow> bytes result" where
  "lsr_serialize items = ser_all lsr_item_serialize items"

definition lsr_deserialize :: "bytes \<Rightarrow> nat \<Rightarrow> lsr_item list result" where
  "lsr_deserialize data off = parse_fixed 12 (lsr_item_deserialize data) off (length data)"

interpretation lsr_items: fixed_codec lsr_item_serialize lsr_item_deserialize
  "\<lambda>i. u32 (li_ls_type i)" 12
proof
  show "(0::nat) < 12" by simp
next
  fix i :: lsr_item assume wf: "u32 (li_ls_type i)"
  let ?vs = "[VInt (li_ls_type i), VBytes (packed (li_link_state_id i)),
      VBytes (packed (li_advertising_router i))]"
  have "list_all2 fits lsr_item_format ?vs"
    using wf by (simp add: lsr_item_format_def int_range_defs)
  then obtain bs where "struct_pack lsr_item_format ?vs = Inr bs" "length bs = 12"
    "\<And>pre rest. struct_unpack_from lsr_item_format (pre @ bs @ rest) (length pre) = Inr ?vs"
    by (rule struct_pack_ok) (simp add: lsr_item_format_def)
  then show "\<exists>bs. lsr_item_serialize i = Inr bs \<and> length bs = 12
      \<and> (\<forall>pre rest. lsr_item_deserialize (pre @ bs @ rest) (length pre) = Inr i)"
    by (auto simp: lsr_item_serialize_def lsr_item_deserialize_def)
qed

lemma lsr_codec:
  assumes "list_all (\<lambda>i. u32 (li_ls_type i)) is"
  shows "\<exists>bs. lsr_serialize is = Inr bs \<and> length bs = 12 * length is
    \<and> (\<forall>pre rest. length rest < 12 \<longrightarrow> lsr_deserialize (pre @ bs @ rest) (length pre) = Inr is)"
  using lsr_items.ser_all_ok [OF assms] lsr_items.parse_all [OF assms]
  by (metis lsr_serialize_def lsr_deserialize_def mult.commute)

section \<open>Link State Update\<close>

text \<open>
  \<^verbatim>\<open>Lsa.serialize\<close> updates the headers it writes, so serializing an update returns the LSAs as they
  stand afterwards.
\<close>

fun ser_lsas :: "time \<Rightarrow> lsa list \<Rightarrow> (bytes \<times> lsa list) result" where
  "ser_lsas now [] = Inr ([], [])"
| "ser_lsas now (l # ls) =
     bindE (lsa_serialize now True l) (\<lambda>(b, l').
     bindE (ser_lsas now ls) (\<lambda>(bs, ls'). Inr (b @ bs, l' # ls')))"

definition lsu_serialize :: "time \<Rightarrow> lsa list \<Rightarrow> (bytes \<times> lsa list) result" where
  "lsu_serialize now lsas =
     bindE (struct_pack [FI] [VInt (int (length lsas))]) (\<lambda>data.
     bindE (ser_lsas now lsas) (\<lambda>(bs, lsas'). Inr (data @ bs, lsas')))"

fun lsu_loop :: "nat \<Rightarrow> bytes \<Rightarrow> nat \<Rightarrow> lsa list result" where
  "lsu_loop 0 data pos = Inr []"
| "lsu_loop (Suc n) data pos =
     (if pos \<ge> length data then Inr []
      else bindE (lsa_deserialize data pos) (\<lambda>(l, consumed).
        if consumed = 0 then Inr []
        else bindE (lsu_loop n data (pos + consumed)) (\<lambda>ls. Inr (l # ls))))"

definition lsu_deserialize :: "bytes \<Rightarrow> nat \<Rightarrow> lsa list result" where
  "lsu_deserialize data off =
     bindE (unpack_u32 data off) (\<lambda>num_lsas.
       if num_lsas > 1000 then Inl ValueError
       else lsu_loop (nat num_lsas) data (off + 4))"

definition unmarked :: "lsa \<Rightarrow> lsa" where
  \<comment> \<open>an LSA as the parser builds it, not yet installed\<close>
  "unmarked l = l\<lparr>l_install_time := None, l_installed_age := 0\<rparr>"

lemma lsu_loop_ser_lsas:
  assumes "ser_lsas now ls = Inr (bs, ls')"
    and "list_all (\<lambda>l. body_matches (lh_ls_type (l_header l)) (l_body l)) ls"
  shows "lsu_loop (length ls) (pre @ bs @ rest) (length pre) = Inr (map unmarked ls')"
  using assms
proof (induction ls arbitrary: pre bs ls')
  case Nil
  then show ?case by simp
next
  case (Cons l ls)
  from Cons.prems obtain b l' bs' ls'' where
    b: "lsa_serialize now True l = Inr (b, l')" "ser_lsas now ls = Inr (bs', ls'')"
    "bs = b @ bs'" "ls' = l' # ls''" by (auto split: prod.splits)
  have "body_matches (lh_ls_type (l_header l)) (l_body l)" using Cons.prems by simp
  from lsa_serialize_deserialize [OF b(1) this, of pre "bs' @ rest"]
  have dec: "lsa_deserialize (pre @ b @ bs' @ rest) (length pre) = Inr (unmarked l', length b)"
    by (simp add: unmarked_def)
  have "lsu_loop (length ls) ((pre @ b) @ bs' @ rest) (length (pre @ b)) = Inr (map unmarked ls'')"
    using Cons.prems b by (intro Cons.IH) auto
  moreover have "b \<noteq> []"
    using b(1) by (auto elim!: lsa_serialize_cases dest!: lsa_header_serialize_length)
  ultimately show ?case using dec b by simp
qed

text \<open>What the LSA parser returns lies inside the buffer it was given.\<close>

lemma lsa_deserialize_bounds:
  assumes "lsa_deserialize data off = Inr (l, n)"
  shows "20 \<le> n \<and> off + n \<le> length data \<and> int n = lh_length (l_header l)"
  using assms by (auto simp: lsa_deserialize_eq)

lemma lsu_loop_bounds:
  assumes "lsu_loop n data pos = Inr ls" and "pos \<le> length data"
  shows "length ls \<le> n
    \<and> pos + nat (sum_list (map (\<lambda>l. lh_length (l_header l)) ls)) \<le> length data
    \<and> (\<forall>l\<in>set ls. 20 \<le> lh_length (l_header l))"
  using assms
proof (induction n data pos arbitrary: ls rule: lsu_loop.induct)
  case (1 data pos)
  then show ?case by simp
next
  case (2 n data pos)
  show ?case
  proof (cases "pos \<ge> length data")
    case True
    with "2.prems" show ?thesis by auto
  next
    case False
    with "2.prems" obtain l c where d: "lsa_deserialize data pos = Inr (l, c)"
      by (auto simp del: lsa_deserialize_def)
    note b = lsa_deserialize_bounds [OF d]
    with False "2.prems" d obtain ls' where ls': "lsu_loop n data (pos + c) = Inr ls'" "ls = l # ls'"
      by auto
    have "length ls' \<le> n \<and> pos + c + nat (sum_list (map (\<lambda>l. lh_length (l_header l)) ls')) \<le> length data
        \<and> (\<forall>l\<in>set ls'. 20 \<le> lh_length (l_header l))"
      using "2.IH" [OF False d] ls' b by auto
    moreover have "0 \<le> sum_list (map (\<lambda>l. lh_length (l_header l)) ls')"
      using calculation by (force intro!: sum_list_nonneg)
    ultimately show ?thesis using ls' b by (auto simp: nat_add_distrib)
  qed
qed

text \<open>
  A Hello whose fields fit their wire widths is read back exactly, with its whole neighbour
  list, from any position of a buffer that ends with it (up to three padding bytes).
\<close>

theorem hello_roundtrip:
  assumes "wf_hello h"
  shows "\<exists>bs. hello_serialize h = Inr bs \<and> length bs = 20 + 4 * length (hp_neighbors h)
    \<and> (\<forall>pre rest. length rest < 4 \<longrightarrow> hello_deserialize (pre @ bs @ rest) (length pre) = Inr h)"
  using assms by (rule hello_codec)

definition sample_hello :: hello_packet where
  "sample_hello = \<lparr>hp_network_mask = 4294967040, hp_hello_interval = 10, hp_options = 2,
     hp_priority = 1, hp_dead_interval = 40, hp_designated_router = 167772161,
     hp_backup_designated_router = 0, hp_neighbors = [16843009, 33686018]\<rparr>"

theorem hello_roundtrip_witness:
  "\<exists>bs. hello_serialize sample_hello = Inr bs \<and> length bs = 28
    \<and> hello_deserialize bs 0 = Inr sample_hello"
proof -
  have "wf_hello sample_hello" by (simp add: wf_hello_def sample_hello_def int_range_defs)
  from hello_roundtrip [OF this] obtain bs where
    bs: "hello_serialize sample_hello = Inr bs" "length bs = 20 + 4 * length (hp_neighbors sample_hello)"
      "\<And>pre rest. length rest < 4 \<longrightarrow> hello_deserialize (pre @ bs @ rest) (length pre) = Inr sample_hello"
    by blast
  then show ?thesis using bs(3) [of "[]" "[]"] by (auto simp: sample_hello_def)
qed

text \<open>
  Database Description, Link State Request and Acknowledgment bodies are read back exactly when
  their fields fit the wire; a DD sequence number fits only below \<open>2 ^ 31\<close>, since it is
  packed as a signed integer.
\<close>

theorem control_bodies_roundtrip:
  assumes "wf_dd d" and "list_all (\<lambda>i. u32 (li_ls_type i)) items" and "list_all wf_lsa_header acks"
  shows "(\<exists>bs. dd_serialize d = Inr bs \<and> dd_deserialize bs 0 = Inr d)
    \<and> (\<exists>bs. lsr_serialize items = Inr bs \<and> lsr_deserialize bs 0 = Inr items)
    \<and> (\<exists>bs. lsack_serialize acks = Inr bs \<and> lsack_deserialize bs 0 = Inr acks)"
proof (intro conjI)
  note at_start = spec [of _ "[]", THEN spec [of _ "[]"], THEN mp]
  show "\<exists>bs. dd_serialize d = Inr bs \<and> dd_deserialize bs 0 = Inr d"
    using dd_codec [OF assms(1)] by (fastforce dest: at_start)
  show "\<exists>bs. lsr_serialize items = Inr bs \<and> lsr_deserialize bs 0 = Inr items"
    using lsr_codec [OF assms(2)] by (fastforce dest: at_start)
  show "\<exists>bs. lsack_serialize acks = Inr bs \<and> lsack_deserialize bs 0 = Inr acks"
    using lsack_codec [OF assms(3)] by (fastforce dest: at_start)
qed

definition sample_dd :: dd_packet where
  "sample_dd = \<lparr>dd_interface_mtu = 1500, dd_options = 2, dd_flags = 7, dd_seq_number = 2147483647,
     dd_lsa_headers = [l_header sample_lsa]\<rparr>"

theorem control_bodies_roundtrip_witness:
  "(\<exists>bs. dd_serialize sample_dd = Inr bs \<and> dd_deserialize bs 0 = Inr sample_dd)
    \<and> (\<exists>bs. lsr_serialize [\<lparr>li_ls_type = 1, li_link_state_id = 5, li_advertising_router = 5\<rparr>] = Inr bs
      \<and> lsr_deserialize bs 0 = Inr [\<lparr>li_ls_type = 1, li_link_state_id = 5, li_advertising_router = 5\<rparr>])
    \<and> (\<exists>bs. lsack_serialize [l_header sample_lsa] = Inr bs
      \<and> lsack_deserialize bs 0 = Inr [l_header sample_lsa])"
  by (rule control_bodies_roundtrip)
    (simp_all add: wf_dd_def sample_dd_def wf_lsa_header_def sample_lsa_def int_range_defs)

text \<open>
  C36. An update of at most 1000 LSAs is read back LSA by LSA: the receiver gets the sender's LSAs
  in order, each as the sender holds it after serializing it, without installation marks.
\<close>

theorem lsu_roundtrip:
  assumes "lsu_serialize now lsas = Inr (bs, lsas')" and "length lsas \<le> 1000"
    and "list_all (\<lambda>l. body_matches (lh_ls_type (l_header l)) (l_body l)) lsas"
  shows "lsu_deserialize (pre @ bs @ rest) (length pre) = Inr (map unmarked lsas')"
proof -
  have "u32 (int (length lsas))" using assms(2) by (simp add: int_range_defs)
  then obtain d where d: "struct_pack [FI] [VInt (int (length lsas))] = Inr d" "length d = 4"
    "\<And>pre rest. unpack_u32 (pre @ d @ rest) (length pre) = Inr (int (length lsas))"
    by (rule unpack_u32_pack) blast
  from assms(1) d(1) obtain b where b: "ser_lsas now lsas = Inr (b, lsas')" "bs = d @ b"
    by (auto simp: lsu_serialize_def simp del: struct_pack.simps)
  have "lsu_loop (length lsas) ((pre @ d) @ b @ rest) (length (pre @ d)) = Inr (map unmarked lsas')"
    by (rule lsu_loop_ser_lsas [OF b(1) assms(3)])
  then show ?thesis using d(2) d(3) [of pre "b @ rest"] b(2) assms(2)
    by (simp add: lsu_deserialize_def)
qed

lemma sample_lsu_serialize:
  "lsu_serialize 0 [sample_lsa] = Inr ([0, 0, 0, 1] @ sample_bytes,
     [sample_lsa\<lparr>l_header := (l_header sample_lsa)\<lparr>lh_ls_checksum := 16208, lh_length := 52\<rparr>\<rparr>])"
proof -
  have "struct_pack [FI] [VInt 1] = Inr [0, 0, 0, 1]" by code_simp
  then show ?thesis by (simp add: lsu_serialize_def sample_lsa_serialize)
qed

theorem lsu_roundtrip_witness:
  "lsu_deserialize ([9] @ ([0, 0, 0, 1] @ sample_bytes) @ [8]) (length [9 :: byte])
   = Inr (map unmarked
     [sample_lsa\<lparr>l_header := (l_header sample_lsa)\<lparr>lh_ls_checksum := 16208, lh_length := 52\<rparr>\<rparr>])"
proof (rule lsu_roundtrip [OF sample_lsu_serialize])
  show "length [sample_lsa] \<le> 1000" by simp
  have "body_matches (lh_ls_type (l_header sample_lsa)) (l_body sample_lsa)" by code_simp
  then show "list_all (\<lambda>l. body_matches (lh_ls_type (l_header l)) (l_body l)) [sample_lsa]" by simp
qed

text \<open>
  C37. Whatever bytes arrive, an update that parses gives at most 1000 LSAs, each of them at least a
  header long, and all of them together lie inside the data received; a larger count is refused.
\<close>

theorem lsu_parse_bounds:
  "(\<forall>lsas. lsu_deserialize data off = Inr lsas \<longrightarrow> length lsas \<le> 1000
      \<and> off + 4 + nat (sum_list (map (\<lambda>l. lh_length (l_header l)) lsas)) \<le> length data
      \<and> (\<forall>l\<in>set lsas. 20 \<le> lh_length (l_header l)))
   \<and> (\<forall>n. unpack_u32 data off = Inr n \<longrightarrow> 1000 < n \<longrightarrow> lsu_deserialize data off = Inl ValueError)"
proof (intro conjI allI impI)
  fix lsas assume p: "lsu_deserialize data off = Inr lsas"
  then obtain n where n: "unpack_u32 data off = Inr n" "n \<le> 1000"
    "lsu_loop (nat n) data (off + 4) = Inr lsas"
    by (auto simp: lsu_deserialize_def split: if_splits)
  have "off + 4 \<le> length data"
    using n(1) by (auto simp: unpack_u32_def struct_unpack_from_def split: if_splits)
  from lsu_loop_bounds [OF n(3) this] n(2)
  show "length lsas \<le> 1000"
    "off + 4 + nat (sum_list (map (\<lambda>l. lh_length (l_header l)) lsas)) \<le> length data"
    "\<forall>l\<in>set lsas. 20 \<le> lh_length (l_header l)" by auto
qed (simp add: lsu_deserialize_def)

lemma sample_lsu_parse:
  "lsu_deserialize ([0, 0, 0, 1] @ sample_bytes) 0 = Inr
     [sample_lsa\<lparr>l_header := (l_header sample_lsa)\<lparr>lh_ls_checksum := 16208, lh_length := 52\<rparr>\<rparr>]"
  by code_simp

theorem lsu_parse_bounds_witness:
  "lsu_deserialize [0, 0, 3, 233] 0 = Inl ValueError
   \<and> (\<exists>l. lsu_deserialize ([0, 0, 0, 1] @ sample_bytes) 0 = Inr [l] \<and> 20 \<le> lh_length (l_header l))"
proof -
  have "unpack_u32 [0, 0, 3, 233] 0 = Inr 1001" by code_simp
  then have "lsu_deserialize [0, 0, 3, 233] 0 = Inl ValueError"
    using lsu_parse_bounds [of "[0, 0, 3, 233]" 0] by simp
  moreover note sample_lsu_parse
  moreover from this have "20 \<le> lh_length (l_header
      (sample_lsa\<lparr>l_header := (l_header sample_lsa)\<lparr>lh_ls_checksum := 16208, lh_length := 52\<rparr>\<rparr>))"
    using lsu_parse_bounds [of "[0, 0, 0, 1] @ sample_bytes" 0]
    by (metis list.set_intros(1))
  ultimately show ?thesis by blast
qed

end
