(* ===== verification/Wire.thy ===== *)
theory Wire
  imports Packets
begin

text \<open>
  How a packet gets onto the wire and what the receiver checks before it looks at the body:
  authentication (\<^verbatim>\<open>packet/auth.py\<close>), the framing of \<^verbatim>\<open>OspfInterface.send_packet\<close>
  (\<^verbatim>\<open>protocol/interface.py\<close>) and the validation half of \<^verbatim>\<open>OspfInstance._receive_packet\<close>
  (\<^verbatim>\<open>protocol/instance.py\<close>). The MD5 digest is the function argument \<open>md5\<close>.
\<close>

section \<open>Authentication\<close>

definition struct_pack_into :: "fmt list \<Rightarrow> pyval list \<Rightarrow> bytes \<Rightarrow> nat \<Rightarrow> bytes result" where
  "struct_pack_into fs vs buf off =
     bindE (struct_pack fs vs) (\<lambda>b.
       if off + length b \<le> length buf
       then Inr (take off buf @ b @ drop (off + length b) buf) else Inl StructError)"

definition set_byte :: "bytes \<Rightarrow> nat \<Rightarrow> byte \<Rightarrow> bytes result" where
  \<comment> \<open>\<^verbatim>\<open>packet[i] = v\<close> on a bytearray\<close>
  "set_byte buf i v = (if i < length buf then Inr (buf[i := v]) else Inl IndexError)"

definition pad_key :: "nat \<Rightarrow> bytes \<Rightarrow> bytes" where
  \<comment> \<open>\<^verbatim>\<open>key[:n].ljust(n, b"\x00")\<close>\<close>
  "pad_key n key = take n key @ replicate (n - length key) 0"

lemma length_pad_key [simp]: "length (pad_key n key) = n"
  by (simp add: pad_key_def)

definition apply_auth :: "(bytes \<Rightarrow> bytes) \<Rightarrow> bytes \<Rightarrow> int \<Rightarrow> bytes \<Rightarrow> int \<Rightarrow> int \<Rightarrow> bytes result" where
  "apply_auth md5 packet auth_type auth_key key_id crypt_seq =
     bindE (struct_pack_into [FH] [VInt auth_type] packet 14) (\<lambda>p.
       if auth_type = 0 then Inr p
       else if auth_type = 1 then Inr (take 16 p @ pad_key 8 auth_key @ drop 24 p)
       else if auth_type = 2 then
         bindE (set_byte p 16 0) (\<lambda>p.
         bindE (set_byte p 17 (word_of_int (key_id AND 0xFF))) (\<lambda>p.
         bindE (set_byte p 18 16) (\<lambda>p.
         bindE (set_byte p 19 0) (\<lambda>p.
         bindE (struct_pack_into [FI] [VInt crypt_seq] p 20) (\<lambda>p.
           Inr (p @ md5 (p @ pad_key 16 auth_key)))))))
       else Inl ValueError)"

definition be16 :: "bytes \<Rightarrow> nat \<Rightarrow> int" where
  \<comment> \<open>\<^verbatim>\<open>struct.unpack_from("!H", packet, i)[0]\<close> on a packet that is long enough\<close>
  "be16 p i = be_decode (pslice p i (i + 2))"

definition verify_auth :: "(bytes \<Rightarrow> bytes) \<Rightarrow> bytes \<Rightarrow> int \<Rightarrow> bytes \<Rightarrow> int \<Rightarrow> bool" where
  "verify_auth md5 packet auth_type auth_key key_id =
     (if length packet < 24 then False
      else if be16 packet 14 \<noteq> auth_type then False
      else if auth_type = 0 then True
      else if auth_type = 1 then pslice packet 16 24 = pad_key 8 auth_key
      else if auth_type = 2 then
        if length packet < 24 + 16 then False
        else if uint (packet ! 17) \<noteq> key_id then False
        else if uint (packet ! 18) \<noteq> 16 then False
        else
          let ospf_len = nat (be16 packet 2) in
          if length packet < ospf_len + 16 then False
          else pslice packet ospf_len (ospf_len + 16)
            = md5 (take ospf_len packet @ pad_key 16 auth_key)
      else False)"

section \<open>The interface attributes the packet paths read\<close>

record intf_attrs =
  if_name :: string
  if_type :: int
  if_cost :: int
  if_priority :: int
  if_hello_interval :: int
  if_dead_interval :: int
  if_retransmit_interval :: int
  if_transmit_delay :: int
  if_passive :: bool
  if_auth_type :: int
  if_auth_key :: bytes
  if_auth_key_id :: int
  if_area_id :: ipv4
  if_ip_addr :: ipv4
  if_ip_mask :: ipv4
  if_mtu :: int
  if_index :: int

section \<open>Sending\<close>

definition checksummed_packet :: "ipv4 \<Rightarrow> 'a intf_attrs_scheme \<Rightarrow> int \<Rightarrow> bytes \<Rightarrow> bytes result" where
  \<comment> \<open>header and body with the checksum filled in, before authentication\<close>
  "checksummed_packet router_id intf pkt_type body =
     (let header = (ospf_header_build pkt_type router_id (if_area_id intf) 0 (replicate 8 0))
            \<lparr>oh_length := 24 + int (length body)\<rparr>
      in bindE (ospf_header_serialize header) (\<lambda>hb.
        let raw = (hb @ body)[12 := 0, 13 := 0];
            chksum =
              (if if_auth_type intf = 0 then ip_checksum raw
               else ip_checksum (take 16 raw @ replicate 8 0 @ drop 24 raw))
        in Inr (raw[12 := hi_byte chksum, 13 := lo_byte chksum])))"

definition frame_packet ::
    "(bytes \<Rightarrow> bytes) \<Rightarrow> ipv4 \<Rightarrow> 'a intf_attrs_scheme \<Rightarrow> int \<Rightarrow> int \<Rightarrow> bytes \<Rightarrow> bytes result" where
  "frame_packet md5 router_id intf crypt_seq pkt_type body =
     bindE (checksummed_packet router_id intf pkt_type body) (\<lambda>raw.
       apply_auth md5 raw (if_auth_type intf) (if_auth_key intf) (if_auth_key_id intf) crypt_seq)"

section \<open>Receiving\<close>

definition accept_packet ::
    "(bytes \<Rightarrow> bytes) \<Rightarrow> ipv4 \<Rightarrow> 'a intf_attrs_scheme \<Rightarrow> bytes \<Rightarrow> ipv4 \<Rightarrow> (ospf_header \<times> bytes) option" where
  "accept_packet md5 router_id intf data src_addr =
     (if length data < 24 then None
      else case ospf_header_deserialize data of
        Inl _ \<Rightarrow> None
      | Inr header \<Rightarrow>
          if oh_version header \<noteq> 2 then None
          else if oh_router_id header = router_id then None
          else if oh_length header > int (length data) then None
          else if oh_length header < 24 then None
          else
            let packet = take (nat (oh_length header)) data in
            if if_auth_type intf = 0 \<and> \<not> verify_ip_checksum packet then None
            else if \<not> verify_auth md5 packet (if_auth_type intf) (if_auth_key intf) (if_auth_key_id intf)
              then None
            else if oh_area_id header \<noteq> if_area_id intf then None
            else if if_type intf = 2
              \<and> src_addr AND if_ip_mask intf \<noteq> if_ip_addr intf AND if_ip_mask intf then None
            else Some (header, pslice data 24 (nat (oh_length header))))"

section \<open>What is framed is accepted\<close>

lemma ospf_header_serialize_eq:
  assumes "wf_ospf_header h"
  shows "ospf_header_serialize h = Inr
    ((be_encode 1 (oh_version h) @ be_encode 1 (oh_type h) @ be_encode 2 (oh_length h)
      @ packed (oh_router_id h) @ packed (oh_area_id h))
     @ be_encode 2 (oh_checksum h) @ be_encode 2 (oh_auth_type h) @ oh_auth_data h)"
  using assms
  by (simp add: ospf_header_serialize_def ospf_hdr_format_def pack_int_def wf_ospf_header_def
      int_range_defs)

lemma ospf_header_parts:
  assumes "wf_ospf_header h"
  obtains P where "length P = 12"
    and "\<And>c t d. u16 c \<Longrightarrow> u16 t \<Longrightarrow> length d = 8 \<Longrightarrow>
      ospf_header_serialize (h\<lparr>oh_checksum := c, oh_auth_type := t, oh_auth_data := d\<rparr>)
      = Inr (P @ be_encode 2 c @ be_encode 2 t @ d)"
proof
  let ?P = "be_encode 1 (oh_version h) @ be_encode 1 (oh_type h) @ be_encode 2 (oh_length h)
      @ packed (oh_router_id h) @ packed (oh_area_id h)"
  show "length ?P = 12" by simp
  fix c t :: int and d :: bytes
  assume "u16 c" "u16 t" "length d = 8"
  then have "wf_ospf_header (h\<lparr>oh_checksum := c, oh_auth_type := t, oh_auth_data := d\<rparr>)"
    using assms by (simp add: wf_ospf_header_def)
  from ospf_header_serialize_eq [OF this]
  show "ospf_header_serialize (h\<lparr>oh_checksum := c, oh_auth_type := t, oh_auth_data := d\<rparr>)
      = Inr (?P @ be_encode 2 c @ be_encode 2 t @ d)" by simp
qed

lemma struct_pack_into_FH:
  assumes "u16 t" and "length pre = 14" and "length x = 2"
  shows "struct_pack_into [FH] [VInt t] (pre @ x @ post) 14 = Inr (pre @ be_encode 2 t @ post)"
  using assms by (simp add: struct_pack_into_def pack_int_def int_range_defs)

definition auth_field :: "int \<Rightarrow> bytes \<Rightarrow> bytes" where
  "auth_field t key = (if t = 1 then pad_key 8 key else replicate 8 0)"

lemma length_auth_field [simp]: "length (auth_field t key) = 8"
  by (simp add: auth_field_def)

lemma frame_packet_form:
  fixes intf :: "'a intf_attrs_scheme"
  assumes "u8 pkt_type" and "24 + length body < 65536"
    and "if_auth_type intf = 0 \<or> if_auth_type intf = 1"
  obtains h hb where "frame_packet md5 rid intf sq pkt_type body = Inr (hb @ body)"
    and "ospf_header_serialize h = Inr hb" and "wf_ospf_header h" and "length hb = 24"
    and "oh_version h = 2" and "oh_type h = pkt_type" and "oh_router_id h = rid"
    and "oh_area_id h = if_area_id intf" and "oh_length h = 24 + int (length body)"
    and "oh_auth_type h = if_auth_type intf"
    and "oh_auth_data h = auth_field (if_auth_type intf) (if_auth_key intf)"
    and "if_auth_type intf = 0 \<longrightarrow> verify_ip_checksum (hb @ body)"
proof -
  let ?h0 = "(ospf_header_build pkt_type rid (if_area_id intf) 0 (replicate 8 0))
      \<lparr>oh_length := 24 + int (length body)\<rparr>"
  let ?t = "if_auth_type intf" and ?d = "auth_field (if_auth_type intf) (if_auth_key intf)"
  let ?z = "replicate 8 (0 :: byte)"
  have wf0: "wf_ospf_header ?h0"
    using assms by (simp add: wf_ospf_header_def ospf_header_build_def int_range_defs)
  from wf0 obtain P where P: "length P = 12"
    and ser: "\<And>c t d. u16 c \<Longrightarrow> u16 t \<Longrightarrow> length d = 8 \<Longrightarrow>
      ospf_header_serialize (?h0\<lparr>oh_checksum := c, oh_auth_type := t, oh_auth_data := d\<rparr>)
      = Inr (P @ be_encode 2 c @ be_encode 2 t @ d)" by (rule ospf_header_parts) blast
  have z2: "be_encode 2 0 = [0, 0]" by (simp add: be_encode_2 hi_byte_def lo_byte_def)
  have "?h0\<lparr>oh_checksum := 0, oh_auth_type := 0, oh_auth_data := ?z\<rparr> = ?h0"
    by (simp add: ospf_header_build_def)
  then have h0: "ospf_header_serialize ?h0 = Inr (P @ [0, 0] @ [0, 0] @ ?z)"
    using ser [of 0 0 ?z] z2 by (simp add: int_range_defs)
  define c where "c = ip_checksum (P @ [0, 0] @ [0, 0] @ ?z @ body)"
  have c: "u16 c"
    using ip_checksum_range [of "P @ [0, 0] @ [0, 0] @ ?z @ body"]
    unfolding c_def int_range_defs by simp
  have zeroed: "((P @ [0, 0] @ [0, 0] @ ?z) @ body)[12 := 0, 13 := 0]
      = P @ [0, 0] @ [0, 0] @ ?z @ body"
    using P by (simp add: list_update_append)
  have stamped: "(P @ [0, 0] @ [0, 0] @ ?z @ body)[12 := hi_byte c, 13 := lo_byte c]
      = P @ [hi_byte c, lo_byte c] @ [0, 0] @ ?z @ body"
    using P by (simp add: list_update_append)
  have gap: "take 16 (P @ [0, 0] @ [0, 0] @ ?z @ body) @ ?z @ drop 24 (P @ [0, 0] @ [0, 0] @ ?z @ body)
      = P @ [0, 0] @ [0, 0] @ ?z @ body" using P by simp
  have t: "u16 ?t" using assms(3) by (auto simp: int_range_defs)
  have c2: "be_encode 2 c = [hi_byte c, lo_byte c]"
    using c by (simp add: be_encode_2 int_range_defs)
  let ?pkt = "(P @ be_encode 2 c @ be_encode 2 ?t @ ?d) @ body"
  have "apply_auth md5 (P @ [hi_byte c, lo_byte c] @ [0, 0] @ ?z @ body) ?t (if_auth_key intf)
      (if_auth_key_id intf) sq = Inr ?pkt"
    using assms(3) struct_pack_into_FH [OF t, of "P @ [hi_byte c, lo_byte c]" "[0, 0]" "?z @ body"] P c2
    by (auto simp: apply_auth_def auth_field_def)
  then have frame: "frame_packet md5 rid intf sq pkt_type body = Inr ?pkt"
    unfolding frame_packet_def checksummed_packet_def Let_def h0 bindE_simps zeroed gap
    by (simp only: if_cancel c_def [symmetric] stamped)
  have "verify_ip_checksum ?pkt" if "?t = 0"
  proof -
    have "verify_ip_checksum (P @ [hi_byte c, lo_byte c] @ [0, 0] @ ?z @ body)"
      using P by (intro ip_checksum_stamp) (simp_all add: c_def)
    then show ?thesis using that c2 z2 by (simp add: auth_field_def)
  qed
  moreover let ?h = "?h0\<lparr>oh_checksum := c, oh_auth_type := ?t, oh_auth_data := ?d\<rparr>"
  have "wf_ospf_header ?h" using wf0 c t by (simp add: wf_ospf_header_def)
  ultimately show ?thesis
    using that [OF frame ser [OF c t length_auth_field]] P
    by (simp add: ospf_header_build_def)
qed

lemma be16_header:
  assumes "ospf_header_serialize h = Inr hb" and "wf_ospf_header h"
  shows "be16 (hb @ rest) 14 = oh_auth_type h" and "be16 (hb @ rest) 2 = oh_length h"
    and "pslice (hb @ rest) 16 24 = oh_auth_data h"
  using assms
  by (auto simp: ospf_header_serialize_eq be16_def pslice_def be_decode_encode wf_ospf_header_def
      int_range_defs)

lemma accept_framed:
  fixes intf :: "'a intf_attrs_scheme" and intf' :: "'b intf_attrs_scheme"
  assumes frame: "frame_packet md5 rid intf sq pkt_type body = Inr data"
    and "u8 pkt_type" and "24 + length body < 65536"
    and auth: "if_auth_type intf = 0 \<or> if_auth_type intf = 1"
    and same: "if_auth_type intf' = if_auth_type intf" "if_auth_key intf' = if_auth_key intf"
      "if_area_id intf' = if_area_id intf"
    and other: "rid' \<noteq> rid"
    and on_link: "if_type intf' = 2 \<longrightarrow> src AND if_ip_mask intf' = if_ip_addr intf' AND if_ip_mask intf'"
  shows "\<exists>h. accept_packet md5 rid' intf' data src = Some (h, body)
    \<and> oh_type h = pkt_type \<and> oh_router_id h = rid"
proof -
  obtain h hb where "frame_packet md5 rid intf sq pkt_type body = Inr (hb @ body)"
    and hb: "ospf_header_serialize h = Inr hb" "wf_ospf_header h" "length hb = 24"
    and h: "oh_version h = 2" "oh_type h = pkt_type" "oh_router_id h = rid"
      "oh_area_id h = if_area_id intf" "oh_length h = 24 + int (length body)"
      "oh_auth_type h = if_auth_type intf"
      "oh_auth_data h = auth_field (if_auth_type intf) (if_auth_key intf)"
    and chk: "if_auth_type intf = 0 \<longrightarrow> verify_ip_checksum (hb @ body)"
    using frame_packet_form [OF assms(2,3) auth] by blast
  then have data: "data = hb @ body" using frame by simp
  have dec: "ospf_header_deserialize data = Inr h"
    using ospf_header_roundtrip [OF hb(2)] hb(1) data by auto
  have len: "nat (24 + int (length body)) = length data" using data hb by simp
  have "verify_auth md5 data (if_auth_type intf) (if_auth_key intf) (if_auth_key_id intf')"
    using be16_header [OF hb(1,2), of body] auth data hb(3) h
    by (auto simp: verify_auth_def auth_field_def)
  then have "accept_packet md5 rid' intf' data src = Some (h, body)"
    using dec chk same other on_link h hb(3) data len
    by (auto simp: accept_packet_def Let_def pslice_def)
  then show ?thesis using h by blast
qed

text \<open>
  The receiver cuts the data at the header's length before it checks the digest, and the digest
  stands behind that length: no packet passes the MD5 check.
\<close>

lemma header_length_read:
  assumes "ospf_header_deserialize data = Inr h"
  shows "24 \<le> length data" and "be16 data 2 = oh_length h"
  using assms
  by (auto simp: ospf_header_deserialize_def struct_unpack_def ospf_hdr_format_def be16_def pslice_def
      drop_take simp flip: numeral_2_eq_2 split: if_splits)

lemma verify_auth_md5_needs_digest:
  assumes "nat (be16 packet 2) = length packet"
  shows "\<not> verify_auth md5 packet 2 auth_key key_id"
  using assms by (auto simp: verify_auth_def Let_def)

lemma be16_take: "24 \<le> n \<Longrightarrow> be16 (take n data) 2 = be16 data 2"
  by (simp add: be16_def pslice_def drop_take)

lemma accept_packet_md5:
  fixes intf :: "'a intf_attrs_scheme"
  assumes "if_auth_type intf = 2"
  shows "accept_packet md5 rid intf data src = None"
proof (cases "ospf_header_deserialize data")
  case (Inl e)
  then show ?thesis by (simp add: accept_packet_def)
next
  case (Inr h)
  show ?thesis
  proof (cases "24 \<le> oh_length h \<and> oh_length h \<le> int (length data)")
    case True
    then have "be16 (take (nat (oh_length h)) data) 2 = oh_length h"
      using header_length_read [OF Inr] by (subst be16_take) auto
    then have "\<not> verify_auth md5 (take (nat (oh_length h)) data) 2 k i" for k i
      using True by (intro verify_auth_md5_needs_digest) auto
    then show ?thesis using Inr assms by (auto simp: accept_packet_def Let_def)
  next
    case False
    then show ?thesis using Inr by (auto simp: accept_packet_def)
  qed
qed

definition sample_intf :: intf_attrs where
  "sample_intf = \<lparr>if_name = ''eth0'', if_type = 2, if_cost = 10, if_priority = 1,
     if_hello_interval = 10, if_dead_interval = 40, if_retransmit_interval = 5,
     if_transmit_delay = 1, if_passive = False, if_auth_type = 1, if_auth_key = [115, 101, 99],
     if_auth_key_id = 0, if_area_id = 0, if_ip_addr = 167772161, if_ip_mask = 4294967040,
     if_mtu = 1500, if_index = 2\<rparr>"

text \<open>
  C22. A packet framed by one router under null or simple-password authentication passes every check
  of a router that shares the link's area and authentication, if the source lies on the link: the
  receiver dispatches on the sender's type, router id and exact body.
\<close>

theorem framed_packet_accepted:
  fixes intf :: "'a intf_attrs_scheme" and intf' :: "'b intf_attrs_scheme"
  assumes "frame_packet md5 rid intf sq pkt_type body = Inr data"
    and "u8 pkt_type" and "24 + length body < 65536"
    and "if_auth_type intf = 0 \<or> if_auth_type intf = 1"
    and "if_auth_type intf' = if_auth_type intf" and "if_auth_key intf' = if_auth_key intf"
    and "if_area_id intf' = if_area_id intf" and "rid' \<noteq> rid"
    and "if_type intf' = 2 \<longrightarrow> src AND if_ip_mask intf' = if_ip_addr intf' AND if_ip_mask intf'"
  shows "\<exists>h. accept_packet md5 rid' intf' data src = Some (h, body)
    \<and> oh_type h = pkt_type \<and> oh_router_id h = rid"
  using assms by (rule accept_framed)

theorem framed_packet_accepted_witness:
  "\<exists>data h. frame_packet (\<lambda>_. replicate 16 0) 1 sample_intf 0 5 [1, 2, 3] = Inr data
    \<and> accept_packet (\<lambda>_. replicate 16 0) 2 (sample_intf\<lparr>if_ip_addr := 167772162\<rparr>) data 167772161
      = Some (h, [1, 2, 3])"
proof -
  have u: "u8 5" "24 + length [1, 2, 3 :: byte] < 65536" by (simp_all add: u8_def)
  have a: "if_auth_type sample_intf = 0 \<or> if_auth_type sample_intf = 1" by (simp add: sample_intf_def)
  obtain data where d: "frame_packet (\<lambda>_. replicate 16 0) 1 sample_intf 0 5 [1, 2, 3] = Inr data"
    using frame_packet_form [OF u a] by metis
  have "\<exists>h. accept_packet (\<lambda>_. replicate 16 0) 2 (sample_intf\<lparr>if_ip_addr := 167772162\<rparr>) data 167772161
      = Some (h, [1, 2, 3]) \<and> oh_type h = 5 \<and> oh_router_id h = 1"
    by (rule framed_packet_accepted [OF d u a]) (simp_all add: sample_intf_def)
  with d show ?thesis by blast
qed

text \<open>
  C35. On an interface configured for MD5 authentication every packet is dropped, whatever its bytes,
  its sender or the digest function: the digest is cut off before it is checked. An authenticated
  adjacency can therefore never form.
\<close>

theorem md5_packets_never_accepted:
  fixes intf :: "'a intf_attrs_scheme"
  assumes "if_auth_type intf = 2"
  shows "accept_packet md5 rid intf data src = None"
  using assms by (rule accept_packet_md5)

theorem md5_packets_never_accepted_witness:
  "accept_packet (\<lambda>_. replicate 16 0) 7 (sample_intf\<lparr>if_auth_type := 2\<rparr>)
     ([2, 1, 0, 24, 0, 0, 0, 1, 0, 0, 0, 0, 0, 0, 0, 2, 0, 1, 16, 0, 0, 0, 0, 1] @ replicate 16 0) 167772162
   = None"
  by (rule md5_packets_never_accepted) (simp add: sample_intf_def)

end
