(* ===== verification/Lsdb.thy ===== *)
theory Lsdb
  imports Lsa
begin

text \<open>
  \<^verbatim>\<open>lsdb/database.py\<close>: the link-state database, its comparison of LSA instances and its operations.
  A Python dictionary is an association list in insertion order. The interface \<open>versioned_store\<close>
  says what a database of versioned entries promises; its one theorem, that no sequence of
  installations ever replaces an entry by an older one, is used through the interpretation on this
  database.
\<close>

section \<open>Comparison of LSA instances\<close>

definition signed32 :: "int \<Rightarrow> int" where
  "signed32 v = (if v < 0x80000000 then v else v - 0x100000000)"

definition compare_lsa :: "lsa_header \<Rightarrow> lsa_header \<Rightarrow> int" where
  "compare_lsa a b =
     (if lh_ls_sequence_number a \<noteq> lh_ls_sequence_number b then
        (if signed32 (lh_ls_sequence_number a) > signed32 (lh_ls_sequence_number b) then 1 else - 1)
      else if lh_ls_checksum a \<noteq> lh_ls_checksum b then lh_ls_checksum a - lh_ls_checksum b
      else
        let a_maxage = (lh_ls_age a \<ge> max_age); b_maxage = (lh_ls_age b \<ge> max_age) in
        if a_maxage \<and> \<not> b_maxage then 1
        else if b_maxage \<and> \<not> a_maxage then - 1
        else if \<bar>lh_ls_age a - lh_ls_age b\<bar> > 900 then
          (if lh_ls_age a < lh_ls_age b then 1 else - 1)
        else 0)"

definition newer :: "lsa_header \<Rightarrow> lsa_header \<Rightarrow> bool" where
  "newer a b \<longleftrightarrow> compare_lsa a b > 0"

text \<open>The rank of an instance: what the comparison orders first.\<close>

definition seq32 :: "lsa_header \<Rightarrow> bool" where
  \<comment> \<open>the sequence number is one a 32-bit field holds\<close>
  "seq32 h \<longleftrightarrow> u32 (lh_ls_sequence_number h)"

lemma signed32_inj:
  "u32 a \<Longrightarrow> u32 b \<Longrightarrow> signed32 a = signed32 b \<longleftrightarrow> a = b"
  by (auto simp: signed32_def int_range_defs)

lemma compare_lsa_antisym:
  assumes "seq32 a" and "seq32 b"
  shows "compare_lsa a b > 0 \<longleftrightarrow> compare_lsa b a < 0"
    and "compare_lsa a b = 0 \<longleftrightarrow> compare_lsa b a = 0"
  using assms signed32_inj [of "lh_ls_sequence_number a" "lh_ls_sequence_number b"]
  by (auto simp: compare_lsa_def seq32_def Let_def)

definition newer_age :: "lsa_header \<Rightarrow> lsa_header \<Rightarrow> bool" where
  "newer_age a b \<longleftrightarrow> (if (lh_ls_age a \<ge> max_age) = (lh_ls_age b \<ge> max_age)
     then lh_ls_age a + 900 < lh_ls_age b else lh_ls_age a \<ge> max_age)"

lemma newer_iff:
  "newer a b \<longleftrightarrow>
     (if lh_ls_sequence_number a \<noteq> lh_ls_sequence_number b
      then signed32 (lh_ls_sequence_number a) > signed32 (lh_ls_sequence_number b)
      else if lh_ls_checksum a \<noteq> lh_ls_checksum b then lh_ls_checksum a > lh_ls_checksum b
      else newer_age a b)"
  by (simp add: newer_def compare_lsa_def newer_age_def Let_def)

lemma newer_age_trans: "newer_age a b \<Longrightarrow> newer_age b c \<Longrightarrow> newer_age a c"
  by (auto simp: newer_age_def split: if_splits)

lemma newer_trans:
  assumes "newer a b" and "newer b c"
  shows "newer a c"
  using assms newer_age_trans [of a b c] unfolding newer_iff
  by (smt (verit))

lemma newer_irrefl: "\<not> newer a a"
  by (simp add: newer_def compare_lsa_def)

section \<open>The database\<close>

type_synonym lsa_table = "(lsa_ident \<times> lsa) list"

record lsdb =
  ld_router_id :: ipv4
  ld_areas :: "(ipv4 \<times> lsa_table) list"
  ld_external :: lsa_table
  ld_last_arrival :: "(lsa_ident \<times> time) list"

definition empty_lsdb :: "ipv4 \<Rightarrow> lsdb" where
  "empty_lsdb rid = \<lparr>ld_router_id = rid, ld_areas = [], ld_external = [], ld_last_arrival = []\<rparr>"

definition is_external_type :: "int \<Rightarrow> bool" where
  "is_external_type ty \<longleftrightarrow> ty = 5 \<or> ty = 11"

definition ensure_area :: "ipv4 \<Rightarrow> lsdb \<Rightarrow> lsdb" where
  "ensure_area area d =
     (if map_of (ld_areas d) area = None then d\<lparr>ld_areas := AList.update area [] (ld_areas d)\<rparr> else d)"

definition area_db :: "ipv4 \<Rightarrow> lsdb \<Rightarrow> lsa_table" where
  \<comment> \<open>\<^verbatim>\<open>self._areas.get(area_id, {})\<close>\<close>
  "area_db area d = (case map_of (ld_areas d) area of None \<Rightarrow> [] | Some db \<Rightarrow> db)"

definition partition_db :: "ipv4 \<Rightarrow> int \<Rightarrow> lsdb \<Rightarrow> lsa_table" where
  "partition_db area ty d = (if is_external_type ty then ld_external d else area_db area d)"

definition set_partition :: "ipv4 \<Rightarrow> int \<Rightarrow> lsa_table \<Rightarrow> lsdb \<Rightarrow> lsdb" where
  "set_partition area ty db d =
     (if is_external_type ty then d\<lparr>ld_external := db\<rparr>
      else d\<lparr>ld_areas := AList.update area db (ld_areas d)\<rparr>)"

definition lsdb_lookup :: "ipv4 \<Rightarrow> lsa_ident \<Rightarrow> lsdb \<Rightarrow> lsa option" where
  "lsdb_lookup area key d =
     (if is_external_type (fst key) then map_of (ld_external d) key
      else map_of (area_db area d) key)"

definition lsdb_install :: "time \<Rightarrow> ipv4 \<Rightarrow> lsa \<Rightarrow> lsdb \<Rightarrow> (bool \<times> lsa option) \<times> lsdb" where
  "lsdb_install now area l d =
     (let key = lsa_key l;
          ty = lh_ls_type (l_header l);
          d = (if is_external_type ty then d else ensure_area area d);
          db = partition_db area ty d;
          old = map_of db key;
          put = set_partition area ty (AList.update key (mark_installed now l) db)
            (d\<lparr>ld_last_arrival := AList.update key now (ld_last_arrival d)\<rparr>)
      in if old = None \<and> int (length db) \<ge> 10000 then ((False, None), d)
         else if old = None \<and> ty = 5 \<and> int (length (ld_external d)) \<ge> 10000 then ((False, None), d)
         else case old of
           None \<Rightarrow> ((True, None), put)
         | Some o' \<Rightarrow>
             if compare_lsa (l_header l) (l_header o') \<le> 0 then ((False, Some o'), d)
             else
               let last = (case map_of (ld_last_arrival d) key of None \<Rightarrow> 0 | Some t \<Rightarrow> t) in
               if now - last < 1 then ((False, Some o'), d)
               else ((True, Some o'), put))"

definition lsdb_remove :: "ipv4 \<Rightarrow> lsa_ident \<Rightarrow> lsdb \<Rightarrow> lsa option \<times> lsdb" where
  "lsdb_remove area key d =
     (if is_external_type (fst key) then
        (map_of (ld_external d) key, d\<lparr>ld_external := AList.delete key (ld_external d)\<rparr>)
      else case map_of (ld_areas d) area of
        None \<Rightarrow> (None, d)
      | Some db \<Rightarrow>
          if db = [] then (None, d)
          else (map_of db key, d\<lparr>ld_areas := AList.update area (AList.delete key db) (ld_areas d)\<rparr>))"

definition get_all :: "ipv4 \<Rightarrow> int option \<Rightarrow> lsdb \<Rightarrow> lsa list" where
  "get_all area ls_type d =
     (let lsas = map snd (area_db area d) in
      case ls_type of None \<Rightarrow> lsas | Some ty \<Rightarrow> filter (\<lambda>l. lh_ls_type (l_header l) = ty) lsas)"

definition get_all_external :: "lsdb \<Rightarrow> lsa list" where
  "get_all_external d = map snd (ld_external d)"

definition get_all_headers :: "ipv4 \<Rightarrow> lsdb \<Rightarrow> lsa_header list" where
  "get_all_headers area d = map (l_header \<circ> snd) (area_db area d) @ map (l_header \<circ> snd) (ld_external d)"

definition get_maxage_lsas :: "time \<Rightarrow> ipv4 \<Rightarrow> lsdb \<Rightarrow> lsa list" where
  "get_maxage_lsas now area d = filter (\<lambda>l. current_age now l \<ge> max_age) (map snd (area_db area d))"

definition is_self_originated :: "lsdb \<Rightarrow> lsa \<Rightarrow> bool" where
  "is_self_originated d l \<longleftrightarrow> lh_advertising_router (l_header l) = ld_router_id d"

definition lsdb_area_ids :: "lsdb \<Rightarrow> ipv4 list" where
  "lsdb_area_ids d = map fst (ld_areas d)"

section \<open>The database invariant\<close>

definition table_ok :: "bool \<Rightarrow> lsa_table \<Rightarrow> bool" where
  "table_ok ext db \<longleftrightarrow> distinct (map fst db) \<and> length db \<le> 10000
     \<and> list_all (\<lambda>(k, l). lsa_key l = k \<and> is_external_type (fst k) = ext) db"

definition lsdb_ok :: "lsdb \<Rightarrow> bool" where
  "lsdb_ok d \<longleftrightarrow> distinct (map fst (ld_areas d)) \<and> list_all (\<lambda>(_, db). table_ok False db) (ld_areas d)
     \<and> table_ok True (ld_external d)"

lemma is_external_key [simp]: "is_external_type (fst (lsa_key l)) = is_external_type (lh_ls_type (l_header l))"
  by (simp add: lsa_key_def lsa_header_key_def)

lemma table_ok_Nil [simp]: "table_ok ext []"
  by (simp add: table_ok_def)

lemma table_ok_update:
  assumes "table_ok ext db" and "lsa_key l = k" and "is_external_type (fst k) = ext"
    and "map_of db k \<noteq> None \<or> length db < 10000"
  shows "table_ok ext (AList.update k l db)"
  using assms by (auto simp: table_ok_def distinct_update length_update intro!: list_all_updateI)

lemma table_ok_delete: "table_ok ext db \<Longrightarrow> table_ok ext (AList.delete k db)"
  using length_delete_le [of k db]
  by (auto simp: table_ok_def distinct_delete intro!: list_all_deleteI)

lemma lsdb_ok_area: "lsdb_ok d \<Longrightarrow> table_ok False (area_db area d)"
  by (auto simp: lsdb_ok_def area_db_def list_all_iff split: option.split dest!: map_of_SomeD)

lemma lsdb_ok_partition: "lsdb_ok d \<Longrightarrow> table_ok (is_external_type ty) (partition_db area ty d)"
  by (auto simp: partition_db_def lsdb_ok_area) (simp add: lsdb_ok_def)

lemma lsdb_ok_set_partition:
  assumes "lsdb_ok d" and "table_ok (is_external_type ty) db"
  shows "lsdb_ok (set_partition area ty db d)"
  using assms by (auto simp: lsdb_ok_def set_partition_def distinct_update intro!: list_all_updateI)

lemma lsdb_ok_ensure_area: "lsdb_ok d \<Longrightarrow> lsdb_ok (ensure_area area d)"
  by (auto simp: ensure_area_def lsdb_ok_def distinct_update intro!: list_all_updateI)

lemma lsdb_ok_last_arrival [simp]: "lsdb_ok (d\<lparr>ld_last_arrival := x\<rparr>) = lsdb_ok d"
  by (simp add: lsdb_ok_def)

lemma area_db_ensure_area [simp]: "area_db a (ensure_area area d) = area_db a d"
  by (cases "a = area") (auto simp: area_db_def ensure_area_def update_conv' split: option.splits)

lemma ld_external_ensure_area [simp]: "ld_external (ensure_area area d) = ld_external d"
  by (simp add: ensure_area_def)

lemma partition_db_simps [simp]:
  "partition_db a ty (ensure_area area d) = partition_db a ty d"
  "partition_db a ty (d\<lparr>ld_last_arrival := x\<rparr>) = partition_db a ty d"
  by (simp_all add: partition_db_def) (simp_all add: area_db_def)

lemma lookup_partition: "lsdb_lookup area key d = map_of (partition_db area (fst key) d) key"
  by (simp add: lsdb_lookup_def partition_db_def)

lemma partition_db_set_partition:
  "partition_db a ty' (set_partition area ty db d) =
     (if is_external_type ty' = is_external_type ty \<and> (is_external_type ty \<or> a = area) then db
      else partition_db a ty' d)"
  by (auto simp: partition_db_def set_partition_def area_db_def update_conv')

text \<open>The outcome of an installation, case by case.\<close>

lemma lsdb_install_cases:
  fixes now area l d
  defines "old \<equiv> lsdb_lookup area (lsa_key l) d"
    and "full \<equiv> length (partition_db area (lh_ls_type (l_header l)) d) \<ge> 10000"
    and "seen \<equiv> (case map_of (ld_last_arrival d) (lsa_key l) of None \<Rightarrow> 0 | Some t \<Rightarrow> t)"
    and "d1 \<equiv> (if is_external_type (lh_ls_type (l_header l)) then d else ensure_area area d)"
  shows "lsdb_install now area l d =
    (if (case old of None \<Rightarrow> \<not> full | Some o' \<Rightarrow> newer (l_header l) (l_header o') \<and> 1 \<le> now - seen)
     then ((True, old), set_partition area (lh_ls_type (l_header l))
        (AList.update (lsa_key l) (mark_installed now l) (partition_db area (lh_ls_type (l_header l)) d))
        (d1\<lparr>ld_last_arrival := AList.update (lsa_key l) now (ld_last_arrival d)\<rparr>))
     else ((False, old), d1))"
proof -
  have [simp]: "fst (lsa_key l) = lh_ls_type (l_header l)"
    by (simp add: lsa_key_def lsa_header_key_def)
  have [simp]: "ld_last_arrival (ensure_area area d) = ld_last_arrival d"
    by (simp add: ensure_area_def)
  have ext: "partition_db area 5 d = ld_external d"
    by (simp add: partition_db_def is_external_type_def)
  show ?thesis
    unfolding assms lookup_partition
    by (auto simp: lsdb_install_def Let_def newer_def ext split: option.split)
qed

lemma lsdb_install_ok:
  assumes "lsdb_ok d"
  shows "lsdb_ok (snd (lsdb_install now area l d))"
  using assms lsdb_ok_partition [OF assms, of "lh_ls_type (l_header l)" area]
  by (auto simp: lsdb_install_cases lookup_partition lsa_key_def lsa_header_key_def mark_installed_def
      intro!: lsdb_ok_set_partition lsdb_ok_ensure_area table_ok_update split: option.splits if_splits)

text \<open>What a lookup finds after each operation.\<close>

definition install_accepted :: "time \<Rightarrow> ipv4 \<Rightarrow> lsa \<Rightarrow> lsdb \<Rightarrow> bool" where
  \<comment> \<open>new and there is room, or newer than the stored instance and a second after its arrival\<close>
  "install_accepted now area l d =
     (case lsdb_lookup area (lsa_key l) d of
        None \<Rightarrow> length (partition_db area (lh_ls_type (l_header l)) d) < 10000
      | Some old \<Rightarrow> newer (l_header l) (l_header old)
          \<and> 1 \<le> now - (case map_of (ld_last_arrival d) (lsa_key l) of None \<Rightarrow> 0 | Some t \<Rightarrow> t))"

definition same_slot :: "ipv4 \<Rightarrow> lsa_ident \<Rightarrow> ipv4 \<Rightarrow> lsa_ident \<Rightarrow> bool" where
  \<comment> \<open>two lookups read the same entry: AS-wide LSAs are shared by all areas\<close>
  "same_slot a k area key \<longleftrightarrow> k = key \<and> (is_external_type (fst key) \<or> a = area)"

lemma lookup_set_partition_update:
  assumes "fst key = ty"
  shows "lsdb_lookup a k (set_partition area ty (AList.update key v (partition_db area ty d)) d')
    = (if same_slot a k area key then Some v
       else if is_external_type (fst k) = is_external_type ty \<and> (is_external_type ty \<or> a = area)
       then lsdb_lookup area k d else lsdb_lookup a k d')"
  using assms
  by (auto simp: lookup_partition partition_db_set_partition same_slot_def update_conv')
    (auto simp: partition_db_def)

lemma lookup_ensure_area [simp]: "lsdb_lookup a k (ensure_area area d) = lsdb_lookup a k d"
  by (simp add: lookup_partition)

lemma lookup_last_arrival [simp]: "lsdb_lookup a k (d\<lparr>ld_last_arrival := x\<rparr>) = lsdb_lookup a k d"
  by (simp add: lookup_partition)

lemma lookup_external_any: "is_external_type (fst k) \<Longrightarrow> lsdb_lookup a k d = lsdb_lookup b k d"
  by (simp add: lsdb_lookup_def)

lemma lsdb_install_result:
  "fst (lsdb_install now area l d) = (install_accepted now area l d, lsdb_lookup area (lsa_key l) d)"
  by (auto simp: lsdb_install_cases install_accepted_def split: option.splits)

lemma lookup_install:
  "lsdb_lookup a k (snd (lsdb_install now area l d)) =
     (if install_accepted now area l d \<and> same_slot a k area (lsa_key l) then Some (mark_installed now l)
      else lsdb_lookup a k d)"
proof -
  have ty: "fst (lsa_key l) = lh_ls_type (l_header l)" by (simp add: lsa_key_def lsa_header_key_def)
  let ?ty = "lh_ls_type (l_header l)"
  let ?d1 = "if is_external_type ?ty then d else ensure_area area d"
  have put: "lsdb_lookup a k (set_partition area ?ty
      (AList.update (lsa_key l) (mark_installed now l) (partition_db area ?ty d))
      (?d1\<lparr>ld_last_arrival := AList.update (lsa_key l) now (ld_last_arrival d)\<rparr>))
    = (if same_slot a k area (lsa_key l) then Some (mark_installed now l) else lsdb_lookup a k d)"
    using lookup_external_any [of k a d area] by (auto simp: lookup_set_partition_update [OF ty])
  have "install_accepted now area l d \<longleftrightarrow> (case lsdb_lookup area (lsa_key l) d of
      None \<Rightarrow> \<not> 10000 \<le> length (partition_db area ?ty d)
    | Some o' \<Rightarrow> newer (l_header l) (l_header o')
        \<and> 1 \<le> now - (case map_of (ld_last_arrival d) (lsa_key l) of None \<Rightarrow> 0 | Some t \<Rightarrow> t))"
    by (simp add: install_accepted_def not_le cong: option.case_cong)
  then show ?thesis
    using put by (simp add: lsdb_install_cases)
qed

lemma lookup_remove:
  assumes "lsdb_ok d"
  shows "fst (lsdb_remove area key d) = lsdb_lookup area key d"
    and "lsdb_lookup a k (snd (lsdb_remove area key d)) =
      (if same_slot a k area key then None else lsdb_lookup a k d)"
  by (auto simp: lsdb_remove_def lsdb_lookup_def area_db_def same_slot_def delete_conv' update_conv'
      split: option.splits)

lemma lsdb_remove_ok:
  assumes "lsdb_ok d"
  shows "lsdb_ok (snd (lsdb_remove area key d))"
  using assms
  by (auto simp: lsdb_remove_def lsdb_ok_def distinct_update split: option.split
      intro!: table_ok_delete list_all_updateI dest: list_all_map_of)

lemma get_all_lookup:
  assumes "lsdb_ok d"
  shows "l \<in> set (get_all area None d) \<longleftrightarrow>
    (\<exists>k. \<not> is_external_type (fst k) \<and> lsdb_lookup area k d = Some l)"
proof -
  have ok: "table_ok False (area_db area d)" by (rule lsdb_ok_area [OF assms])
  then have "distinct (map fst (area_db area d))" by (simp add: table_ok_def)
  then have "map_of (area_db area d) k = Some l \<longleftrightarrow> (k, l) \<in> set (area_db area d)" for k
    by (rule map_of_eq_Some_iff)
  moreover have "\<not> is_external_type (fst k)" if "(k, l) \<in> set (area_db area d)" for k
    using ok that unfolding table_ok_def list_all_iff by fastforce
  moreover have "l \<in> set (get_all area None d) \<longleftrightarrow> (\<exists>k. (k, l) \<in> set (area_db area d))"
    unfolding get_all_def by force
  ultimately show ?thesis
    unfolding lsdb_lookup_def by metis
qed

section \<open>A store of versioned entries\<close>

locale versioned_store =
  fixes look :: "'d \<Rightarrow> 'k \<Rightarrow> 'v option"
    and inst :: "'t \<Rightarrow> 'v \<Rightarrow> 'd \<Rightarrow> 'd"
    and later :: "'v \<Rightarrow> 'v \<Rightarrow> bool"
  assumes later_trans: "later a b \<Longrightarrow> later b c \<Longrightarrow> later a c"
    and inst_step: "look (inst t v d) k = look d k
      \<or> (\<exists>v'. look (inst t v d) k = Some v' \<and> (\<forall>old. look d k = Some old \<longrightarrow> later v' old))"
begin

lemma installs_never_regress:
  assumes "look d k = Some old"
  shows "\<exists>v. look (fold (\<lambda>(t, v). inst t v) ops d) k = Some v \<and> (v = old \<or> later v old)"
  using assms
proof (induction ops arbitrary: d old)
  case Nil
  then show ?case by simp
next
  case (Cons op ops)
  obtain t v where op: "op = (t, v)" by fastforce
  from inst_step [of t v d k] Cons.prems
  obtain v1 where v1: "look (inst t v d) k = Some v1" "v1 = old \<or> later v1 old" by auto
  from Cons.IH [OF v1(1)] v1(2) show ?case
    using later_trans by (auto simp: op)
qed

end

interpretation lsdb_store: versioned_store
  "\<lambda>d (a, k). lsdb_lookup a k d"
  "\<lambda>(now, area) l d. snd (lsdb_install now area l d)"
  "\<lambda>a b. newer (l_header a) (l_header b)"
proof
  fix a b c :: lsa
  show "newer (l_header a) (l_header b) \<Longrightarrow> newer (l_header b) (l_header c) \<Longrightarrow> newer (l_header a) (l_header c)"
    by (rule newer_trans)
next
  fix t :: "time \<times> ipv4" and v :: lsa and d :: lsdb and k :: "ipv4 \<times> lsa_ident"
  obtain now area where t: "t = (now, area)" by fastforce
  obtain a key where k: "k = (a, key)" by (rule prod.exhaust)
  show "(case k of (a, k) \<Rightarrow> lsdb_lookup a k ((\<lambda>(now, area) l d. snd (lsdb_install now area l d)) t v d))
      = (case k of (a, k) \<Rightarrow> lsdb_lookup a k d)
    \<or> (\<exists>v'. (case k of (a, k) \<Rightarrow> lsdb_lookup a k ((\<lambda>(now, area) l d. snd (lsdb_install now area l d)) t v d)) = Some v'
      \<and> (\<forall>old. (case k of (a, k) \<Rightarrow> lsdb_lookup a k d) = Some old \<longrightarrow> newer (l_header v') (l_header old)))"
    using lookup_external_any [of key a d area]
    by (auto simp: t k lookup_install same_slot_def install_accepted_def mark_installed_def
        split: option.splits)
qed

section \<open>Properties\<close>

datatype lsdb_op =
    Op_Ensure ipv4
  | Op_Install time ipv4 lsa
  | Op_Remove ipv4 lsa_ident

fun run_lsdb_op :: "lsdb_op \<Rightarrow> lsdb \<Rightarrow> lsdb" where
  "run_lsdb_op (Op_Ensure area) d = ensure_area area d"
| "run_lsdb_op (Op_Install now area l) d = snd (lsdb_install now area l d)"
| "run_lsdb_op (Op_Remove area key) d = snd (lsdb_remove area key d)"

lemma run_lsdb_op_ok: "lsdb_ok d \<Longrightarrow> lsdb_ok (run_lsdb_op op d)"
  by (cases op) (simp_all add: lsdb_ok_ensure_area lsdb_install_ok lsdb_remove_ok)

lemma run_lsdb_ops_ok: "lsdb_ok d \<Longrightarrow> lsdb_ok (fold run_lsdb_op ops d)"
  by (induction ops arbitrary: d) (simp_all add: run_lsdb_op_ok)

text \<open>
  C16. Whatever operations run on a fresh database, every partition keeps distinct keys and at most
  10000 LSAs, every entry stands under its own key, AS-external and AS-opaque LSAs are exactly in
  the shared partition, and no other type is.
\<close>

theorem lsdb_invariant:
  "lsdb_ok (fold run_lsdb_op ops (empty_lsdb rid))"
  by (rule run_lsdb_ops_ok) (simp add: lsdb_ok_def empty_lsdb_def)

text \<open>
  C34. Installing an LSA returns whether it was accepted with the instance found before, and changes
  exactly the entry of its key (of every area when the LSA is AS-wide): accepted means it is new
  and there is room, or it is newer than the stored one and comes at least a second after it.
\<close>

theorem lsdb_install_spec:
  "fst (lsdb_install now area l d) = (install_accepted now area l d, lsdb_lookup area (lsa_key l) d)
   \<and> lsdb_lookup a k (snd (lsdb_install now area l d)) =
     (if install_accepted now area l d \<and> k = lsa_key l \<and> (is_external_type (fst k) \<or> a = area)
      then Some (mark_installed now l) else lsdb_lookup a k d)"
  by (auto simp: lsdb_install_result lookup_install same_slot_def)

text \<open>
  Removing an LSA returns the instance stored under the key and empties exactly that entry; what
  the per-area listing returns is exactly what lookups find.
\<close>

theorem lsdb_remove_spec:
  assumes "lsdb_ok d"
  shows "fst (lsdb_remove area key d) = lsdb_lookup area key d
    \<and> lsdb_lookup a k (snd (lsdb_remove area key d)) =
      (if k = key \<and> (is_external_type (fst k) \<or> a = area) then None else lsdb_lookup a k d)
    \<and> (l \<in> set (get_all area None d) \<longleftrightarrow>
      (\<exists>k. \<not> is_external_type (fst k) \<and> lsdb_lookup area k d = Some l))"
  using lookup_remove [OF assms] get_all_lookup [OF assms] by (auto simp: same_slot_def)

definition sample_lsdb :: lsdb where
  "sample_lsdb = snd (lsdb_install 10 0 sample_lsa (empty_lsdb 5))"

lemma sample_lsdb_ok: "lsdb_ok sample_lsdb"
  unfolding sample_lsdb_def by (intro lsdb_install_ok) (simp add: lsdb_ok_def empty_lsdb_def)

theorem lsdb_remove_spec_witness:
  "fst (lsdb_remove 0 (1, 167772161, 167772161) sample_lsdb) = Some (mark_installed 10 sample_lsa)"
proof -
  have "lsdb_lookup 0 (1, 167772161, 167772161) sample_lsdb = Some (mark_installed 10 sample_lsa)"
    by code_simp
  then show ?thesis using lsdb_remove_spec [OF sample_lsdb_ok] by simp
qed

text \<open>
  The comparison of LSA instances is a strict order with ties: of two instances whose sequence
  numbers fit 32 bits exactly one of newer, older and same holds, newer is transitive, and with
  different sequence numbers the signed value decides, 0x80000001 being the oldest in use.
\<close>

theorem compare_lsa_order:
  assumes "seq32 a" and "seq32 b"
  shows "(compare_lsa a b > 0 \<longleftrightarrow> compare_lsa b a < 0)
    \<and> (compare_lsa a b = 0 \<longleftrightarrow> compare_lsa b a = 0)
    \<and> (\<forall>c. newer a b \<longrightarrow> newer b c \<longrightarrow> newer a c)
    \<and> (lh_ls_sequence_number a = 0x80000001 \<longrightarrow> lh_ls_sequence_number b \<noteq> 0x80000001
        \<longrightarrow> lh_ls_sequence_number b \<noteq> 0x80000000 \<longrightarrow> newer b a)"
  using compare_lsa_antisym [OF assms] newer_trans [of a b] assms
  by (auto simp: newer_iff signed32_def seq32_def int_range_defs)

theorem compare_lsa_order_witness:
  "let a = l_header sample_lsa; b = a\<lparr>lh_ls_sequence_number := 0x7FFFFFFF\<rparr>
   in newer b a \<and> compare_lsa a b < 0"
proof -
  let ?a = "l_header sample_lsa" and ?b = "(l_header sample_lsa)\<lparr>lh_ls_sequence_number := 0x7FFFFFFF\<rparr>"
  have "seq32 ?a" "seq32 ?b" by (simp_all add: seq32_def sample_lsa_def int_range_defs)
  from compare_lsa_order [OF this] compare_lsa_order [OF this(2,1)]
  have "newer ?b ?a \<and> compare_lsa ?a ?b < 0" by (simp add: sample_lsa_def newer_def)
  then show ?thesis by simp
qed

text \<open>
  C17. No sequence of installations, for whatever areas and at whatever times, makes the database
  forget an LSA or fall back to an older instance of it.
\<close>

theorem lsdb_never_regresses:
  assumes "lsdb_lookup a k d = Some old"
  shows "\<exists>l. lsdb_lookup a k (fold (\<lambda>(now, area, l) d. snd (lsdb_install now area l d)) ops d) = Some l
    \<and> (l = old \<or> newer (l_header l) (l_header old))"
proof -
  have "fold (\<lambda>(t, v). case t of (now, area) \<Rightarrow> \<lambda>d. snd (lsdb_install now area v d))
        (map (\<lambda>(now, area, l). ((now, area), l)) ops) d
      = fold (\<lambda>(now, area, l) d. snd (lsdb_install now area l d)) ops d"
    by (induction ops arbitrary: d) auto
  then show ?thesis
    using lsdb_store.installs_never_regress
      [of d "(a, k)" old "map (\<lambda>(now, area, l). ((now, area), l)) ops"] assms
    by (simp add: case_prod_unfold)
qed

theorem lsdb_never_regresses_witness:
  "\<exists>l. lsdb_lookup 0 (1, 167772161, 167772161) (fold (\<lambda>(now, area, l) d. snd (lsdb_install now area l d))
      [(12, 0, sample_lsa\<lparr>l_header := (l_header sample_lsa)\<lparr>lh_ls_sequence_number := 2147483650\<rparr>\<rparr>),
       (14, 0, sample_lsa)] sample_lsdb) = Some l
    \<and> (l = mark_installed 10 sample_lsa
       \<or> newer (l_header l) (l_header (mark_installed 10 sample_lsa)))"
  by (rule lsdb_never_regresses) code_simp

end
