(* ===== verification/Ospf_State.thy ===== *)
theory Ospf_State
  imports Wire Lsdb "HOL-Library.Product_Lexorder"
begin

text \<open>
  The state the protocol code shares: timers (\<^verbatim>\<open>util/timer.py\<close>), neighbours and interfaces (the
  fields of \<^verbatim>\<open>OspfNeighbor\<close> and \<^verbatim>\<open>OspfInterface\<close>), areas (\<^verbatim>\<open>protocol/area.py\<close>) and the fields of
  \<^verbatim>\<open>OspfInstance\<close> the handlers read and write. A handler is a computation on the whole state that
  may raise; what was written before the exception stays written, as in Python. An interface object
  is named by its position in the list of interfaces created, a neighbour by its interface and its
  router id, the key it stands under in \<^verbatim>\<open>interface.neighbors\<close>.
\<close>

section \<open>States and events\<close>

datatype nbr_state =
    Nbr_Down | Nbr_Attempt | Nbr_Init | Nbr_2Way | Nbr_ExStart | Nbr_Exchange | Nbr_Loading | Nbr_Full

fun nbr_code :: "nbr_state \<Rightarrow> nat" where
  \<comment> \<open>the numbers of \<^verbatim>\<open>const.py\<close>, which the code compares\<close>
  "nbr_code Nbr_Down = 0"
| "nbr_code Nbr_Attempt = 1"
| "nbr_code Nbr_Init = 2"
| "nbr_code Nbr_2Way = 3"
| "nbr_code Nbr_ExStart = 4"
| "nbr_code Nbr_Exchange = 5"
| "nbr_code Nbr_Loading = 6"
| "nbr_code Nbr_Full = 7"

lemma nbr_code_inj: "nbr_code a = nbr_code b \<longleftrightarrow> a = b"
  by (cases a; cases b) simp_all

instantiation nbr_state :: linorder
begin

definition less_eq_nbr_state :: "nbr_state \<Rightarrow> nbr_state \<Rightarrow> bool" where
  "a \<le> b \<longleftrightarrow> nbr_code a \<le> nbr_code b"

definition less_nbr_state :: "nbr_state \<Rightarrow> nbr_state \<Rightarrow> bool" where
  "a < b \<longleftrightarrow> nbr_code a < nbr_code b"

instance
  by standard (auto simp: less_eq_nbr_state_def less_nbr_state_def nbr_code_inj)

end

lemmas nbr_order = less_eq_nbr_state_def less_nbr_state_def

datatype nbr_evt =
    Hello_Received | Nbr_Start | Two_Way_Received | Negotiation_Done | Exchange_Done | Bad_Ls_Req
  | Loading_Done | Adj_Ok | Seq_Num_Mismatch | One_Way | Kill_Nbr | Inactivity_Timer | LL_Down

datatype intf_state =
    If_Down | If_Loopback | If_Waiting | If_P2P | If_DROther | If_Backup | If_DR

datatype intf_evt =
    If_Up_Evt | Wait_Timer_Evt | Backup_Seen | Nbr_Change | Loop_Ind | Unloop_Ind | If_Down_Evt

section \<open>Timers\<close>

text \<open>
  A timer's state is the moment its \<^verbatim>\<open>asyncio\<close> handle is due. The event loop fires a handle that is
  due; a cancelled handle never fires.
\<close>

record one_shot =
  os_timeout :: time
  os_due :: "time option"

definition os_create :: "time \<Rightarrow> one_shot" where
  "os_create timeout = \<lparr>os_timeout = timeout, os_due = None\<rparr>"

definition os_cancel :: "one_shot \<Rightarrow> one_shot" where
  "os_cancel t = t\<lparr>os_due := None\<rparr>"

definition os_start :: "time \<Rightarrow> one_shot \<Rightarrow> one_shot" where
  "os_start now t = (os_cancel t)\<lparr>os_due := Some (now + os_timeout t)\<rparr>"

definition os_reset :: "time \<Rightarrow> one_shot \<Rightarrow> one_shot" where
  "os_reset now t = os_start now t"

definition os_is_running :: "one_shot \<Rightarrow> bool" where
  "os_is_running t \<longleftrightarrow> os_due t \<noteq> None"

record periodic =
  pt_interval :: time
  pt_jitter :: time
  pt_due :: "time option"
  pt_running :: bool

definition pt_create :: "time \<Rightarrow> time \<Rightarrow> periodic" where
  "pt_create interval jitter =
     \<lparr>pt_interval = interval, pt_jitter = jitter, pt_due = None, pt_running = False\<rparr>"

definition pt_schedule :: "time \<Rightarrow> rat \<Rightarrow> periodic \<Rightarrow> periodic" where
  \<comment> \<open>\<open>u\<close> in [0, 1] is the draw of \<^verbatim>\<open>random.uniform\<close>, as a fraction of its range\<close>
  "pt_schedule now u t =
     (if \<not> pt_running t then t
      else t\<lparr>pt_due := Some (now + (pt_interval t
        + (if pt_jitter t > 0 then u * (pt_interval t * pt_jitter t) else 0)))\<rparr>)"

definition pt_start :: "time \<Rightarrow> rat \<Rightarrow> periodic \<Rightarrow> periodic" where
  "pt_start now u t = (if pt_running t then t else pt_schedule now u (t\<lparr>pt_running := True\<rparr>))"

definition pt_stop :: "periodic \<Rightarrow> periodic" where
  "pt_stop t = t\<lparr>pt_running := False, pt_due := None\<rparr>"

definition pt_reset :: "time \<Rightarrow> rat \<Rightarrow> periodic \<Rightarrow> periodic" where
  "pt_reset now u t = pt_start now u (pt_stop t)"

section \<open>Neighbours, interfaces, areas\<close>

record neighbor =
  nb_router_id :: ipv4
  nb_ip_addr :: ipv4
  nb_state :: nbr_state
  nb_priority :: int
  nb_dr :: ipv4
  nb_bdr :: ipv4
  nb_options :: int
  nb_is_master :: bool
  nb_dd_seq_number :: int
  nb_dd_options :: int
  nb_dd_flags :: int
  nb_last_received_dd :: "dd_packet option"
  nb_last_sent_dd :: "dd_packet option"
  nb_db_summary_list :: "lsa_header list"
  nb_ls_request_list :: "(lsa_ident \<times> lsa_header) list"
  nb_ls_retransmission_list :: "(lsa_ident \<times> lsa) list"
  nb_inactivity_timer :: one_shot
  nb_rxmt_timer :: periodic
  nb_dd_rxmt_timer :: periodic

record ospf_interface = intf_attrs +
  is_state :: intf_state
  is_dr :: ipv4
  is_bdr :: ipv4
  is_neighbors :: "(ipv4 \<times> neighbor) list"
  is_socket :: "ipv4 set option"  \<comment> \<open>an open socket and the multicast groups it has joined\<close>
  is_hello_timer :: periodic
  is_wait_timer :: one_shot
  is_delayed_acks :: "lsa_header list"
  is_ack_timer :: periodic
  is_crypt_seq :: int

definition neighbor_create :: "ipv4 \<Rightarrow> ipv4 \<Rightarrow> 'a intf_attrs_scheme \<Rightarrow> neighbor" where
  "neighbor_create router_id ip_addr interface =
     \<lparr>nb_router_id = router_id, nb_ip_addr = ip_addr, nb_state = Nbr_Down, nb_priority = 0,
      nb_dr = 0, nb_bdr = 0, nb_options = 0, nb_is_master = False, nb_dd_seq_number = 0,
      nb_dd_options = 0, nb_dd_flags = 0, nb_last_received_dd = None, nb_last_sent_dd = None,
      nb_db_summary_list = [], nb_ls_request_list = [], nb_ls_retransmission_list = [],
      nb_inactivity_timer = os_create (of_int (if_dead_interval interface)),
      nb_rxmt_timer = pt_create (of_int (if_retransmit_interval interface)) 0,
      nb_dd_rxmt_timer = pt_create (of_int (if_retransmit_interval interface)) 0\<rparr>"

definition interface_create :: "intf_attrs \<Rightarrow> int \<Rightarrow> ospf_interface" where
  \<comment> \<open>\<open>clock\<close> is \<^verbatim>\<open>int(time.time())\<close>\<close>
  "interface_create attrs clock = intf_attrs.extend attrs
     \<lparr>is_state = If_Down, is_dr = 0, is_bdr = 0, is_neighbors = [], is_socket = None,
      is_hello_timer = pt_create (of_int (if_hello_interval attrs)) (1 / 10),
      is_wait_timer = os_create (of_int (if_dead_interval attrs)), is_delayed_acks = [],
      is_ack_timer = pt_create 1 0, is_crypt_seq = clock AND 0xFFFFFFFF\<rparr>"

definition full_neighbors :: "ospf_interface \<Rightarrow> neighbor list" where
  "full_neighbors i = filter (\<lambda>n. nb_state n = Nbr_Full) (map snd (is_neighbors i))"

definition adjacent_neighbors :: "ospf_interface \<Rightarrow> neighbor list" where
  "adjacent_neighbors i = filter (\<lambda>n. nb_state n \<ge> Nbr_Exchange) (map snd (is_neighbors i))"

record ospf_area =
  ar_area_id :: ipv4
  ar_stub :: bool
  ar_default_cost :: int
  ar_interfaces :: "nat list"

definition area_create :: "ipv4 \<Rightarrow> bool \<Rightarrow> int \<Rightarrow> ospf_area" where
  "area_create area_id stub default_cost =
     \<lparr>ar_area_id = area_id, ar_stub = stub, ar_default_cost = default_cost, ar_interfaces = []\<rparr>"

definition area_add_interface :: "nat \<Rightarrow> ospf_area \<Rightarrow> ospf_area" where
  "area_add_interface i a = a\<lparr>ar_interfaces := ar_interfaces a @ [i]\<rparr>"

definition area_remove_interface :: "nat \<Rightarrow> ospf_area \<Rightarrow> ospf_area" where
  "area_remove_interface i a = a\<lparr>ar_interfaces := filter (\<lambda>j. j \<noteq> i) (ar_interfaces a)\<rparr>"

definition area_is_backbone :: "ospf_area \<Rightarrow> bool" where
  "area_is_backbone a \<longleftrightarrow> ar_area_id a = 0"

definition area_full_neighbor_count :: "ospf_interface list \<Rightarrow> ospf_area \<Rightarrow> nat" where
  "area_full_neighbor_count intfs a =
     sum_list (map (\<lambda>i. length (full_neighbors (intfs ! i))) (ar_interfaces a))"

definition area_has_full_adjacency :: "ospf_interface list \<Rightarrow> ospf_area \<Rightarrow> bool" where
  "area_has_full_adjacency intfs a \<longleftrightarrow> (\<exists>i\<in>set (ar_interfaces a). full_neighbors (intfs ! i) \<noteq> [])"

section \<open>The world of a handler\<close>

text \<open>What the outside is told, in order: datagrams handed to an interface's socket.\<close>

datatype effect = Sent nat bytes ipv4

record world =
  w_router_id :: ipv4
  w_options :: int
  w_is_asbr :: bool
  w_spf_delay :: time
  w_spf_hold :: time
  w_lsdb :: lsdb
  w_areas :: "(ipv4 \<times> ospf_area) list"
  w_intfs :: "ospf_interface list"
  w_last_origination :: "(lsa_ident \<times> time) list"
  w_router_lsa_pending :: "(ipv4 \<times> time) list"
  w_network_lsa_pending :: "(string \<times> time) list"
  w_spf_pending :: bool
  w_spf_due :: "time option"
  w_last_spf_time :: time
  w_now :: time              \<comment> \<open>\<^verbatim>\<open>time.monotonic()\<close> while the handler runs\<close>
  w_entropy :: "nat \<Rightarrow> int"  \<comment> \<open>the random numbers to be drawn\<close>
  w_draws :: nat             \<comment> \<open>how many have been\<close>
  w_md5 :: "bytes \<Rightarrow> bytes"
  w_trace :: "effect list"

type_synonym 'a M = "world \<Rightarrow> 'a result \<times> world"

definition retM :: "'a \<Rightarrow> 'a M" where
  "retM x = (\<lambda>w. (Inr x, w))"

definition raiseM :: "py_error \<Rightarrow> 'a M" where
  "raiseM e = (\<lambda>w. (Inl e, w))"

definition bindM :: "'a M \<Rightarrow> ('a \<Rightarrow> 'b M) \<Rightarrow> 'b M" where
  "bindM m f = (\<lambda>w. case m w of (Inl e, w') \<Rightarrow> (Inl e, w') | (Inr x, w') \<Rightarrow> f x w')"

definition seqM :: "unit M \<Rightarrow> 'b M \<Rightarrow> 'b M" where
  "seqM m n = bindM m (\<lambda>_. n)"

definition liftM :: "'a result \<Rightarrow> 'a M" where
  "liftM r = (\<lambda>w. (r, w))"

definition getM :: "(world \<Rightarrow> 'a) \<Rightarrow> 'a M" where
  "getM f = (\<lambda>w. (Inr (f w), w))"

definition modM :: "(world \<Rightarrow> world) \<Rightarrow> unit M" where
  "modM f = (\<lambda>w. (Inr (), f w))"

definition whenM :: "bool \<Rightarrow> unit M \<Rightarrow> unit M" where
  "whenM b m = (if b then m else retM ())"

fun forM :: "'a list \<Rightarrow> ('a \<Rightarrow> unit M) \<Rightarrow> unit M" where
  "forM [] f = retM ()"
| "forM (x # xs) f = seqM (f x) (forM xs f)"

definition catchM :: "unit M \<Rightarrow> unit M" where
  \<comment> \<open>\<^verbatim>\<open>try: ... except Exception: log\<close>\<close>
  "catchM m = (\<lambda>w. (Inr (), snd (m w)))"

lemmas monad_defs = retM_def raiseM_def bindM_def seqM_def liftM_def getM_def modM_def whenM_def catchM_def

text \<open>For evaluation: a computation is not unfolded before it has a state to run on.\<close>

lemma retM_code [code]: "retM x w = (Inr x, w)"
  by (simp add: retM_def)

lemma raiseM_code [code]: "raiseM e w = (Inl e, w)"
  by (simp add: raiseM_def)

lemma bindM_code [code]: "bindM m f w = (case m w of (Inl e, w') \<Rightarrow> (Inl e, w') | (Inr x, w') \<Rightarrow> f x w')"
  by (simp add: bindM_def)

lemma seqM_code [code]: "seqM m n w = (case m w of (Inl e, w') \<Rightarrow> (Inl e, w') | (Inr _, w') \<Rightarrow> n w')"
  by (simp add: seqM_def bindM_def)

lemma whenM_code [code]: "whenM b m w = (if b then m w else (Inr (), w))"
  by (simp add: whenM_def retM_def)

lemma forM_code [code]:
  "forM [] f w = (Inr (), w)"
  "forM (x # xs) f w = seqM (f x) (forM xs f) w"
  by (simp_all add: retM_def)

section \<open>Reading and writing objects\<close>

definition intf_at :: "world \<Rightarrow> nat \<Rightarrow> ospf_interface" where
  "intf_at w i = w_intfs w ! i"

definition upd_intf :: "nat \<Rightarrow> (ospf_interface \<Rightarrow> ospf_interface) \<Rightarrow> world \<Rightarrow> world" where
  "upd_intf i f w = w\<lparr>w_intfs := (w_intfs w)[i := f (w_intfs w ! i)]\<rparr>"

definition nbr_at :: "world \<Rightarrow> nat \<Rightarrow> ipv4 \<Rightarrow> neighbor option" where
  "nbr_at w i r = (if i < length (w_intfs w) then map_of (is_neighbors (intf_at w i)) r else None)"

definition upd_nbr :: "nat \<Rightarrow> ipv4 \<Rightarrow> (neighbor \<Rightarrow> neighbor) \<Rightarrow> world \<Rightarrow> world" where
  \<comment> \<open>writing attributes of a neighbour that is in the dictionary\<close>
  "upd_nbr i r f = upd_intf i (\<lambda>it. it\<lparr>is_neighbors := AList.map_entry r f (is_neighbors it)\<rparr>)"

definition get_intf :: "nat \<Rightarrow> ospf_interface M" where
  \<comment> \<open>a handler holds a reference to an interface that exists\<close>
  "get_intf i = (\<lambda>w. if i < length (w_intfs w) then (Inr (intf_at w i), w) else (Inl IndexError, w))"

definition set_intf :: "nat \<Rightarrow> (ospf_interface \<Rightarrow> ospf_interface) \<Rightarrow> unit M" where
  "set_intf i f = modM (upd_intf i f)"

definition get_nbr :: "nat \<Rightarrow> ipv4 \<Rightarrow> neighbor M" where
  \<comment> \<open>the handlers hold a reference to an object of the dictionary; there is none otherwise\<close>
  "get_nbr i r = (\<lambda>w. case nbr_at w i r of None \<Rightarrow> (Inl AttributeError, w) | Some n \<Rightarrow> (Inr n, w))"

definition set_nbr :: "nat \<Rightarrow> ipv4 \<Rightarrow> (neighbor \<Rightarrow> neighbor) \<Rightarrow> unit M" where
  "set_nbr i r f = modM (upd_nbr i r f)"

definition draw :: "int M" where
  "draw = (\<lambda>w. (Inr (w_entropy w (w_draws w)), w\<lparr>w_draws := Suc (w_draws w)\<rparr>))"

definition draw_fraction :: "rat M" where
  \<comment> \<open>a draw of \<^verbatim>\<open>random.uniform\<close> as a fraction in [0, 1]\<close>
  "draw_fraction = bindM draw (\<lambda>n. retM (of_int (n mod 1001) / 1000))"

lemma bind_get_intf: "i < length (w_intfs w) \<Longrightarrow> bindM (get_intf i) f w = f (intf_at w i) w"
  by (simp add: bindM_def get_intf_def)

lemma bind_getM: "bindM (getM g) f w = f (g w) w"
  by (simp add: bindM_def getM_def)

lemma bind_retM: "bindM (retM x) f w = f x w"
  by (simp add: bindM_def retM_def)

lemma bind_get_nbr: "nbr_at w i r = Some n \<Longrightarrow> bindM (get_nbr i r) f w = f n w"
  by (simp add: bindM_def get_nbr_def)

lemma seq_modM: "seqM (modM f) m w = m (f w)"
  by (simp add: seqM_def bindM_def modM_def)

section \<open>Predicates kept by a handler\<close>

text \<open>A predicate is kept if it holds afterwards however the handler ends, by return or exception.\<close>

named_theorems keeps_intros \<open>rules for kept predicates\<close>

definition keeps :: "(world \<Rightarrow> bool) \<Rightarrow> 'a M \<Rightarrow> bool" where
  "keeps P m \<longleftrightarrow> (\<forall>w. P w \<longrightarrow> P (snd (m w)))"

lemma keepsD: "keeps P m \<Longrightarrow> P w \<Longrightarrow> m w = (x, w') \<Longrightarrow> P w'"
  unfolding keeps_def by (metis snd_conv)

lemma keeps_run: "keeps P m \<Longrightarrow> P w \<Longrightarrow> P (snd (m w))"
  by (simp add: keeps_def)

lemma keeps_simple [keeps_intros]:
  "keeps P (retM x)" "keeps P (raiseM e)" "keeps P (liftM r)" "keeps P (getM f)"
  by (simp_all add: keeps_def monad_defs)

lemma keeps_get [keeps_intros]: "keeps P (get_intf i)" "keeps P (get_nbr i r)"
  by (auto simp: keeps_def get_intf_def get_nbr_def split: option.split)

lemma keeps_bind_at:
  assumes "P w" and "keeps P m" and "\<And>x w'. m w = (Inr x, w') \<Longrightarrow> P w' \<Longrightarrow> P (snd (f x w'))"
  shows "P (snd (bindM m f w))"
proof -
  obtain y w' where m: "m w = (y, w')" by fastforce
  then have "P w'" using keepsD [OF assms(2,1)] by blast
  then show ?thesis using m assms(3) by (cases y) (auto simp: bindM_def)
qed

lemma keeps_bind [keeps_intros]: "keeps P m \<Longrightarrow> (\<And>x. keeps P (f x)) \<Longrightarrow> keeps P (bindM m f)"
  unfolding keeps_def [of P "bindM m f"] by (auto intro!: keeps_bind_at [where P = P] simp: keeps_def)

lemma keeps_seq [keeps_intros]: "keeps P m \<Longrightarrow> keeps P n \<Longrightarrow> keeps P (seqM m n)"
  by (simp add: seqM_def keeps_bind)

lemma keeps_when [keeps_intros]: "(b \<Longrightarrow> keeps P m) \<Longrightarrow> keeps P (whenM b m)"
  by (simp add: whenM_def keeps_simple)

lemma keeps_if [keeps_intros]: "(b \<Longrightarrow> keeps P m) \<Longrightarrow> (\<not> b \<Longrightarrow> keeps P n) \<Longrightarrow> keeps P (if b then m else n)"
  by simp

lemma keeps_for [keeps_intros]: "(\<And>x. keeps P (f x)) \<Longrightarrow> keeps P (forM xs f)"
  by (induction xs) (auto intro: keeps_intros)

lemma keeps_catch [keeps_intros]: "keeps P m \<Longrightarrow> keeps P (catchM m)"
  by (simp add: keeps_def catchM_def)

lemma keeps_mod: "(\<And>w. P w \<Longrightarrow> P (f w)) \<Longrightarrow> keeps P (modM f)"
  by (simp add: keeps_def modM_def)

lemma keeps_conj: "keeps P m \<Longrightarrow> keeps Q m \<Longrightarrow> keeps (\<lambda>w. P w \<and> Q w) m"
  by (simp add: keeps_def)

end
