(* ===== verification/Dr_Election.thy ===== *)
theory Dr_Election
  imports Ospf_State "HOL-Library.Multiset"
begin

text \<open>
  \<^verbatim>\<open>protocol/dr_election.py\<close>: the election of the designated router and its backup. The lemmas
  specify one pass, from which the properties of the whole election follow: the winners are
  candidates and differ, the designated router is the best of those that claim the role, a
  sitting pair is never displaced, and the order of the neighbour table does not matter.
\<close>

record candidate =
  cd_router_id :: ipv4
  cd_ip_addr :: ipv4
  cd_priority :: int
  cd_declared_dr :: ipv4
  cd_declared_bdr :: ipv4

definition cd_rank :: "candidate \<Rightarrow> int \<times> ipv4" where
  "cd_rank c = (cd_priority c, cd_router_id c)"

fun py_max :: "candidate list \<Rightarrow> candidate option" where
  \<comment> \<open>\<^verbatim>\<open>max(cs, key=lambda c: (c.priority, c.router_id))\<close>: the first of the greatest, if any\<close>
  "py_max [] = None"
| "py_max (c # cs) = Some (foldl (\<lambda>m d. if cd_rank d > cd_rank m then d else m) c cs)"

definition run_election :: "candidate list \<Rightarrow> ipv4 \<times> ipv4" where
  "run_election candidates =
     (let non_dr_declarers = filter (\<lambda>c. cd_declared_dr c \<noteq> cd_ip_addr c) candidates;
          bdr_declarers = filter (\<lambda>c. cd_declared_bdr c = cd_ip_addr c) non_dr_declarers;
          new_bdr_candidate =
            (if bdr_declarers \<noteq> [] then py_max bdr_declarers else py_max non_dr_declarers);
          new_bdr = (case new_bdr_candidate of Some c \<Rightarrow> cd_ip_addr c | None \<Rightarrow> 0);
          dr_declarers = filter (\<lambda>c. cd_declared_dr c = cd_ip_addr c) candidates
      in case py_max dr_declarers of
           Some c \<Rightarrow> (cd_ip_addr c, new_bdr)
         | None \<Rightarrow>
             (case new_bdr_candidate of
                None \<Rightarrow> (new_bdr, new_bdr)
              | Some _ \<Rightarrow>
                  let remaining = filter (\<lambda>c. cd_ip_addr c \<noteq> new_bdr) non_dr_declarers;
                      bdr_remaining = filter (\<lambda>c. cd_declared_bdr c = cd_ip_addr c) remaining;
                      alt = (if bdr_remaining \<noteq> [] then py_max bdr_remaining else py_max remaining)
                  in (new_bdr, case alt of Some c \<Rightarrow> cd_ip_addr c | None \<Rightarrow> 0)))"

fun redeclare :: "ipv4 \<Rightarrow> ipv4 \<Rightarrow> ipv4 \<Rightarrow> candidate list \<Rightarrow> candidate list" where
  \<comment> \<open>\<^verbatim>\<open>for c in candidates: if c.ip_addr == my_addr: ...; break\<close>\<close>
  "redeclare my_addr dr bdr [] = []"
| "redeclare my_addr dr bdr (c # cs) =
     (if cd_ip_addr c = my_addr then c\<lparr>cd_declared_dr := dr, cd_declared_bdr := bdr\<rparr> # cs
      else c # redeclare my_addr dr bdr cs)"

definition election_candidates :: "ipv4 \<Rightarrow> ospf_interface \<Rightarrow> candidate list" where
  "election_candidates router_id i =
     (if if_priority i > 0
      then [\<lparr>cd_router_id = router_id, cd_ip_addr = if_ip_addr i, cd_priority = if_priority i,
             cd_declared_dr = is_dr i, cd_declared_bdr = is_bdr i\<rparr>] else [])
     @ map (\<lambda>n. \<lparr>cd_router_id = nb_router_id n, cd_ip_addr = nb_ip_addr n,
             cd_priority = nb_priority n, cd_declared_dr = nb_dr n, cd_declared_bdr = nb_bdr n\<rparr>)
         (filter (\<lambda>n. nb_state n \<ge> Nbr_2Way \<and> nb_priority n > 0) (map snd (is_neighbors i)))"

definition elect_dr_bdr :: "ipv4 \<Rightarrow> ospf_interface \<Rightarrow> ipv4 \<times> ipv4" where
  "elect_dr_bdr router_id i =
     (let candidates = election_candidates router_id i in
      if candidates = [] then (0, 0)
      else
        let my_addr = if_ip_addr i;
            (new_dr, new_bdr) = run_election candidates;
            was_dr = (is_dr i = my_addr); was_bdr = (is_bdr i = my_addr);
            is_dr' = (new_dr = my_addr); is_bdr' = (new_bdr = my_addr)
        in if was_dr \<noteq> is_dr' \<or> was_bdr \<noteq> is_bdr'
           then run_election (redeclare my_addr new_dr new_bdr candidates)
           else (new_dr, new_bdr))"

section \<open>The maximum\<close>

lemma foldl_max:
  "foldl (\<lambda>m d. if cd_rank d > cd_rank m then d else m) c cs \<in> set (c # cs)
   \<and> (\<forall>d\<in>set (c # cs). cd_rank d \<le> cd_rank (foldl (\<lambda>m d. if cd_rank d > cd_rank m then d else m) c cs))"
proof (induction cs arbitrary: c)
  case Nil
  then show ?case by simp
next
  case (Cons d cs)
  let ?c = "if cd_rank d > cd_rank c then d else c"
  define m where "m = foldl (\<lambda>m d. if cd_rank d > cd_rank m then d else m) ?c cs"
  have IH: "m \<in> set (?c # cs)" "\<forall>x\<in>set (?c # cs). cd_rank x \<le> cd_rank m"
    using Cons.IH [of ?c] unfolding m_def by blast+
  have "cd_rank c \<le> cd_rank ?c" "cd_rank d \<le> cd_rank ?c" by auto
  with IH(2) have "cd_rank c \<le> cd_rank m" "cd_rank d \<le> cd_rank m"
    by (meson list.set_intros(1) order.trans)+
  with IH have "m \<in> set (c # d # cs)" "\<forall>x\<in>set (c # d # cs). cd_rank x \<le> cd_rank m"
    by (auto split: if_splits)
  then show ?case by (simp only: foldl_Cons m_def [symmetric])
qed

lemma py_max_None [simp]: "py_max cs = None \<longleftrightarrow> cs = []"
  by (cases cs) simp_all

lemma py_max_Nil [simp]: "py_max cs = Some m \<Longrightarrow> cs \<noteq> []"
  by auto

lemma py_max_in: "py_max cs = Some m \<Longrightarrow> m \<in> set cs"
  using foldl_max by (cases cs) auto

lemma py_max_ge: "py_max cs = Some m \<Longrightarrow> d \<in> set cs \<Longrightarrow> cd_rank d \<le> cd_rank m"
  using foldl_max by (cases cs) auto

lemma py_max_unique:
  assumes "inj_on cd_rank (set cs)" and "m \<in> set cs" and "\<And>d. d \<in> set cs \<Longrightarrow> cd_rank d \<le> cd_rank m"
  shows "py_max cs = Some m"
proof -
  obtain m' where m': "py_max cs = Some m'" using assms(2) by (cases "py_max cs") auto
  have "cd_rank m' = cd_rank m"
    using py_max_in [OF m'] py_max_ge [OF m'] assms(2,3) by (meson order.antisym)
  then show ?thesis using m' py_max_in [OF m'] assms(1,2) by (auto dest: inj_onD)
qed

lemma py_max_cong:
  assumes "inj_on cd_rank (set cs)" and "set cs = set cs'"
  shows "py_max cs = py_max cs'"
proof (cases "py_max cs")
  case None
  then show ?thesis using assms(2) by simp
next
  case (Some m)
  have "py_max cs' = Some m"
    using assms py_max_in [OF Some] py_max_ge [OF Some] by (intro py_max_unique) simp_all
  then show ?thesis using Some by simp
qed

lemma py_max_single: "set cs = {m} \<Longrightarrow> py_max cs = Some m"
  by (rule py_max_unique) auto

section \<open>One pass\<close>

definition claims_dr :: "candidate \<Rightarrow> bool" where
  "claims_dr c \<longleftrightarrow> cd_declared_dr c = cd_ip_addr c"

definition claims_bdr :: "candidate \<Rightarrow> bool" where
  "claims_bdr c \<longleftrightarrow> cd_declared_bdr c = cd_ip_addr c"

definition pick :: "candidate list \<Rightarrow> candidate option" where
  \<comment> \<open>the best of those that claim the backup role, else the best\<close>
  "pick cs = (if filter claims_bdr cs \<noteq> [] then py_max (filter claims_bdr cs) else py_max cs)"

abbreviation ip_of :: "candidate option \<Rightarrow> ipv4" where
  "ip_of c \<equiv> (case c of Some c \<Rightarrow> cd_ip_addr c | None \<Rightarrow> 0)"

lemma run_election_eq:
  "run_election cs =
     (let others = filter (\<lambda>c. \<not> claims_dr c) cs in
      case py_max (filter claims_dr cs) of
        Some d \<Rightarrow> (cd_ip_addr d, ip_of (pick others))
      | None \<Rightarrow>
          (case pick others of
             None \<Rightarrow> (0, 0)
           | Some b \<Rightarrow> (cd_ip_addr b, ip_of (pick (filter (\<lambda>c. cd_ip_addr c \<noteq> cd_ip_addr b) others)))))"
  by (simp add: run_election_def pick_def claims_dr_def [abs_def] claims_bdr_def [abs_def] Let_def
      cong: option.case_cong split: option.split)

lemma pick_None [simp]: "pick cs = None \<longleftrightarrow> cs = []"
  by (auto simp: pick_def)

lemma pick_in: "pick cs = Some b \<Longrightarrow> b \<in> set cs"
  by (auto simp: pick_def dest!: py_max_in split: if_splits)

lemma pick_cong:
  assumes "inj_on cd_rank (set cs)" and "set cs = set cs'"
  shows "pick cs = pick cs'"
proof -
  have "inj_on cd_rank (set (filter claims_bdr cs))" using assms(1) by (auto intro: inj_on_subset)
  moreover have "filter claims_bdr cs = [] \<longleftrightarrow> filter claims_bdr cs' = []"
    using assms(2) by (simp add: filter_empty_conv)
  ultimately show ?thesis
    using py_max_cong [of "filter claims_bdr cs" "filter claims_bdr cs'"] py_max_cong [OF assms] assms(2)
    by (simp add: pick_def)
qed

lemma run_election_cong:
  assumes "inj_on cd_rank (set cs)" and "set cs = set cs'"
  shows "run_election cs = run_election cs'"
proof -
  have inj: "inj_on cd_rank (set (filter P cs))" for P using assms(1) by (auto intro: inj_on_subset)
  have "py_max (filter P cs) = py_max (filter P cs')" "pick (filter P cs) = pick (filter P cs')" for P
    using py_max_cong [OF inj] pick_cong [OF inj] assms(2) by simp_all
  then show ?thesis by (simp add: run_election_eq Let_def cong: option.case_cong)
qed

definition candidates_ok :: "candidate list \<Rightarrow> bool" where
  \<comment> \<open>router ids and addresses identify the candidates, and no address is 0.0.0.0\<close>
  "candidates_ok cs \<longleftrightarrow> distinct (map cd_router_id cs) \<and> distinct (map cd_ip_addr cs)
     \<and> 0 \<notin> cd_ip_addr ` set cs"

lemma candidates_ok_inj:
  assumes "candidates_ok cs"
  shows "inj_on cd_rank (set cs)" and "inj_on cd_ip_addr (set cs)"
  using assms by (auto simp: candidates_ok_def distinct_map cd_rank_def inj_on_def)

lemma run_election_winners:
  assumes ok: "candidates_ok cs" and ne: "cs \<noteq> []" and r: "run_election cs = (dr, bdr)"
  shows "dr \<in> cd_ip_addr ` set cs" and "bdr = 0 \<or> bdr \<in> cd_ip_addr ` set cs" and "dr \<noteq> bdr"
proof -
  let ?others = "filter (\<lambda>c. \<not> claims_dr c) cs"
  have "dr \<in> cd_ip_addr ` set cs \<and> (bdr = 0 \<or> bdr \<in> cd_ip_addr ` set cs) \<and> dr \<noteq> bdr"
  proof (cases "py_max (filter claims_dr cs)")
    case (Some d)
    then have d: "d \<in> set cs" "claims_dr d" using py_max_in by fastforce+
    have e: "dr = cd_ip_addr d" "bdr = ip_of (pick ?others)"
      using r Some by (simp_all add: run_election_eq Let_def)
    show ?thesis
    proof (cases "pick ?others")
      case None
      then show ?thesis using e d ok by (auto simp: candidates_ok_def simp del: pick_None)
    next
      case (Some b)
      then have "b \<in> set cs" "b \<noteq> d" using pick_in d by fastforce+
      then show ?thesis
        using e d Some inj_onD [OF candidates_ok_inj(2) [OF ok], of d b] by auto
    qed
  next
    case None
    then have "?others = cs" by (simp add: filter_empty_conv)
    then obtain b where b: "pick ?others = Some b" "b \<in> set cs"
      using ne pick_in by (cases "pick ?others") auto
    let ?rest = "filter (\<lambda>c. cd_ip_addr c \<noteq> cd_ip_addr b) ?others"
    have e: "dr = cd_ip_addr b" "bdr = ip_of (pick ?rest)"
      using r None b by (auto simp: run_election_eq Let_def simp del: filter_filter)
    show ?thesis
      using e b ok by (cases "pick ?rest")
        (auto simp: candidates_ok_def simp del: pick_None dest!: pick_in)
  qed
  then show "dr \<in> cd_ip_addr ` set cs" and "bdr = 0 \<or> bdr \<in> cd_ip_addr ` set cs" and "dr \<noteq> bdr"
    by blast+
qed

lemma map_redeclare [simp]:
  "map cd_ip_addr (redeclare a dr bdr cs) = map cd_ip_addr cs"
  "map cd_router_id (redeclare a dr bdr cs) = map cd_router_id cs"
  "map cd_rank (redeclare a dr bdr cs) = map cd_rank cs"
  by (induction cs) (simp_all add: cd_rank_def)

lemma redeclare_Nil [simp]: "redeclare a dr bdr cs = [] \<longleftrightarrow> cs = []"
  by (cases cs) simp_all

lemma candidates_ok_redeclare [simp]: "candidates_ok (redeclare a dr bdr cs) = candidates_ok cs"
  by (simp only: candidates_ok_def map_redeclare flip: set_map)

lemma redeclare_eq:
  assumes "distinct (map cd_ip_addr cs)"
  shows "redeclare a dr bdr cs =
    map (\<lambda>c. if cd_ip_addr c = a then c\<lparr>cd_declared_dr := dr, cd_declared_bdr := bdr\<rparr> else c) cs"
  using assms by (induction cs) (auto simp: image_iff intro!: map_idI [symmetric])

section \<open>The election\<close>

lemma elect_dr_bdr_cases:
  assumes "election_candidates rid i \<noteq> []"
  obtains dr1 bdr1 where "run_election (election_candidates rid i) = (dr1, bdr1)"
    and "elect_dr_bdr rid i =
      (if (is_dr i = if_ip_addr i) = (dr1 = if_ip_addr i) \<and> (is_bdr i = if_ip_addr i) = (bdr1 = if_ip_addr i)
       then (dr1, bdr1)
       else run_election (redeclare (if_ip_addr i) dr1 bdr1 (election_candidates rid i)))"
  using assms by (cases "run_election (election_candidates rid i)") (auto simp: elect_dr_bdr_def Let_def)

lemma elect_winners:
  assumes ok: "candidates_ok (election_candidates rid i)" and ne: "election_candidates rid i \<noteq> []"
    and r: "elect_dr_bdr rid i = (dr, bdr)"
  shows "dr \<in> cd_ip_addr ` set (election_candidates rid i)
    \<and> (bdr = 0 \<or> bdr \<in> cd_ip_addr ` set (election_candidates rid i)) \<and> dr \<noteq> bdr"
proof -
  let ?cs = "election_candidates rid i"
  obtain dr1 bdr1 where p1: "run_election ?cs = (dr1, bdr1)"
    and e: "elect_dr_bdr rid i =
      (if (is_dr i = if_ip_addr i) = (dr1 = if_ip_addr i) \<and> (is_bdr i = if_ip_addr i) = (bdr1 = if_ip_addr i)
       then (dr1, bdr1) else run_election (redeclare (if_ip_addr i) dr1 bdr1 ?cs))"
    using ne by (rule elect_dr_bdr_cases)
  let ?cs' = "redeclare (if_ip_addr i) dr1 bdr1 ?cs"
  have ips: "cd_ip_addr ` set ?cs' = cd_ip_addr ` set ?cs"
    by (simp only: map_redeclare flip: set_map)
  show ?thesis
  proof (cases "run_election ?cs = (dr, bdr)")
    case True
    then show ?thesis using run_election_winners [OF ok ne] by blast
  next
    case False
    then have "run_election ?cs' = (dr, bdr)" using e r p1 by (auto split: if_splits)
    then show ?thesis using run_election_winners [of ?cs' dr bdr] ok ne by (simp add: ips)
  qed
qed

lemma election_candidates_empty_iff:
  "election_candidates rid i = [] \<longleftrightarrow> if_priority i \<le> 0
     \<and> (\<forall>(r, n)\<in>set (is_neighbors i). nb_state n \<ge> Nbr_2Way \<longrightarrow> nb_priority n \<le> 0)"
  by (auto simp: election_candidates_def filter_empty_conv not_less)

text \<open>The order of the neighbour table has no influence.\<close>

lemma elect_order:
  assumes ok: "candidates_ok (election_candidates rid i)"
    and perm: "mset (is_neighbors i') = mset (is_neighbors i)"
    and same: "i' = i\<lparr>is_neighbors := is_neighbors i'\<rparr>"
  shows "elect_dr_bdr rid i' = elect_dr_bdr rid i"
proof -
  let ?cs = "election_candidates rid i" and ?cs' = "election_candidates rid i'"
  have f: "if_priority i' = if_priority i" "if_ip_addr i' = if_ip_addr i" "is_dr i' = is_dr i"
    "is_bdr i' = is_bdr i" by (subst same, simp)+
  have "mset ?cs' = mset ?cs"
    using perm by (simp add: election_candidates_def f mset_filter)
  then have sets: "set ?cs' = set ?cs" and "mset (map cd_ip_addr ?cs') = mset (map cd_ip_addr ?cs)"
    by (auto dest: mset_eq_setD)
  then have dist: "distinct (map cd_ip_addr ?cs')"
    using ok by (metis candidates_ok_def mset_eq_imp_distinct_iff)
  have p1: "run_election ?cs' = run_election ?cs"
    using run_election_cong [OF candidates_ok_inj(1) [OF ok]] sets by metis
  have "run_election (redeclare a dr bdr ?cs') = run_election (redeclare a dr bdr ?cs)" for a dr bdr
  proof -
    have "set (redeclare a dr bdr ?cs) = set (redeclare a dr bdr ?cs')"
      using ok dist sets by (simp add: redeclare_eq candidates_ok_def)
    moreover have "inj_on cd_rank (set (redeclare a dr bdr ?cs))"
      using ok by (intro candidates_ok_inj) simp
    ultimately show ?thesis using run_election_cong by metis
  qed
  moreover have "?cs' = [] \<longleftrightarrow> ?cs = []" using sets by (metis set_empty)
  ultimately show ?thesis by (simp add: elect_dr_bdr_def f p1 Let_def split: prod.split)
qed

text \<open>A sitting pair stays, whatever the priorities of the others.\<close>

lemma run_election_sitting:
  assumes "D \<in> set cs" "B \<in> set cs" "B \<noteq> D"
    and D: "\<forall>c\<in>set cs. claims_dr c \<longleftrightarrow> c = D"
    and B: "\<forall>c\<in>set cs. c \<noteq> D \<longrightarrow> (claims_bdr c \<longleftrightarrow> c = B)"
  shows "run_election cs = (cd_ip_addr D, cd_ip_addr B)"
proof -
  let ?others = "filter (\<lambda>c. \<not> claims_dr c) cs"
  have "set (filter claims_dr cs) = {D}" using assms by auto
  then have "py_max (filter claims_dr cs) = Some D" by (rule py_max_single)
  moreover have "set (filter claims_bdr ?others) = {B}" using assms by auto
  then have "py_max (filter claims_bdr ?others) = Some B" and "filter claims_bdr ?others \<noteq> []"
    using py_max_single by fastforce+
  then have "pick ?others = Some B" by (simp only: pick_def) simp
  ultimately show ?thesis by (simp add: run_election_eq Let_def)
qed

lemma self_candidate:
  assumes "if_priority i > 0"
  obtains me where "me \<in> set (election_candidates rid i)" and "cd_ip_addr me = if_ip_addr i"
    and "cd_declared_dr me = is_dr i" and "cd_declared_bdr me = is_bdr i"
  using assms that [of "\<lparr>cd_router_id = rid, cd_ip_addr = if_ip_addr i, cd_priority = if_priority i,
    cd_declared_dr = is_dr i, cd_declared_bdr = is_bdr i\<rparr>"]
  by (simp add: election_candidates_def)

lemma elect_sitting:
  assumes ok: "candidates_ok (election_candidates rid i)" and pri: "if_priority i > 0"
    and D: "D \<in> set (election_candidates rid i)" and B: "B \<in> set (election_candidates rid i)" "B \<noteq> D"
    and only_D: "\<forall>c\<in>set (election_candidates rid i). claims_dr c \<longleftrightarrow> c = D"
    and only_B: "\<forall>c\<in>set (election_candidates rid i). claims_bdr c \<longleftrightarrow> c = B"
  shows "elect_dr_bdr rid i = (cd_ip_addr D, cd_ip_addr B)"
proof -
  let ?cs = "election_candidates rid i"
  have p1: "run_election ?cs = (cd_ip_addr D, cd_ip_addr B)"
    by (rule run_election_sitting) (use D B only_D only_B in auto)
  obtain me where me: "me \<in> set ?cs" "cd_ip_addr me = if_ip_addr i" "cd_declared_dr me = is_dr i"
    "cd_declared_bdr me = is_bdr i" using pri by (rule self_candidate)
  have "(is_dr i = if_ip_addr i) = (cd_ip_addr D = if_ip_addr i)"
    using only_D me D inj_onD [OF candidates_ok_inj(2) [OF ok], of me D] by (auto simp: claims_dr_def)
  moreover have "(is_bdr i = if_ip_addr i) = (cd_ip_addr B = if_ip_addr i)"
    using only_B me B inj_onD [OF candidates_ok_inj(2) [OF ok], of me B] by (auto simp: claims_bdr_def)
  ultimately show ?thesis
    using p1 D by (simp add: elect_dr_bdr_def Let_def) (auto simp: Let_def)
qed

text \<open>Nobody claims a role yet: the second pass of the runner-up makes it claim both.\<close>

lemma filter_redeclare:
  assumes "distinct (map cd_ip_addr cs)"
    and "\<And>c. c \<in> set cs \<Longrightarrow> cd_ip_addr c = a \<Longrightarrow> \<not> P (c\<lparr>cd_declared_dr := dr, cd_declared_bdr := bdr\<rparr>)"
    and "\<And>c. c \<in> set cs \<Longrightarrow> cd_ip_addr c \<noteq> a \<Longrightarrow> P c"
  shows "filter P (redeclare a dr bdr cs) = filter (\<lambda>c. cd_ip_addr c \<noteq> a) cs"
  using assms by (induction cs) (auto simp: image_iff intro!: filter_cong)

lemma pick_no_claims: "(\<And>c. c \<in> set cs \<Longrightarrow> \<not> claims_bdr c) \<Longrightarrow> pick cs = py_max cs"
  by (simp add: pick_def filter_empty_conv)

lemma elect_cold_start:
  assumes ok: "candidates_ok (election_candidates rid i)" and pri: "if_priority i > 0"
    and no: "\<forall>c\<in>set (election_candidates rid i). \<not> claims_dr c \<and> \<not> claims_bdr c"
    and M: "py_max (election_candidates rid i) = Some M"
    and S: "py_max (filter (\<lambda>c. cd_ip_addr c \<noteq> cd_ip_addr M) (election_candidates rid i)) = Some S"
  shows "elect_dr_bdr rid i =
    (if if_ip_addr i = cd_ip_addr S then (cd_ip_addr S, cd_ip_addr M) else (cd_ip_addr M, cd_ip_addr S))"
proof -
  let ?cs = "election_candidates rid i" and ?a = "if_ip_addr i"
  have dist: "distinct (map cd_ip_addr ?cs)" using ok by (simp add: candidates_ok_def)
  note inj = inj_onD [OF candidates_ok_inj(2) [OF ok]]
  have Mc: "M \<in> set ?cs" using py_max_in [OF M] .
  have Sc: "S \<in> set ?cs" "cd_ip_addr S \<noteq> cd_ip_addr M" using py_max_in [OF S] by auto
  obtain me where me: "me \<in> set ?cs" "cd_ip_addr me = ?a" "cd_declared_dr me = is_dr i"
    "cd_declared_bdr me = is_bdr i" using pri by (rule self_candidate)
  then have was: "is_dr i \<noteq> ?a" "is_bdr i \<noteq> ?a" using no by (auto simp: claims_dr_def claims_bdr_def)
  have nodr: "filter claims_dr ?cs = []" "filter (\<lambda>c. \<not> claims_dr c) ?cs = ?cs"
    using no by (simp_all add: filter_empty_conv)
  have pk: "pick ?cs = Some M" "pick (filter P ?cs) = py_max (filter P ?cs)" for P
    using no M by (auto simp: pick_no_claims intro: pick_no_claims)
  have p1: "run_election ?cs = (cd_ip_addr M, cd_ip_addr S)"
    by (simp add: run_election_eq Let_def nodr pk S)
  let ?r = "redeclare ?a (cd_ip_addr M) (cd_ip_addr S) ?cs"
  have r_eq: "?r = map (\<lambda>c. if cd_ip_addr c = ?a
      then c\<lparr>cd_declared_dr := cd_ip_addr M, cd_declared_bdr := cd_ip_addr S\<rparr> else c) ?cs"
    by (rule redeclare_eq [OF dist])
  have "run_election ?r = (cd_ip_addr M, cd_ip_addr S)" if a: "?a = cd_ip_addr M"
  proof -
    have "set (filter claims_dr ?r) = {M\<lparr>cd_declared_dr := cd_ip_addr M, cd_declared_bdr := cd_ip_addr S\<rparr>}"
      using Mc no inj a unfolding r_eq by (auto simp: claims_dr_def split: if_splits)
    then have "py_max (filter claims_dr ?r)
        = Some (M\<lparr>cd_declared_dr := cd_ip_addr M, cd_declared_bdr := cd_ip_addr S\<rparr>)"
      by (rule py_max_single)
    moreover have "filter (\<lambda>c. \<not> claims_dr c) ?r = filter (\<lambda>c. cd_ip_addr c \<noteq> ?a) ?cs"
      using no a by (intro filter_redeclare [OF dist]) (auto simp: claims_dr_def)
    ultimately show ?thesis using S pk(2) a by (simp add: run_election_eq Let_def)
  qed
  moreover have "run_election ?r = (cd_ip_addr S, cd_ip_addr M)" if a: "?a = cd_ip_addr S"
  proof -
    let ?S' = "S\<lparr>cd_declared_dr := cd_ip_addr M, cd_declared_bdr := cd_ip_addr S\<rparr>"
    have none: "filter claims_dr ?r = []" "filter (\<lambda>c. \<not> claims_dr c) ?r = ?r"
      using no a Sc(2) unfolding r_eq by (auto simp: claims_dr_def filter_empty_conv filter_id_conv)
    have s: "set (filter claims_bdr ?r) = {?S'}"
      using Sc no inj a unfolding r_eq by (auto simp: claims_bdr_def split: if_splits)
    then have "filter claims_bdr ?r \<noteq> []" by (metis empty_not_insert list.set(1))
    then have "pick ?r = Some ?S'" using py_max_single [OF s] by (simp add: pick_def)
    moreover have rest: "filter (\<lambda>c. cd_ip_addr c \<noteq> cd_ip_addr S) ?r
        = filter (\<lambda>c. cd_ip_addr c \<noteq> ?a) ?cs"
      by (rule filter_redeclare [OF dist]) (simp_all add: a)
    have "py_max (filter (\<lambda>c. cd_ip_addr c \<noteq> cd_ip_addr S) ?cs) = Some M"
    proof (rule py_max_unique)
      show "inj_on cd_rank (set (filter (\<lambda>c. cd_ip_addr c \<noteq> cd_ip_addr S) ?cs))"
        using candidates_ok_inj(1) [OF ok] by (rule inj_on_subset) auto
    qed (use Mc Sc py_max_ge [OF M] in auto)
    then have "pick (filter (\<lambda>c. cd_ip_addr c \<noteq> cd_ip_addr S) ?r) = Some M"
      by (simp only: rest [unfolded a] a pk(2))
    ultimately show ?thesis by (simp add: run_election_eq Let_def none)
  qed
  ultimately show ?thesis
    using p1 was Mc Sc(2) by (auto simp: elect_dr_bdr_def Let_def)
qed

section \<open>Properties\<close>

definition sample_nbr :: "ipv4 \<Rightarrow> ipv4 \<Rightarrow> int \<Rightarrow> ipv4 \<Rightarrow> ipv4 \<Rightarrow> neighbor" where
  "sample_nbr rid ip pri dr bdr = (neighbor_create rid ip sample_intf)
     \<lparr>nb_state := Nbr_2Way, nb_priority := pri, nb_dr := dr, nb_bdr := bdr\<rparr>"

definition sample_lan :: "neighbor list \<Rightarrow> ospf_interface" where
  \<comment> \<open>an interface with address 10 (router id 1, priority 1) and the given neighbours\<close>
  "sample_lan ns = (interface_create (sample_intf\<lparr>if_ip_addr := 10\<rparr>) 0)
     \<lparr>is_state := If_Waiting, is_neighbors := map (\<lambda>n. (nb_router_id n, n)) ns\<rparr>"

text \<open>
  C19. When someone is eligible, the designated router elected is one of the eligible routers, and the
  backup, if there is one, is a different one of them.
\<close>

theorem elect_winners_eligible:
  assumes "candidates_ok (election_candidates rid i)" and "election_candidates rid i \<noteq> []"
    and "elect_dr_bdr rid i = (dr, bdr)"
  shows "dr \<in> cd_ip_addr ` set (election_candidates rid i)
    \<and> (bdr = 0 \<or> bdr \<in> cd_ip_addr ` set (election_candidates rid i)) \<and> dr \<noteq> bdr"
  using assms by (rule elect_winners)

theorem elect_winners_eligible_witness:
  "elect_dr_bdr 1 (sample_lan [sample_nbr 2 20 5 20 0, sample_nbr 3 30 7 0 30]) = (20, 30)
   \<and> 20 \<in> cd_ip_addr ` set (election_candidates 1 (sample_lan [sample_nbr 2 20 5 20 0, sample_nbr 3 30 7 0 30]))"
proof -
  let ?i = "sample_lan [sample_nbr 2 20 5 20 0, sample_nbr 3 30 7 0 30]"
  have "candidates_ok (election_candidates 1 ?i)" "election_candidates 1 ?i \<noteq> []"
    "elect_dr_bdr 1 ?i = (20, 30)" by code_simp+
  then show ?thesis using elect_winners_eligible [of 1 ?i 20 30] by blast
qed

text \<open>
  C20. The outcome depends on which neighbours there are and not on the order in which they were
  learned.
\<close>

theorem elect_order_irrelevant:
  assumes "candidates_ok (election_candidates rid i)" and "mset nbrs = mset (is_neighbors i)"
  shows "elect_dr_bdr rid (i\<lparr>is_neighbors := nbrs\<rparr>) = elect_dr_bdr rid i"
  using assms by (intro elect_order) simp_all

theorem elect_order_irrelevant_witness:
  "elect_dr_bdr 1 ((sample_lan [sample_nbr 2 20 5 0 0, sample_nbr 3 30 7 0 0])
     \<lparr>is_neighbors := rev (is_neighbors (sample_lan [sample_nbr 2 20 5 0 0, sample_nbr 3 30 7 0 0]))\<rparr>)
   = elect_dr_bdr 1 (sample_lan [sample_nbr 2 20 5 0 0, sample_nbr 3 30 7 0 0])"
proof (rule elect_order_irrelevant)
  show "candidates_ok (election_candidates 1 (sample_lan [sample_nbr 2 20 5 0 0, sample_nbr 3 30 7 0 0]))"
    by code_simp
qed simp

text \<open>
  C18. A designated router and a backup that both claim their roles, and are alone to claim them, are
  re-elected by every eligible router whatever the priorities and router ids of the others: a newly
  arrived router never preempts a sitting one.
\<close>

theorem sitting_routers_not_preempted:
  assumes "candidates_ok (election_candidates rid i)" and "if_priority i > 0"
    and "D \<in> set (election_candidates rid i)" and "B \<in> set (election_candidates rid i)" and "B \<noteq> D"
    and "\<forall>c\<in>set (election_candidates rid i). cd_declared_dr c = cd_ip_addr c \<longleftrightarrow> c = D"
    and "\<forall>c\<in>set (election_candidates rid i). cd_declared_bdr c = cd_ip_addr c \<longleftrightarrow> c = B"
  shows "elect_dr_bdr rid i = (cd_ip_addr D, cd_ip_addr B)"
  using assms by (intro elect_sitting) (auto simp: claims_dr_def claims_bdr_def)

theorem sitting_routers_not_preempted_witness:
  "elect_dr_bdr 1 (sample_lan [sample_nbr 2 20 2 20 30, sample_nbr 3 30 1 20 30, sample_nbr 4 40 255 0 0])
   = (20, 30)"
proof -
  let ?i = "sample_lan [sample_nbr 2 20 2 20 30, sample_nbr 3 30 1 20 30, sample_nbr 4 40 255 0 0]"
  let ?D = "\<lparr>cd_router_id = 2, cd_ip_addr = 20, cd_priority = 2, cd_declared_dr = 20, cd_declared_bdr = 30\<rparr>"
  let ?B = "\<lparr>cd_router_id = 3, cd_ip_addr = 30, cd_priority = 1, cd_declared_dr = 20, cd_declared_bdr = 30\<rparr>"
  have "candidates_ok (election_candidates 1 ?i)" "if_priority ?i > 0"
    "?D \<in> set (election_candidates 1 ?i)" "?B \<in> set (election_candidates 1 ?i)" "?B \<noteq> ?D"
    "\<forall>c\<in>set (election_candidates 1 ?i). cd_declared_dr c = cd_ip_addr c \<longleftrightarrow> c = ?D"
    "\<forall>c\<in>set (election_candidates 1 ?i). cd_declared_bdr c = cd_ip_addr c \<longleftrightarrow> c = ?B"
    by code_simp+
  from sitting_routers_not_preempted [OF this] show ?thesis by simp
qed

text \<open>
  C21. On a network where nobody claims a role yet, every eligible router elects the best two, except
  the second best: its second pass promotes itself to designated router with the best one as
  backup, so that two routers claim the role at first.
\<close>

theorem cold_start_split:
  assumes "candidates_ok (election_candidates rid i)" and "if_priority i > 0"
    and "\<forall>c\<in>set (election_candidates rid i).
      cd_declared_dr c \<noteq> cd_ip_addr c \<and> cd_declared_bdr c \<noteq> cd_ip_addr c"
    and "py_max (election_candidates rid i) = Some M"
    and "py_max (filter (\<lambda>c. cd_ip_addr c \<noteq> cd_ip_addr M) (election_candidates rid i)) = Some S"
  shows "elect_dr_bdr rid i =
    (if if_ip_addr i = cd_ip_addr S then (cd_ip_addr S, cd_ip_addr M) else (cd_ip_addr M, cd_ip_addr S))"
  using assms by (intro elect_cold_start) (auto simp: claims_dr_def claims_bdr_def)

theorem cold_start_split_witness:
  "elect_dr_bdr 1 (sample_lan [sample_nbr 2 20 5 0 0]) = (10, 20)"
proof -
  let ?i = "sample_lan [sample_nbr 2 20 5 0 0]"
  let ?M = "\<lparr>cd_router_id = 2, cd_ip_addr = 20, cd_priority = 5, cd_declared_dr = 0, cd_declared_bdr = 0\<rparr>"
  let ?S = "\<lparr>cd_router_id = 1, cd_ip_addr = 10, cd_priority = 1, cd_declared_dr = 0, cd_declared_bdr = 0\<rparr>"
  have "candidates_ok (election_candidates 1 ?i)" "if_priority ?i > 0"
    "\<forall>c\<in>set (election_candidates 1 ?i).
      cd_declared_dr c \<noteq> cd_ip_addr c \<and> cd_declared_bdr c \<noteq> cd_ip_addr c"
    "py_max (election_candidates 1 ?i) = Some ?M"
    "py_max (filter (\<lambda>c. cd_ip_addr c \<noteq> cd_ip_addr ?M) (election_candidates 1 ?i)) = Some ?S"
    by code_simp+
  from cold_start_split [OF this] show ?thesis by (simp add: sample_lan_def interface_create_def intf_attrs.defs)
qed

end
