(* ===== verification/Fsm.thy ===== *)
theory Fsm
  imports Dr_Election
begin

text \<open>
  The neighbour and interface state machines (\<^verbatim>\<open>protocol/neighbor.py\<close>, \<^verbatim>\<open>protocol/interface.py\<close>)
  with the packets they send and the handlers that drive them. A neighbour event may change the
  neighbour's state, which tells the interface, which may re-run the election, which sends events
  to the neighbours: the four functions call each other, so the model gives them a call depth as
  fuel and Python's \<^verbatim>\<open>RecursionError\<close> for its end. The theory \<open>Fsm_Cascade\<close> shows that eight nested
  calls are always enough.
\<close>

section \<open>Instance services\<close>

definition schedule_router_lsa :: "ipv4 \<Rightarrow> unit M" where
  "schedule_router_lsa area = modM (\<lambda>w.
     if map_of (w_router_lsa_pending w) area \<noteq> None then w
     else w\<lparr>w_router_lsa_pending := AList.update area (w_now w + 1) (w_router_lsa_pending w)\<rparr>)"

definition schedule_network_lsa :: "nat \<Rightarrow> unit M" where
  "schedule_network_lsa i = modM (\<lambda>w.
     let key = if_name (intf_at w i) in
     if map_of (w_network_lsa_pending w) key \<noteq> None then w
     else w\<lparr>w_network_lsa_pending := AList.update key (w_now w + 1) (w_network_lsa_pending w)\<rparr>)"

definition schedule_spf :: "unit M" where
  "schedule_spf = modM (\<lambda>w.
     if w_spf_pending w then w
     else
       let elapsed = w_now w - w_last_spf_time w;
           delay = max 0 (w_spf_delay w);
           delay = (if elapsed < w_spf_hold w then max delay (w_spf_hold w - elapsed) else delay)
       in w\<lparr>w_spf_pending := True, w_spf_due := Some (w_now w + delay)\<rparr>)"

section \<open>Sending\<close>

definition all_spf_routers :: ipv4 where "all_spf_routers = 0xE0000005"
definition all_d_routers :: ipv4 where "all_d_routers = 0xE0000006"

definition send_packet :: "nat \<Rightarrow> int \<Rightarrow> bytes \<Rightarrow> ipv4 \<Rightarrow> unit M" where
  "send_packet i pkt_type body dest =
     bindM (get_intf i) (\<lambda>it.
     if is_socket it = None then retM ()
     else
       bindM (getM w_router_id) (\<lambda>rid.
       bindM (liftM (checksummed_packet rid it pkt_type body)) (\<lambda>raw.
       seqM (set_intf i (is_crypt_seq_update (\<lambda>s. (s + 1) AND 0xFFFFFFFF))) (
       bindM (get_intf i) (\<lambda>it.
       bindM (getM w_md5) (\<lambda>md5.
       bindM (liftM (apply_auth md5 raw (if_auth_type it) (if_auth_key it) (if_auth_key_id it)
               (is_crypt_seq it))) (\<lambda>final.
       modM (\<lambda>w. w\<lparr>w_trace := w_trace w @ [Sent i final dest]\<rparr>))))))))"

definition send_hello :: "nat \<Rightarrow> unit M" where
  "send_hello i =
     bindM (get_intf i) (\<lambda>it.
     if if_passive it then retM ()
     else
       bindM (getM w_options) (\<lambda>opts.
       let hello = \<lparr>hp_network_mask = if_ip_mask it, hp_hello_interval = if_hello_interval it,
             hp_options = opts, hp_priority = if_priority it, hp_dead_interval = if_dead_interval it,
             hp_designated_router = is_dr it, hp_backup_designated_router = is_bdr it,
             hp_neighbors = map nb_router_id (filter (\<lambda>n. nb_state n \<ge> Nbr_Init) (map snd (is_neighbors it)))\<rparr>
       in if if_type it = 2 \<or> if_type it = 1 \<or> if_type it = 4
          then bindM (liftM (hello_serialize hello)) (\<lambda>body. send_packet i 1 body all_spf_routers)
          else forM (map snd (is_neighbors it)) (\<lambda>n.
            bindM (liftM (hello_serialize hello)) (\<lambda>body. send_packet i 1 body (nb_ip_addr n)))))"

definition start_hello :: "nat \<Rightarrow> unit M" where
  "start_hello i =
     bindM (get_intf i) (\<lambda>it. bindM (getM w_now) (\<lambda>now.
     seqM (if pt_running (is_hello_timer it) then retM ()
           else bindM draw_fraction (\<lambda>u. set_intf i (is_hello_timer_update (pt_start now u))))
     (seqM (set_intf i (is_ack_timer_update (pt_start now 0)))
       (send_hello i))))"

definition stop_all :: "nat \<Rightarrow> unit M" where
  "stop_all i = set_intf i (\<lambda>it. it\<lparr>is_hello_timer := pt_stop (is_hello_timer it),
     is_wait_timer := os_cancel (is_wait_timer it), is_ack_timer := pt_stop (is_ack_timer it)\<rparr>)"

definition clear_lists :: "neighbor \<Rightarrow> neighbor" where
  "clear_lists n = n\<lparr>nb_db_summary_list := [], nb_ls_request_list := [],
     nb_ls_retransmission_list := [], nb_last_received_dd := None\<rparr>"

definition send_dd :: "nat \<Rightarrow> ipv4 \<Rightarrow> int \<Rightarrow> lsa_header list \<Rightarrow> unit M" where
  "send_dd i r flags headers =
     bindM (get_intf i) (\<lambda>it. bindM (get_nbr i r) (\<lambda>n. bindM (getM w_options) (\<lambda>opts.
       let dd = \<lparr>dd_interface_mtu = if_mtu it, dd_options = opts, dd_flags = flags,
             dd_seq_number = nb_dd_seq_number n, dd_lsa_headers = headers\<rparr>
       in bindM (liftM (dd_serialize dd)) (\<lambda>body.
          seqM (send_packet i 2 body (nb_ip_addr n))
            (set_nbr i r (nb_last_sent_dd_update (\<lambda>_. Some dd)))))))"

definition pop_headers :: "nat \<Rightarrow> ipv4 \<Rightarrow> lsa_header list M" where
  \<comment> \<open>the next headers that fit the interface's MTU, taken off the summary list\<close>
  "pop_headers i r =
     bindM (get_intf i) (\<lambda>it. bindM (get_nbr i r) (\<lambda>n.
       let max_headers = nat ((if_mtu it - 24 - 8) div 20) in
       seqM (set_nbr i r (nb_db_summary_list_update (drop max_headers)))
         (retM (take max_headers (nb_db_summary_list n)))))"

definition send_dd_master :: "nat \<Rightarrow> ipv4 \<Rightarrow> unit M" where
  "send_dd_master i r =
     bindM (pop_headers i r) (\<lambda>headers. bindM (get_nbr i r) (\<lambda>n.
       let flags = (if nb_db_summary_list n \<noteq> [] then 0x02 else 0) OR 0x01 in
       send_dd i r flags headers))"

definition send_dd_slave :: "nat \<Rightarrow> ipv4 \<Rightarrow> unit M" where
  "send_dd_slave i r =
     bindM (pop_headers i r) (\<lambda>headers. bindM (get_nbr i r) (\<lambda>n.
       let flags = (if nb_db_summary_list n \<noteq> [] then 0x02 else 0) in
       send_dd i r flags headers))"

definition retransmit_last_dd :: "nat \<Rightarrow> ipv4 \<Rightarrow> unit M" where
  "retransmit_last_dd i r =
     bindM (get_nbr i r) (\<lambda>n. case nb_last_sent_dd n of
       None \<Rightarrow> retM ()
     | Some dd \<Rightarrow> bindM (liftM (dd_serialize dd)) (\<lambda>body. send_packet i 2 body (nb_ip_addr n)))"

definition send_ls_request :: "nat \<Rightarrow> ipv4 \<Rightarrow> unit M" where
  "send_ls_request i r =
     bindM (get_nbr i r) (\<lambda>n.
     if nb_ls_request_list n = [] then retM ()
     else
       let batch = take 10 (map snd (nb_ls_request_list n));
           items = map (\<lambda>h. \<lparr>li_ls_type = lh_ls_type h, li_link_state_id = lh_link_state_id h,
             li_advertising_router = lh_advertising_router h\<rparr>) batch
       in bindM (liftM (lsr_serialize items)) (\<lambda>body.
          seqM (send_packet i 3 body (nb_ip_addr n))
            (bindM (getM w_now) (\<lambda>now. set_nbr i r (nb_rxmt_timer_update (pt_start now 0))))))"

definition start_dd_exchange :: "nat \<Rightarrow> ipv4 \<Rightarrow> unit M" where
  "start_dd_exchange i r =
     bindM draw (\<lambda>x.
     seqM (set_nbr i r (\<lambda>n. n\<lparr>nb_dd_seq_number := x mod 4294967296 AND 0x7FFFFFFF,
             nb_is_master := True, nb_db_summary_list := [], nb_ls_request_list := [],
             nb_ls_retransmission_list := []\<rparr>))
     (seqM (send_dd i r 0x07 [])
       (bindM (getM w_now) (\<lambda>now. set_nbr i r (nb_dd_rxmt_timer_update (pt_start now 0))))))"

section \<open>Neighbour actions\<close>

definition should_form_adjacency :: "ospf_interface \<Rightarrow> neighbor \<Rightarrow> bool" where
  "should_form_adjacency it n =
     (if if_type it = 1 \<or> if_type it = 4 \<or> if_type it = 5 then True
      else if is_dr it = if_ip_addr it \<or> is_bdr it = if_ip_addr it then True
      else if nb_ip_addr n = is_dr it \<or> nb_ip_addr n = is_bdr it then True
      else False)"

datatype nbr_action =
    Hello_Received_Down | Hello_Received_Any | Start_Action | Two_Way_Action | Adj_Ok_2Way
  | Adj_Ok_Adjformed | Negotiation_Done_Action | Exchange_Done_Action | Loading_Done_Action
  | Seq_Num_Mismatch_Action | Bad_Ls_Req_Action | One_Way_Action

definition nbr_fsm :: "nbr_state \<Rightarrow> nbr_evt \<Rightarrow> nbr_action option" where
  "nbr_fsm s e = (case s of
    Nbr_Down \<Rightarrow> (case e of
        Hello_Received \<Rightarrow> Some Hello_Received_Down
      | Nbr_Start \<Rightarrow> Some Start_Action
      | _ \<Rightarrow> None)
  | Nbr_Attempt \<Rightarrow> None
  | Nbr_Init \<Rightarrow> (case e of
        Hello_Received \<Rightarrow> Some Hello_Received_Any
      | Two_Way_Received \<Rightarrow> Some Two_Way_Action
      | _ \<Rightarrow> None)
  | Nbr_2Way \<Rightarrow> (case e of
        Hello_Received \<Rightarrow> Some Hello_Received_Any
      | Adj_Ok \<Rightarrow> Some Adj_Ok_2Way
      | One_Way \<Rightarrow> Some One_Way_Action
      | _ \<Rightarrow> None)
  | Nbr_ExStart \<Rightarrow> (case e of
        Hello_Received \<Rightarrow> Some Hello_Received_Any
      | Negotiation_Done \<Rightarrow> Some Negotiation_Done_Action
      | Adj_Ok \<Rightarrow> Some Adj_Ok_Adjformed
      | Seq_Num_Mismatch \<Rightarrow> Some Seq_Num_Mismatch_Action
      | One_Way \<Rightarrow> Some One_Way_Action
      | _ \<Rightarrow> None)
  | Nbr_Exchange \<Rightarrow> (case e of
        Hello_Received \<Rightarrow> Some Hello_Received_Any
      | Exchange_Done \<Rightarrow> Some Exchange_Done_Action
      | Adj_Ok \<Rightarrow> Some Adj_Ok_Adjformed
      | Seq_Num_Mismatch \<Rightarrow> Some Seq_Num_Mismatch_Action
      | Bad_Ls_Req \<Rightarrow> Some Bad_Ls_Req_Action
      | One_Way \<Rightarrow> Some One_Way_Action
      | _ \<Rightarrow> None)
  | Nbr_Loading \<Rightarrow> (case e of
        Hello_Received \<Rightarrow> Some Hello_Received_Any
      | Loading_Done \<Rightarrow> Some Loading_Done_Action
      | Adj_Ok \<Rightarrow> Some Adj_Ok_Adjformed
      | Seq_Num_Mismatch \<Rightarrow> Some Seq_Num_Mismatch_Action
      | Bad_Ls_Req \<Rightarrow> Some Bad_Ls_Req_Action
      | One_Way \<Rightarrow> Some One_Way_Action
      | _ \<Rightarrow> None)
  | Nbr_Full \<Rightarrow> (case e of
        Hello_Received \<Rightarrow> Some Hello_Received_Any
      | Adj_Ok \<Rightarrow> Some Adj_Ok_Adjformed
      | Seq_Num_Mismatch \<Rightarrow> Some Seq_Num_Mismatch_Action
      | Bad_Ls_Req \<Rightarrow> Some Bad_Ls_Req_Action
      | One_Way \<Rightarrow> Some One_Way_Action
      | _ \<Rightarrow> None))"

definition stop_dd_timers :: "neighbor \<Rightarrow> neighbor" where
  "stop_dd_timers n = n\<lparr>nb_dd_rxmt_timer := pt_stop (nb_dd_rxmt_timer n),
     nb_rxmt_timer := pt_stop (nb_rxmt_timer n)\<rparr>"

definition set_nbr_state :: "nbr_state \<Rightarrow> neighbor \<Rightarrow> neighbor" where
  "set_nbr_state s n = n\<lparr>nb_state := s\<rparr>"

definition form_adjacency :: "nat \<Rightarrow> ipv4 \<Rightarrow> unit M" where
  "form_adjacency i r = seqM (set_nbr i r (set_nbr_state Nbr_ExStart)) (start_dd_exchange i r)"

definition seq_num_mismatch :: "nat \<Rightarrow> ipv4 \<Rightarrow> unit M" where
  "seq_num_mismatch i r =
     seqM (set_nbr i r (\<lambda>n. clear_lists (set_nbr_state Nbr_ExStart n))) (start_dd_exchange i r)"

fun run_nbr_action :: "nat \<Rightarrow> ipv4 \<Rightarrow> nbr_action \<Rightarrow> unit M" where
  "run_nbr_action i r Hello_Received_Down = bindM (getM w_now) (\<lambda>now.
     set_nbr i r (\<lambda>n. nb_inactivity_timer_update (os_start now) (set_nbr_state Nbr_Init n)))"
| "run_nbr_action i r Hello_Received_Any = bindM (getM w_now) (\<lambda>now.
     set_nbr i r (nb_inactivity_timer_update (os_reset now)))"
| "run_nbr_action i r Start_Action = bindM (getM w_now) (\<lambda>now.
     set_nbr i r (\<lambda>n. nb_inactivity_timer_update (os_start now) (set_nbr_state Nbr_Attempt n)))"
| "run_nbr_action i r Two_Way_Action = bindM (get_intf i) (\<lambda>it. bindM (get_nbr i r) (\<lambda>n.
     if should_form_adjacency it n then form_adjacency i r
     else set_nbr i r (set_nbr_state Nbr_2Way)))"
| "run_nbr_action i r Adj_Ok_2Way = bindM (get_intf i) (\<lambda>it. bindM (get_nbr i r) (\<lambda>n.
     if should_form_adjacency it n then form_adjacency i r else retM ()))"
| "run_nbr_action i r Adj_Ok_Adjformed = bindM (get_intf i) (\<lambda>it. bindM (get_nbr i r) (\<lambda>n.
     if \<not> should_form_adjacency it n
     then set_nbr i r (\<lambda>n. stop_dd_timers (clear_lists (set_nbr_state Nbr_2Way n)))
     else retM ()))"
| "run_nbr_action i r Negotiation_Done_Action = bindM (get_intf i) (\<lambda>it. bindM (getM w_lsdb) (\<lambda>d.
     set_nbr i r (\<lambda>n. (set_nbr_state Nbr_Exchange n)
       \<lparr>nb_db_summary_list := get_all_headers (if_area_id it) d\<rparr>)))"
| "run_nbr_action i r Exchange_Done_Action = bindM (get_nbr i r) (\<lambda>n.
     if nb_ls_request_list n \<noteq> []
     then seqM (set_nbr i r (set_nbr_state Nbr_Loading)) (send_ls_request i r)
     else set_nbr i r (\<lambda>n. nb_rxmt_timer_update pt_stop (set_nbr_state Nbr_Full n)))"
| "run_nbr_action i r Loading_Done_Action = set_nbr i r (set_nbr_state Nbr_Full)"
| "run_nbr_action i r Seq_Num_Mismatch_Action = seq_num_mismatch i r"
| "run_nbr_action i r Bad_Ls_Req_Action = seq_num_mismatch i r"
| "run_nbr_action i r One_Way_Action =
     set_nbr i r (\<lambda>n. stop_dd_timers (clear_lists (set_nbr_state Nbr_Init n)))"

definition go_down_reset :: "neighbor \<Rightarrow> neighbor" where
  \<comment> \<open>\<^verbatim>\<open>_go_down\<close> up to the notification\<close>
  "go_down_reset n = stop_dd_timers (nb_inactivity_timer_update os_cancel
     (clear_lists (set_nbr_state Nbr_Down n)))"

section \<open>Interface actions\<close>

datatype intf_action =
    If_Up_Action | Wait_Timer_Action | Backup_Seen_Action | Nbr_Change_Action | Loop_Ind_Action
  | Unloop_Ind_Action | If_Down_Action

definition intf_fsm :: "intf_state \<Rightarrow> intf_evt \<Rightarrow> intf_action option" where
  "intf_fsm s e = (case s of
    If_Down \<Rightarrow> (case e of
        If_Up_Evt \<Rightarrow> Some If_Up_Action
      | Loop_Ind \<Rightarrow> Some Loop_Ind_Action
      | _ \<Rightarrow> None)
  | If_Loopback \<Rightarrow> (case e of
        Unloop_Ind \<Rightarrow> Some Unloop_Ind_Action
      | If_Down_Evt \<Rightarrow> Some If_Down_Action
      | _ \<Rightarrow> None)
  | If_Waiting \<Rightarrow> (case e of
        Wait_Timer_Evt \<Rightarrow> Some Wait_Timer_Action
      | Backup_Seen \<Rightarrow> Some Backup_Seen_Action
      | If_Down_Evt \<Rightarrow> Some If_Down_Action
      | Loop_Ind \<Rightarrow> Some Loop_Ind_Action
      | _ \<Rightarrow> None)
  | If_P2P \<Rightarrow> (case e of
        If_Down_Evt \<Rightarrow> Some If_Down_Action
      | Loop_Ind \<Rightarrow> Some Loop_Ind_Action
      | _ \<Rightarrow> None)
  | If_DROther \<Rightarrow> (case e of
        Nbr_Change \<Rightarrow> Some Nbr_Change_Action
      | If_Down_Evt \<Rightarrow> Some If_Down_Action
      | Loop_Ind \<Rightarrow> Some Loop_Ind_Action
      | _ \<Rightarrow> None)
  | If_Backup \<Rightarrow> (case e of
        Nbr_Change \<Rightarrow> Some Nbr_Change_Action
      | If_Down_Evt \<Rightarrow> Some If_Down_Action
      | Loop_Ind \<Rightarrow> Some Loop_Ind_Action
      | _ \<Rightarrow> None)
  | If_DR \<Rightarrow> (case e of
        Nbr_Change \<Rightarrow> Some Nbr_Change_Action
      | If_Down_Evt \<Rightarrow> Some If_Down_Action
      | Loop_Ind \<Rightarrow> Some Loop_Ind_Action
      | _ \<Rightarrow> None))"

definition set_intf_state :: "nat \<Rightarrow> intf_state \<Rightarrow> unit M" where
  "set_intf_state i s = set_intf i (is_state_update (\<lambda>_. s))"

definition join_group :: "ipv4 \<Rightarrow> ospf_interface \<Rightarrow> ospf_interface" where
  "join_group g = is_socket_update (map_option (insert g))"

definition leave_group :: "ipv4 \<Rightarrow> ospf_interface \<Rightarrow> ospf_interface" where
  "leave_group g = is_socket_update (map_option (\<lambda>gs. gs - {g}))"

definition election_state :: "ipv4 \<Rightarrow> ipv4 \<Rightarrow> ipv4 \<Rightarrow> intf_state" where
  "election_state my_addr dr bdr =
     (if dr = my_addr then If_DR else if bdr = my_addr then If_Backup else If_DROther)"

definition apply_election :: "ipv4 \<Rightarrow> ospf_interface \<Rightarrow> ospf_interface" where
  \<comment> \<open>the part of \<^verbatim>\<open>_run_dr_election\<close> that changes the interface\<close>
  "apply_election rid it =
     (let (new_dr, new_bdr) = elect_dr_bdr rid it;
          it = it\<lparr>is_dr := new_dr, is_bdr := new_bdr,
                  is_state := election_state (if_ip_addr it) new_dr new_bdr\<rparr>
      in if is_state it = If_DR \<or> is_state it = If_Backup then join_group all_d_routers it
         else leave_group all_d_routers it)"

section \<open>The event cascade\<close>

text \<open>
  The four methods that call each other. Each takes the calls it makes as the argument \<open>call\<close>;
  \<open>cascade\<close> ties the knot, one unit of fuel per nested call.
\<close>

datatype call =
    Neighbor_Event nat ipv4 nbr_evt
  | Neighbor_State_Changed nat ipv4 nbr_state
  | Interface_Event nat intf_evt
  | Run_Dr_Election nat

definition neighbor_event :: "(call \<Rightarrow> unit M) \<Rightarrow> nat \<Rightarrow> ipv4 \<Rightarrow> nbr_evt \<Rightarrow> unit M" where
  "neighbor_event call i r e =
     bindM (get_nbr i r) (\<lambda>n. let old_state = nb_state n in
     seqM
       (case nbr_fsm old_state e of
          Some a \<Rightarrow> run_nbr_action i r a
        | None \<Rightarrow>
            if e = Kill_Nbr \<or> e = LL_Down \<or> e = Inactivity_Timer
            then seqM (set_nbr i r go_down_reset)
              (whenM (old_state \<noteq> Nbr_Down) (call (Neighbor_State_Changed i r old_state)))
            else retM ())
       (bindM (get_nbr i r) (\<lambda>n'.
          whenM (nb_state n' \<noteq> old_state) (call (Neighbor_State_Changed i r old_state)))))"

definition crosses_2way :: "nbr_state \<Rightarrow> nbr_state \<Rightarrow> bool" where
  "crosses_2way old_state new_state \<longleftrightarrow>
     old_state < Nbr_2Way \<and> Nbr_2Way \<le> new_state \<or> old_state \<ge> Nbr_2Way \<and> Nbr_2Way > new_state"

definition neighbor_state_changed :: "(call \<Rightarrow> unit M) \<Rightarrow> nat \<Rightarrow> ipv4 \<Rightarrow> nbr_state \<Rightarrow> unit M" where
  "neighbor_state_changed call i r old_state =
     bindM (get_intf i) (\<lambda>it. bindM (get_nbr i r) (\<lambda>n.
     seqM
       (whenM ((if_type it = 2 \<or> if_type it = 3) \<and> crosses_2way old_state (nb_state n))
         (call (Interface_Event i Nbr_Change)))
     (seqM (schedule_router_lsa (if_area_id it))
       (bindM (get_intf i) (\<lambda>it. whenM (is_state it = If_DR) (schedule_network_lsa i))))))"

definition if_up_action :: "(call \<Rightarrow> unit M) \<Rightarrow> nat \<Rightarrow> unit M" where
  "if_up_action call i =
     bindM (get_intf i) (\<lambda>it.
     if if_passive it then set_intf_state i If_Loopback
     else seqM
       (if if_type it = 2 \<or> if_type it = 3 then
          (if if_priority it = 0
           then seqM (set_intf_state i If_DROther) (seqM (start_hello i) (call (Run_Dr_Election i)))
           else seqM (set_intf_state i If_Waiting) (seqM (start_hello i)
             (bindM (getM w_now) (\<lambda>now. set_intf i (is_wait_timer_update (os_start now))))))
        else if if_type it = 1 \<or> if_type it = 4 \<or> if_type it = 5
        then seqM (set_intf_state i If_P2P) (start_hello i)
        else retM ())
       (set_intf i (join_group all_spf_routers)))"

definition if_down_action :: "(call \<Rightarrow> unit M) \<Rightarrow> nat \<Rightarrow> unit M" where
  "if_down_action call i =
     seqM (set_intf_state i If_Down) (seqM (stop_all i)
       (seqM (bindM (get_intf i) (\<lambda>it.
           forM (map fst (is_neighbors it)) (\<lambda>r. call (Neighbor_Event i r Kill_Nbr))))
         (set_intf i (\<lambda>it. it\<lparr>is_neighbors := [], is_dr := 0, is_bdr := 0\<rparr>))))"

fun run_intf_action :: "(call \<Rightarrow> unit M) \<Rightarrow> nat \<Rightarrow> intf_action \<Rightarrow> unit M" where
  "run_intf_action call i If_Up_Action = if_up_action call i"
| "run_intf_action call i Wait_Timer_Action = call (Run_Dr_Election i)"
| "run_intf_action call i Backup_Seen_Action =
     seqM (set_intf i (is_wait_timer_update os_cancel)) (call (Run_Dr_Election i))"
| "run_intf_action call i Nbr_Change_Action = call (Run_Dr_Election i)"
| "run_intf_action call i Loop_Ind_Action = seqM (set_intf_state i If_Loopback) (stop_all i)"
| "run_intf_action call i Unloop_Ind_Action = set_intf_state i If_Down"
| "run_intf_action call i If_Down_Action = if_down_action call i"

definition intf_state_changed :: "nat \<Rightarrow> unit M" where
  "intf_state_changed i = bindM (get_intf i) (\<lambda>it.
     seqM (schedule_router_lsa (if_area_id it))
       (whenM (is_state it = If_DR) (schedule_network_lsa i)))"

definition interface_event :: "(call \<Rightarrow> unit M) \<Rightarrow> nat \<Rightarrow> intf_evt \<Rightarrow> unit M" where
  "interface_event call i e =
     bindM (get_intf i) (\<lambda>it. let old_state = is_state it in
     seqM
       (case intf_fsm old_state e of None \<Rightarrow> retM () | Some a \<Rightarrow> run_intf_action call i a)
       (bindM (get_intf i) (\<lambda>it. whenM (is_state it \<noteq> old_state) (intf_state_changed i))))"

definition run_dr_election :: "(call \<Rightarrow> unit M) \<Rightarrow> nat \<Rightarrow> unit M" where
  "run_dr_election call i =
     bindM (get_intf i) (\<lambda>it. bindM (getM w_router_id) (\<lambda>rid.
     seqM (set_intf i (apply_election rid))
     (bindM (get_intf i) (\<lambda>it'.
       whenM (is_dr it \<noteq> is_dr it' \<or> is_bdr it \<noteq> is_bdr it')
         (forM (map fst (is_neighbors it')) (\<lambda>r. bindM (get_nbr i r) (\<lambda>n.
            whenM (nb_state n \<ge> Nbr_2Way) (call (Neighbor_Event i r Adj_Ok)))))))))"

fun run_call :: "(call \<Rightarrow> unit M) \<Rightarrow> call \<Rightarrow> unit M" where
  "run_call call (Neighbor_Event i r e) = neighbor_event call i r e"
| "run_call call (Neighbor_State_Changed i r old_state) = neighbor_state_changed call i r old_state"
| "run_call call (Interface_Event i e) = interface_event call i e"
| "run_call call (Run_Dr_Election i) = run_dr_election call i"

fun cascade :: "nat \<Rightarrow> call \<Rightarrow> unit M" where
  "cascade 0 c = raiseM RecursionError"
| "cascade (Suc fuel) c = run_call (cascade fuel) c"

lemma cascade_code [code]:
  "cascade 0 c w = (Inl RecursionError, w)"
  "cascade (Suc fuel) c w = run_call (cascade fuel) c w"
  by (simp_all add: raiseM_def)

definition nbr_event :: "nat \<Rightarrow> ipv4 \<Rightarrow> nbr_evt \<Rightarrow> unit M" where
  "nbr_event i r e = cascade 8 (Neighbor_Event i r e)"

definition intf_event :: "nat \<Rightarrow> intf_evt \<Rightarrow> unit M" where
  "intf_event i e = cascade 8 (Interface_Event i e)"

section \<open>Hello processing\<close>

definition update_hello_fields :: "hello_packet \<Rightarrow> ipv4 \<Rightarrow> neighbor \<Rightarrow> neighbor" where
  "update_hello_fields hello src n = n\<lparr>nb_ip_addr := src, nb_priority := hp_priority hello,
     nb_dr := hp_designated_router hello, nb_bdr := hp_backup_designated_router hello\<rparr>"

definition hello_acceptable :: "int \<Rightarrow> 'a intf_attrs_scheme \<Rightarrow> hello_packet \<Rightarrow> bool" where
  \<comment> \<open>the validation at the head of \<^verbatim>\<open>process_hello\<close>\<close>
  "hello_acceptable options it hello \<longleftrightarrow>
     hp_hello_interval hello = if_hello_interval it
     \<and> hp_dead_interval hello = if_dead_interval it
     \<and> \<not> (if_type it = 2 \<and> hp_network_mask hello \<noteq> if_ip_mask it)
     \<and> hp_options hello AND 0x02 = options AND 0x02"

definition process_hello :: "nat \<Rightarrow> hello_packet \<Rightarrow> ipv4 \<Rightarrow> ipv4 \<Rightarrow> unit M" where
  "process_hello i hello src_addr router_id =
     bindM (get_intf i) (\<lambda>it. bindM (getM w_options) (\<lambda>opts.
     if \<not> hello_acceptable opts it hello then retM ()
     else if map_of (is_neighbors it) router_id = None \<and> length (is_neighbors it) \<ge> 128 then retM ()
     else
       seqM (whenM (map_of (is_neighbors it) router_id = None)
         (set_intf i (is_neighbors_update
           (AList.update router_id (neighbor_create router_id src_addr it)))))
       (bindM (get_nbr i router_id) (\<lambda>old.
       seqM (set_nbr i router_id (update_hello_fields hello src_addr))
       (seqM (nbr_event i router_id Hello_Received)
       (bindM (getM w_router_id) (\<lambda>my_rid. bindM (get_nbr i router_id) (\<lambda>n.
       seqM
         (if my_rid \<in> set (hp_neighbors hello)
          then whenM (nb_state n = Nbr_Init) (nbr_event i router_id Two_Way_Received)
          else whenM (nb_state n \<ge> Nbr_2Way) (nbr_event i router_id One_Way))
       (bindM (get_intf i) (\<lambda>it.
       seqM
         (whenM (is_state it = If_Waiting)
           (if hp_backup_designated_router hello = src_addr then intf_event i Backup_Seen
            else if hp_designated_router hello = src_addr \<and> hp_backup_designated_router hello = 0
            then intf_event i Backup_Seen else retM ()))
       (bindM (get_nbr i router_id) (\<lambda>n.
          whenM (nb_state n \<ge> Nbr_2Way \<and> (nb_dr old \<noteq> nb_dr n \<or> nb_bdr old \<noteq> nb_bdr n))
            (intf_event i Nbr_Change)))))))))))))"

section \<open>Database description exchange\<close>

definition is_duplicate_dd :: "neighbor \<Rightarrow> dd_packet \<Rightarrow> bool" where
  "is_duplicate_dd n dd =
     (case nb_last_received_dd n of
        None \<Rightarrow> False
      | Some prev \<Rightarrow> dd_seq_number dd = dd_seq_number prev \<and> dd_flags dd = dd_flags prev
          \<and> dd_options dd = dd_options prev)"

definition wanted_headers :: "lsdb \<Rightarrow> ipv4 \<Rightarrow> lsa_header list \<Rightarrow> lsa_header list" where
  \<comment> \<open>the headers of LSAs that are missing here or older here\<close>
  "wanted_headers d area hs = filter (\<lambda>h. case lsdb_lookup area (lsa_header_key h) d of
       None \<Rightarrow> True | Some existing \<Rightarrow> compare_lsa h (l_header existing) > 0) hs"

definition add_requests :: "lsa_header list \<Rightarrow> neighbor \<Rightarrow> neighbor" where
  "add_requests hs = nb_ls_request_list_update (fold (\<lambda>h. AList.update (lsa_header_key h) h) hs)"

definition process_dd_headers :: "nat \<Rightarrow> ipv4 \<Rightarrow> dd_packet \<Rightarrow> unit M" where
  "process_dd_headers i r dd =
     bindM (get_intf i) (\<lambda>it. bindM (getM w_lsdb) (\<lambda>d.
       set_nbr i r (add_requests (wanted_headers d (if_area_id it) (dd_lsa_headers dd)))))"

definition process_dd_exstart :: "nat \<Rightarrow> ipv4 \<Rightarrow> dd_packet \<Rightarrow> unit M" where
  "process_dd_exstart i r dd =
     bindM (get_nbr i r) (\<lambda>n. bindM (getM w_router_id) (\<lambda>my_rid.
     if dd_is_init dd \<and> dd_is_more dd \<and> dd_is_master dd \<and> dd_lsa_headers dd = [] then
       whenM (nb_router_id n > my_rid)
         (seqM (set_nbr i r (\<lambda>n. n\<lparr>nb_is_master := False, nb_dd_seq_number := dd_seq_number dd,
             nb_dd_options := dd_options dd, nb_dd_rxmt_timer := pt_stop (nb_dd_rxmt_timer n)\<rparr>))
         (seqM (nbr_event i r Negotiation_Done) (send_dd_slave i r)))
     else if \<not> dd_is_init dd \<and> \<not> dd_is_master dd \<and> nb_router_id n < my_rid
       \<and> dd_seq_number dd = nb_dd_seq_number n then
       seqM (set_nbr i r (\<lambda>n. n\<lparr>nb_is_master := True, nb_dd_options := dd_options dd,
           nb_dd_rxmt_timer := pt_stop (nb_dd_rxmt_timer n)\<rparr>))
       (seqM (nbr_event i r Negotiation_Done)
       (seqM (process_dd_headers i r dd)
       (seqM (set_nbr i r (\<lambda>n. n\<lparr>nb_last_received_dd := Some dd,
           nb_dd_seq_number := nb_dd_seq_number n + 1\<rparr>))
         (send_dd_master i r))))
     else retM ()))"

definition process_dd_exchange :: "nat \<Rightarrow> ipv4 \<Rightarrow> dd_packet \<Rightarrow> unit M" where
  "process_dd_exchange i r dd =
     bindM (get_nbr i r) (\<lambda>n.
     if is_duplicate_dd n dd then whenM (\<not> nb_is_master n) (retransmit_last_dd i r)
     else if nb_is_master n \<and> dd_seq_number dd \<noteq> nb_dd_seq_number n
       then nbr_event i r Seq_Num_Mismatch
     else if nb_is_master n \<and> (dd_is_init dd \<or> dd_is_master dd) then nbr_event i r Seq_Num_Mismatch
     else if \<not> nb_is_master n \<and> dd_seq_number dd \<noteq> nb_dd_seq_number n + 1
       then nbr_event i r Seq_Num_Mismatch
     else if \<not> nb_is_master n \<and> dd_is_init dd then nbr_event i r Seq_Num_Mismatch
     else
       seqM (whenM (\<not> nb_is_master n) (set_nbr i r (nb_dd_seq_number_update (\<lambda>_. dd_seq_number dd))))
       (seqM (process_dd_headers i r dd)
       (seqM
         (if nb_is_master n then
            seqM (set_nbr i r (nb_dd_seq_number_update (\<lambda>s. s + 1)))
            (bindM (get_nbr i r) (\<lambda>n.
               if \<not> dd_is_more dd \<and> nb_db_summary_list n = [] then nbr_event i r Exchange_Done
               else send_dd_master i r))
          else
            seqM (send_dd_slave i r)
            (bindM (get_nbr i r) (\<lambda>n.
               whenM (\<not> dd_is_more dd \<and> nb_db_summary_list n = []) (nbr_event i r Exchange_Done))))
         (set_nbr i r (nb_last_received_dd_update (\<lambda>_. Some dd))))))"

definition process_dd :: "nat \<Rightarrow> ipv4 \<Rightarrow> dd_packet \<Rightarrow> unit M" where
  "process_dd i r dd =
     bindM (get_nbr i r) (\<lambda>n.
     if nb_state n = Nbr_Down \<or> nb_state n = Nbr_Attempt then retM ()
     else
       seqM (whenM (nb_state n = Nbr_Init) (nbr_event i r Two_Way_Received))
       (bindM (get_nbr i r) (\<lambda>n'.
       if nb_state n = Nbr_Init \<and> nb_state n' \<noteq> Nbr_ExStart then retM ()
       else if nb_state n' = Nbr_ExStart then process_dd_exstart i r dd
       else if nb_state n' = Nbr_Exchange then process_dd_exchange i r dd
       else if nb_state n' = Nbr_Loading \<or> nb_state n' = Nbr_Full then
         (if is_duplicate_dd n' dd then whenM (\<not> nb_is_master n') (retransmit_last_dd i r)
          else nbr_event i r Seq_Num_Mismatch)
       else retM ())))"

section \<open>Requests, updates, acknowledgments\<close>

definition store_header_updates :: "ipv4 \<Rightarrow> lsa list \<Rightarrow> lsdb \<Rightarrow> lsdb" where
  \<comment> \<open>\<^verbatim>\<open>Lsa.serialize\<close> writes age, length and checksum into the header of the database's own object\<close>
  "store_header_updates area = fold (\<lambda>l d. set_partition area (lh_ls_type (l_header l))
     (AList.update (lsa_key l) l (partition_db area (lh_ls_type (l_header l)) d)) d)"

definition serialize_stored_lsas :: "ipv4 \<Rightarrow> lsa list \<Rightarrow> bytes M" where
  \<comment> \<open>\<^verbatim>\<open>LsuPacket(lsas=lsas).serialize()\<close> for LSAs of the database, found in this area\<close>
  "serialize_stored_lsas area lsas =
     bindM (getM w_now) (\<lambda>now.
     bindM (liftM (lsu_serialize now lsas)) (\<lambda>(body, lsas').
       seqM (modM (w_lsdb_update (store_header_updates area lsas'))) (retM body)))"

definition send_ls_update :: "ipv4 \<Rightarrow> nat \<Rightarrow> ipv4 \<Rightarrow> lsa list \<Rightarrow> unit M" where
  "send_ls_update area i r lsas =
     (if lsas = [] then retM ()
      else bindM (serialize_stored_lsas area lsas) (\<lambda>body.
        bindM (get_nbr i r) (\<lambda>n. send_packet i 4 body (nb_ip_addr n))))"

fun requested_lsas :: "lsdb \<Rightarrow> ipv4 \<Rightarrow> lsr_item list \<Rightarrow> lsa list option" where
  \<comment> \<open>the LSAs asked for, or none at all when one is missing\<close>
  "requested_lsas d area [] = Some []"
| "requested_lsas d area (item # items) =
     (case lsdb_lookup area (lsr_item_key item) d of
        None \<Rightarrow> None
      | Some l \<Rightarrow> map_option ((#) l) (requested_lsas d area items))"

definition process_ls_request :: "nat \<Rightarrow> ipv4 \<Rightarrow> lsr_item list \<Rightarrow> unit M" where
  "process_ls_request i r items =
     bindM (get_nbr i r) (\<lambda>n.
     if nb_state n < Nbr_Exchange then retM ()
     else bindM (get_intf i) (\<lambda>it. bindM (getM w_lsdb) (\<lambda>d.
       case requested_lsas d (if_area_id it) items of
         None \<Rightarrow> nbr_event i r Bad_Ls_Req
       | Some lsas \<Rightarrow> send_ls_update (if_area_id it) i r lsas)))"

definition process_ls_update :: "nat \<Rightarrow> ipv4 \<Rightarrow> lsa_ident list \<Rightarrow> unit M" where
  \<comment> \<open>only the keys of the LSAs received are read\<close>
  "process_ls_update i r keys =
     seqM (set_nbr i r (\<lambda>n. n\<lparr>nb_ls_request_list := fold AList.delete keys (nb_ls_request_list n),
         nb_ls_retransmission_list := fold AList.delete keys (nb_ls_retransmission_list n)\<rparr>))
     (bindM (get_nbr i r) (\<lambda>n.
        whenM (nb_state n = Nbr_Loading \<and> nb_ls_request_list n = []) (nbr_event i r Loading_Done)))"

definition process_ls_ack :: "nat \<Rightarrow> ipv4 \<Rightarrow> lsa_header list \<Rightarrow> unit M" where
  "process_ls_ack i r headers = set_nbr i r (nb_ls_retransmission_list_update
     (fold AList.delete (map lsa_header_key headers)))"

section \<open>Delayed acknowledgments\<close>

definition queue_delayed_ack :: "nat \<Rightarrow> lsa_header \<Rightarrow> unit M" where
  "queue_delayed_ack i h = set_intf i (is_delayed_acks_update (\<lambda>hs. hs @ [h]))"

definition flush_delayed_acks :: "nat \<Rightarrow> unit M" where
  "flush_delayed_acks i =
     bindM (get_intf i) (\<lambda>it.
     if is_delayed_acks it = [] then retM ()
     else
       seqM (set_intf i (is_delayed_acks_update (\<lambda>_. [])))
       (let dest = (if if_type it = 2 \<or> if_type it = 3 then
                (if is_state it = If_DR \<or> is_state it = If_Backup then all_spf_routers
                 else all_d_routers)
              else all_spf_routers)
        in bindM (liftM (lsack_serialize (is_delayed_acks it))) (\<lambda>body. send_packet i 5 body dest)))"

section \<open>Timers that fire\<close>

definition fire_wait_timer :: "nat \<Rightarrow> unit M" where
  "fire_wait_timer i =
     seqM (set_intf i (is_wait_timer_update os_cancel)) (catchM (intf_event i Wait_Timer_Evt))"

definition fire_inactivity_timer :: "nat \<Rightarrow> ipv4 \<Rightarrow> unit M" where
  "fire_inactivity_timer i r =
     seqM (set_nbr i r (nb_inactivity_timer_update os_cancel))
       (catchM (nbr_event i r Inactivity_Timer))"

definition fire_hello_timer :: "nat \<Rightarrow> unit M" where
  "fire_hello_timer i =
     bindM (get_intf i) (\<lambda>it. whenM (pt_running (is_hello_timer it))
       (seqM (catchM (send_hello i))
         (bindM draw_fraction (\<lambda>u. bindM (getM w_now) (\<lambda>now.
           set_intf i (is_hello_timer_update (pt_schedule now u)))))))"

definition fire_ack_timer :: "nat \<Rightarrow> unit M" where
  "fire_ack_timer i =
     bindM (get_intf i) (\<lambda>it. whenM (pt_running (is_ack_timer it))
       (seqM (catchM (flush_delayed_acks i))
         (bindM (getM w_now) (\<lambda>now. set_intf i (is_ack_timer_update (pt_schedule now 0))))))"

definition fire_rxmt_timer :: "nat \<Rightarrow> ipv4 \<Rightarrow> unit M" where
  "fire_rxmt_timer i r =
     bindM (get_nbr i r) (\<lambda>n. whenM (pt_running (nb_rxmt_timer n))
       (seqM (catchM (whenM (nb_state n = Nbr_Loading \<and> nb_ls_request_list n \<noteq> [])
           (send_ls_request i r)))
         (bindM (getM w_now) (\<lambda>now. set_nbr i r (nb_rxmt_timer_update (pt_schedule now 0))))))"

definition fire_dd_rxmt_timer :: "nat \<Rightarrow> ipv4 \<Rightarrow> unit M" where
  "fire_dd_rxmt_timer i r =
     bindM (get_nbr i r) (\<lambda>n. whenM (pt_running (nb_dd_rxmt_timer n))
       (seqM (catchM (whenM (nb_state n = Nbr_ExStart \<or> nb_state n = Nbr_Exchange)
           (retransmit_last_dd i r)))
         (bindM (getM w_now) (\<lambda>now. set_nbr i r (nb_dd_rxmt_timer_update (pt_schedule now 0))))))"

section \<open>Shutdown\<close>

definition nbr_destroy :: "neighbor \<Rightarrow> neighbor" where
  "nbr_destroy n = clear_lists (stop_dd_timers (nb_inactivity_timer_update os_cancel n))"

definition interface_shutdown :: "nat \<Rightarrow> unit M" where
  \<comment> \<open>the neighbours are destroyed and dropped from the dictionary, the socket closed\<close>
  "interface_shutdown i =
     seqM (stop_all i)
     (seqM (bindM (get_intf i) (\<lambda>it. forM (map fst (is_neighbors it)) (\<lambda>r. set_nbr i r nbr_destroy)))
       (set_intf i (\<lambda>it. it\<lparr>is_neighbors := [], is_socket := None\<rparr>)))"

end
