(* ===== verification/Fsm_Cascade.thy ===== *)
theory Fsm_Cascade
  imports Fsm
begin

text \<open>
  How deep the state machines call each other. The packet-sending operations are shown to leave
  states, addresses and claims alone (\<open>quiet\<close>); an AdjOK? event therefore never moves a neighbour
  across 2-Way, so the cascade it would start ends there. No chain of events needs more than seven
  nested calls, whatever the interface and its neighbours.
\<close>

section \<open>Computations that leave the protocol state alone\<close>

named_theorems quiet_intros \<open>rules for quiet computations\<close>

definition nbr_view :: "neighbor \<Rightarrow> ipv4 \<times> ipv4 \<times> nbr_state \<times> int \<times> ipv4 \<times> ipv4" where
  "nbr_view n = (nb_router_id n, nb_ip_addr n, nb_state n, nb_priority n, nb_dr n, nb_bdr n)"

definition intf_view ::
    "ospf_interface \<Rightarrow> intf_attrs \<times> intf_state \<times> ipv4 \<times> ipv4
       \<times> (ipv4 \<times> (ipv4 \<times> ipv4 \<times> nbr_state \<times> int \<times> ipv4 \<times> ipv4)) list" where
  "intf_view it = (intf_attrs.truncate it, is_state it, is_dr it, is_bdr it,
     map (\<lambda>(r, n). (r, nbr_view n)) (is_neighbors it))"

definition same_view :: "world \<Rightarrow> world \<Rightarrow> bool" where
  "same_view w w' \<longleftrightarrow> map intf_view (w_intfs w') = map intf_view (w_intfs w)"

definition quiet :: "'a M \<Rightarrow> bool" where
  "quiet m \<longleftrightarrow> (\<forall>w. same_view w (snd (m w)))"

lemma same_view_refl [simp]: "same_view w w"
  by (simp add: same_view_def)

lemma same_view_trans: "same_view w w' \<Longrightarrow> same_view w' w'' \<Longrightarrow> same_view w w''"
  by (simp add: same_view_def)

lemma quiet_ret [quiet_intros]: "quiet (retM x)"
  by (simp add: quiet_def retM_def)

lemma quiet_raise [quiet_intros]: "quiet (raiseM e)"
  by (simp add: quiet_def raiseM_def)

lemma quiet_lift [quiet_intros]: "quiet (liftM r)"
  by (simp add: quiet_def liftM_def)

lemma quiet_get [quiet_intros]: "quiet (getM f)" "quiet (get_intf i)" "quiet (get_nbr i r)"
  by (auto simp: quiet_def getM_def get_intf_def get_nbr_def split: option.split)

lemma quiet_bind [quiet_intros]:
  assumes "quiet m" and "\<And>x. quiet (f x)"
  shows "quiet (bindM m f)"
  unfolding quiet_def
proof
  fix w
  obtain y w' where m: "m w = (y, w')" by fastforce
  then have "same_view w w'" using assms(1) unfolding quiet_def by (metis snd_conv)
  then show "same_view w (snd (bindM m f w))"
    using m assms(2) same_view_trans unfolding quiet_def
    by (cases y) (auto simp: bindM_def)
qed

lemma quiet_seq [quiet_intros]: "quiet m \<Longrightarrow> quiet n \<Longrightarrow> quiet (seqM m n)"
  by (simp add: seqM_def quiet_bind)

lemma quiet_when [quiet_intros]: "(b \<Longrightarrow> quiet m) \<Longrightarrow> quiet (whenM b m)"
  by (simp add: whenM_def quiet_ret)

lemma quiet_if [quiet_intros]: "(b \<Longrightarrow> quiet m) \<Longrightarrow> (\<not> b \<Longrightarrow> quiet n) \<Longrightarrow> quiet (if b then m else n)"
  by simp

lemma quiet_for [quiet_intros]: "(\<And>x. quiet (f x)) \<Longrightarrow> quiet (forM xs f)"
  by (induction xs) (auto intro: quiet_intros)

lemma quiet_mod: "(\<And>w. w_intfs (f w) = w_intfs w) \<Longrightarrow> quiet (modM f)"
  by (simp add: quiet_def modM_def same_view_def)

lemma quiet_set_intf: "(\<And>it. intf_view (f it) = intf_view it) \<Longrightarrow> quiet (set_intf i f)"
  by (auto simp: quiet_def set_intf_def modM_def upd_intf_def same_view_def map_update
      intro: list_update_id split: if_splits)
    (metis list_update_beyond list_update_id map_update not_le nth_map length_map)

lemma quiet_set_nbr: "(\<And>n. nbr_view (f n) = nbr_view n) \<Longrightarrow> quiet (set_nbr i r f)"
proof -
  assume f: "\<And>n. nbr_view (f n) = nbr_view n"
  have "map (\<lambda>(k, n). (k, nbr_view n)) (AList.map_entry r f ns) = map (\<lambda>(k, n). (k, nbr_view n)) ns" for ns
    by (induction ns) (auto simp: f)
  then have "intf_view (it\<lparr>is_neighbors := AList.map_entry r f (is_neighbors it)\<rparr>) = intf_view it" for it
    by (simp add: intf_view_def intf_attrs.truncate_def)
  then show ?thesis
    using quiet_set_intf by (simp add: set_nbr_def upd_nbr_def set_intf_def)
qed

lemmas nbr_view_simps = nbr_view_def clear_lists_def stop_dd_timers_def add_requests_def
lemmas intf_view_simps = intf_view_def intf_attrs.truncate_def join_group_def leave_group_def

lemma quiet_schedule [quiet_intros]:
  "quiet (schedule_router_lsa a)" "quiet (schedule_network_lsa i)" "quiet schedule_spf"
  unfolding schedule_router_lsa_def schedule_network_lsa_def schedule_spf_def
  by (auto intro!: quiet_mod simp: Let_def)

lemma quiet_draw [quiet_intros]: "quiet draw" "quiet draw_fraction"
  by (auto simp: draw_fraction_def intro!: quiet_intros) (simp_all add: quiet_def draw_def same_view_def)

lemma quiet_send_packet [quiet_intros]: "quiet (send_packet i t b d)"
  unfolding send_packet_def
  by (intro quiet_intros quiet_set_intf quiet_mod) (simp_all add: intf_view_simps)

lemma quiet_send_hello [quiet_intros]: "quiet (send_hello i)"
  unfolding send_hello_def Let_def by (intro quiet_intros)

lemma quiet_start_hello [quiet_intros]: "quiet (start_hello i)"
  unfolding start_hello_def
  by (intro quiet_intros quiet_set_intf) (simp_all add: intf_view_simps)

lemma quiet_stop_all [quiet_intros]: "quiet (stop_all i)"
  unfolding stop_all_def by (intro quiet_set_intf) (simp add: intf_view_simps)

lemma quiet_send_dd [quiet_intros]: "quiet (send_dd i r fl hs)"
  unfolding send_dd_def Let_def
  by (intro quiet_intros quiet_set_nbr) (simp add: nbr_view_simps)

lemma quiet_pop_headers [quiet_intros]: "quiet (pop_headers i r)"
  unfolding pop_headers_def Let_def
  by (intro quiet_intros quiet_set_nbr) (simp add: nbr_view_simps)

lemma quiet_send_dd_batch [quiet_intros]: "quiet (send_dd_master i r)" "quiet (send_dd_slave i r)"
  unfolding send_dd_master_def send_dd_slave_def Let_def by (intro quiet_intros)+

lemma quiet_retransmit [quiet_intros]: "quiet (retransmit_last_dd i r)"
proof -
  have "quiet (case dd of None \<Rightarrow> retM () | Some dd \<Rightarrow> bindM (liftM (dd_serialize dd)) (\<lambda>body. send_packet i 2 body a))"
    for dd a by (cases dd) (auto intro: quiet_intros)
  then show ?thesis unfolding retransmit_last_dd_def by (intro quiet_intros)
qed

lemma quiet_send_ls_request [quiet_intros]: "quiet (send_ls_request i r)"
  unfolding send_ls_request_def Let_def
  by (intro quiet_intros quiet_set_nbr) (simp add: nbr_view_simps)

lemma quiet_start_dd_exchange [quiet_intros]: "quiet (start_dd_exchange i r)"
  unfolding start_dd_exchange_def
  by (intro quiet_intros quiet_set_nbr) (simp_all add: nbr_view_simps)

text \<open>What a quiet computation leaves is read off by lookups.\<close>

lemma same_view_length: "same_view w w' \<Longrightarrow> length (w_intfs w') = length (w_intfs w)"
  unfolding same_view_def by (metis length_map)

lemma same_view_intf: "same_view w w' \<Longrightarrow> i < length (w_intfs w) \<Longrightarrow> intf_view (intf_at w' i) = intf_view (intf_at w i)"
  unfolding same_view_def intf_at_def by (metis length_map nth_map)

lemma same_view_nbr:
  assumes "same_view w w'"
  shows "map_option nbr_view (nbr_at w' i r) = map_option nbr_view (nbr_at w i r)"
proof (cases "i < length (w_intfs w)")
  case True
  have m: "map_of (map (\<lambda>(k, n). (k, nbr_view n)) ns) r = map_option nbr_view (map_of ns r)" for ns r
    by (induction ns) auto
  have "map (\<lambda>(k, n). (k, nbr_view n)) (is_neighbors (intf_at w' i))
      = map (\<lambda>(k, n). (k, nbr_view n)) (is_neighbors (intf_at w i))"
    using same_view_intf [OF assms True] by (simp add: intf_view_def)
  then show ?thesis using True same_view_length [OF assms] by (metis m nbr_at_def)
next
  case False
  then show ?thesis using same_view_length [OF assms] by (simp add: nbr_at_def)
qed

lemma same_view_state:
  assumes "same_view w w'" and "nbr_at w i r = Some n"
  obtains n' where "nbr_at w' i r = Some n'" and "nbr_view n' = nbr_view n"
  using same_view_nbr [OF assms(1), of i r] assms(2) by auto

lemma quiet_same_view: "quiet m \<Longrightarrow> m w = (x, w') \<Longrightarrow> same_view w w'"
  unfolding quiet_def by (metis snd_conv)

lemma map_of_map_entry: "map_of (AList.map_entry k f xs) a = (if a = k then map_option f (map_of xs k) else map_of xs a)"
  by (induction xs) auto

lemma nbr_at_upd_nbr [simp]:
  "nbr_at (upd_nbr i r f w) j s = (if j = i \<and> s = r then map_option f (nbr_at w i r) else nbr_at w j s)"
  by (cases "j = i") (auto simp: nbr_at_def upd_nbr_def upd_intf_def intf_at_def map_of_map_entry)

lemma length_upd_nbr [simp]: "length (w_intfs (upd_nbr i r f w)) = length (w_intfs w)"
  by (simp add: upd_nbr_def upd_intf_def)

section \<open>Adjacency events stay above 2-Way\<close>

lemma form_adjacency_state:
  assumes "form_adjacency i r w = (x, w')" and "nbr_at w i r = Some n"
  shows "\<exists>n'. nbr_at w' i r = Some n' \<and> nb_state n' = Nbr_ExStart"
proof -
  have "start_dd_exchange i r (upd_nbr i r (set_nbr_state Nbr_ExStart) w) = (x, w')"
    using assms(1) by (simp add: form_adjacency_def seqM_def bindM_def set_nbr_def modM_def)
  then have "same_view (upd_nbr i r (set_nbr_state Nbr_ExStart) w) w'"
    by (rule quiet_same_view [OF quiet_start_dd_exchange])
  moreover have "nbr_at (upd_nbr i r (set_nbr_state Nbr_ExStart) w) i r = Some (set_nbr_state Nbr_ExStart n)"
    using assms(2) by simp
  ultimately obtain n' where "nbr_at w' i r = Some n'" "nbr_view n' = nbr_view (set_nbr_state Nbr_ExStart n)"
    by (rule same_view_state)
  then show ?thesis by (simp add: nbr_view_def set_nbr_state_def)
qed

lemma adj_ok_action_state:
  assumes "nbr_fsm s Adj_Ok = Some a" and "run_nbr_action i r a w = (x, w')"
    and "nbr_at w i r = Some n" and "nb_state n = s"
  shows "\<exists>n'. nbr_at w' i r = Some n' \<and> nb_state n' \<ge> Nbr_2Way \<and> s \<ge> Nbr_2Way"
proof -
  from assms(1) have a: "a = Adj_Ok_2Way \<and> s = Nbr_2Way \<or> a = Adj_Ok_Adjformed \<and> s > Nbr_2Way"
    by (cases s) (auto simp: nbr_fsm_def nbr_order)
  then show ?thesis
  proof
    assume A: "a = Adj_Ok_2Way \<and> s = Nbr_2Way"
    then consider "form_adjacency i r w = (x, w')" | "w' = w"
      using assms(2,3) by (auto simp: bindM_def get_intf_def get_nbr_def retM_def split: if_splits)
    then show ?thesis
      using A assms(3,4) form_adjacency_state [of i r w x w' n]
      by cases (auto simp: nbr_order)
  next
    assume A: "a = Adj_Ok_Adjformed \<and> s > Nbr_2Way"
    then have "w' = w \<or> w' = upd_nbr i r (\<lambda>n. stop_dd_timers (clear_lists (set_nbr_state Nbr_2Way n))) w"
      using assms(2,3) by (auto simp: bindM_def get_intf_def get_nbr_def retM_def set_nbr_def modM_def split: if_splits)
    then show ?thesis
      using A assms(3,4) by (auto simp: stop_dd_timers_def clear_lists_def set_nbr_state_def nbr_order)
  qed
qed

section \<open>The depth of the cascade\<close>

lemma changed_no_crossing:
  assumes "nbr_at w i r = Some n" and "\<not> crosses_2way old (nb_state n)"
  shows "neighbor_state_changed k i r old w = neighbor_state_changed k' i r old w"
  using assms by (simp add: neighbor_state_changed_def bindM_def get_intf_def get_nbr_def seqM_def whenM_def)

lemma adj_ok_event_cong:
  "neighbor_event (run_call k) i r Adj_Ok = neighbor_event (run_call k') i r Adj_Ok"
proof
  fix w
  show "neighbor_event (run_call k) i r Adj_Ok w = neighbor_event (run_call k') i r Adj_Ok w"
  proof (cases "nbr_at w i r")
    case None
    then show ?thesis by (simp add: neighbor_event_def bindM_def get_nbr_def)
  next
    case (Some n)
    show ?thesis
    proof (cases "nbr_fsm (nb_state n) Adj_Ok")
      case None
      then show ?thesis
        using Some by (simp add: neighbor_event_def bindM_def get_nbr_def seqM_def whenM_def retM_def Let_def)
    next
      case (Some a)
      obtain x w' where r: "run_nbr_action i r a w = (x, w')" by fastforce
      obtain n' where n': "nbr_at w' i r = Some n'" "nb_state n' \<ge> Nbr_2Way" "nb_state n \<ge> Nbr_2Way"
        using adj_ok_action_state [OF Some r \<open>nbr_at w i r = Some n\<close>] by blast
      then have "\<not> crosses_2way (nb_state n) (nb_state n')"
        by (simp add: crosses_2way_def not_less)
      from changed_no_crossing [OF n'(1) this]
      have "neighbor_state_changed k i r (nb_state n) w' = neighbor_state_changed k' i r (nb_state n) w'" .
      then show ?thesis
        using Some r n' \<open>nbr_at w i r = Some n\<close>
        by (simp add: neighbor_event_def bindM_def get_nbr_def seqM_def whenM_def Let_def split: sum.split)
    qed
  qed
qed

lemma run_dr_election_cong:
  "(\<And>r. k (Neighbor_Event i r Adj_Ok) = k' (Neighbor_Event i r Adj_Ok)) \<Longrightarrow>
    run_dr_election k i = run_dr_election k' i"
  unfolding run_dr_election_def by presburger

lemma interface_event_cong:
  assumes "k (Run_Dr_Election i) = k' (Run_Dr_Election i)"
    and "e = If_Down_Evt \<Longrightarrow> (\<And>r. k (Neighbor_Event i r Kill_Nbr) = k' (Neighbor_Event i r Kill_Nbr))"
  shows "interface_event k i e = interface_event k' i e"
proof -
  have "run_intf_action k i a = run_intf_action k' i a" if "intf_fsm s e = Some a" for s a
    using assms that
    by (cases a) (auto simp: if_up_action_def if_down_action_def intf_fsm_def
        split: intf_state.splits intf_evt.splits cong: if_cong)
  then have "(case intf_fsm s e of None \<Rightarrow> retM () | Some a \<Rightarrow> run_intf_action k i a)
      = (case intf_fsm s e of None \<Rightarrow> retM () | Some a \<Rightarrow> run_intf_action k' i a)" for s
    by (simp split: option.split)
  then show ?thesis by (simp add: interface_event_def)
qed

lemma neighbor_state_changed_cong:
  "k (Interface_Event i Nbr_Change) = k' (Interface_Event i Nbr_Change) \<Longrightarrow>
    neighbor_state_changed k i r old = neighbor_state_changed k' i r old"
  by (simp add: neighbor_state_changed_def)

lemma neighbor_event_cong:
  "(\<And>old. k (Neighbor_State_Changed i r old) = k' (Neighbor_State_Changed i r old)) \<Longrightarrow>
    neighbor_event k i r e = neighbor_event k' i r e"
  by (simp add: neighbor_event_def Let_def cong: if_cong option.case_cong)

lemma cascade_independent:
  "(run_call ^^ 7) k c = (run_call ^^ 7) k' c"
proof -
  have 2: "run_call (run_call k) (Neighbor_Event i r Adj_Ok) = run_call (run_call k') (Neighbor_Event i r Adj_Ok)"
    for k k' i r by (simp add: adj_ok_event_cong [of k i r k'])
  have 3: "run_call (run_call (run_call k)) (Run_Dr_Election i) = run_call (run_call (run_call k')) (Run_Dr_Election i)"
    for k k' i unfolding run_call.simps(4)
    by (rule run_dr_election_cong) (rule 2)
  have 4: "run_call (run_call (run_call (run_call k))) (Interface_Event i Nbr_Change)
      = run_call (run_call (run_call (run_call k'))) (Interface_Event i Nbr_Change)" for k k' i
    unfolding run_call.simps(3) by (rule interface_event_cong, rule 3) simp
  have 5: "run_call (run_call (run_call (run_call (run_call k)))) (Neighbor_State_Changed i r old)
      = run_call (run_call (run_call (run_call (run_call k')))) (Neighbor_State_Changed i r old)" for k k' i r old
    unfolding run_call.simps(2) by (rule neighbor_state_changed_cong, rule 4)
  have 6: "run_call (run_call (run_call (run_call (run_call (run_call k))))) (Neighbor_Event i r e)
      = run_call (run_call (run_call (run_call (run_call (run_call k'))))) (Neighbor_Event i r e)" for k k' i r e
    unfolding run_call.simps(1) by (rule neighbor_event_cong, rule 5)
  have 7: "(run_call ^^ 7) k = run_call (run_call (run_call (run_call (run_call (run_call (run_call k))))))" for k
    by (simp add: eval_nat_numeral)
  show ?thesis
  proof (cases c)
    case (Neighbor_Event i r e)
    then show ?thesis unfolding 7 by (simp only: 6 [of "run_call k" i r e "run_call k'"])
  next
    case (Neighbor_State_Changed i r old)
    then show ?thesis unfolding 7 by (simp only: 5 [of "run_call (run_call k)" i r old "run_call (run_call k')"])
  next
    case (Interface_Event i e)
    show ?thesis unfolding 7 Interface_Event run_call.simps(3)
      by (rule interface_event_cong, rule 3, rule 6)
  next
    case (Run_Dr_Election i)
    then show ?thesis unfolding 7
      by (simp only: 3 [of "run_call (run_call (run_call (run_call k)))" i "run_call (run_call (run_call (run_call k')))"])
  qed
qed

lemma cascade_funpow: "cascade n = (run_call ^^ n) (\<lambda>_. raiseM RecursionError)"
proof (induction n)
  case 0
  show ?case by (rule ext) simp
next
  case (Suc n)
  show ?case by (rule ext) (simp add: Suc)
qed

text \<open>
  C15. The state machines never nest more than seven calls deep: whatever would happen at the eighth
  call (Python's recursion limit, or anything else) has no influence on what an event does, so more
  depth never changes a result.
\<close>

theorem cascade_depth_suffices:
  "(run_call ^^ 7) k c = (run_call ^^ 7) k' c \<and> cascade (8 + n) c = cascade 8 c"
proof
  show "(run_call ^^ 7) k c = (run_call ^^ 7) k' c" by (rule cascade_independent)
  have "cascade (7 + m) c = (run_call ^^ 7) k c" for m k
    unfolding cascade_funpow funpow_add comp_def by (rule cascade_independent)
  from this [of "1 + n"] this [of 1] show "cascade (8 + n) c = cascade 8 c" by simp
qed

end
