(* ===== verification/Fsm_Invariant.thy ===== *)
theory Fsm_Invariant
  imports Fsm_Cascade
begin

text \<open>
  The invariant of the two state machines, kept by every handler whatever arrives and whatever
  raises: the lists of a neighbour are empty while no database exchange runs, a Full neighbour has
  no request outstanding, the neighbour table has distinct keys, each its neighbour's router id, and
  at most 128 entries, and an interface in state DR (Backup) is its own DR (backup).
\<close>

section \<open>The invariant\<close>

definition nbr_ok :: "neighbor \<Rightarrow> bool" where
  "nbr_ok n \<longleftrightarrow>
     (nb_state n < Nbr_Exchange \<longrightarrow> nb_db_summary_list n = [] \<and> nb_ls_request_list n = []
        \<and> nb_ls_retransmission_list n = [])
     \<and> (nb_state n = Nbr_Full \<longrightarrow> nb_ls_request_list n = [])
     \<and> (nb_state n < Nbr_ExStart \<longrightarrow> nb_last_received_dd n = None)
     \<and> length (nb_ls_retransmission_list n) \<le> 1000"

definition intf_ok :: "ospf_interface \<Rightarrow> bool" where
  "intf_ok it \<longleftrightarrow>
     distinct (map fst (is_neighbors it)) \<and> length (is_neighbors it) \<le> 128
     \<and> list_all (\<lambda>(r, n). nb_router_id n = r \<and> nbr_ok n) (is_neighbors it)
     \<and> (is_state it = If_DR \<longrightarrow> is_dr it = if_ip_addr it)
     \<and> (is_state it = If_Backup \<longrightarrow> is_bdr it = if_ip_addr it \<and> is_dr it \<noteq> if_ip_addr it)"

definition world_ok :: "world \<Rightarrow> bool" where
  "world_ok w \<longleftrightarrow> list_all intf_ok (w_intfs w)"

abbreviation keeps_ok :: "'a M \<Rightarrow> bool" where
  "keeps_ok \<equiv> keeps world_ok"

lemma ok_mod: "(\<And>w. w_intfs (f w) = w_intfs w) \<Longrightarrow> keeps_ok (modM f)"
  by (intro keeps_mod) (simp add: world_ok_def)

lemma world_ok_intf: "world_ok w \<Longrightarrow> i < length (w_intfs w) \<Longrightarrow> intf_ok (intf_at w i)"
  by (simp add: world_ok_def intf_at_def list_all_length)

lemma world_ok_upd_intf:
  assumes "world_ok w" and "i < length (w_intfs w) \<Longrightarrow> intf_ok (f (intf_at w i))"
  shows "world_ok (upd_intf i f w)"
proof -
  have "intf_ok ((w_intfs w)[i := f (w_intfs w ! i)] ! n)" if "n < length (w_intfs w)" for n
    using assms that by (cases "n = i") (auto simp: world_ok_def intf_at_def list_all_length)
  then show ?thesis by (simp add: world_ok_def upd_intf_def list_all_length)
qed

lemma ok_set_intf: "(\<And>it. intf_ok it \<Longrightarrow> intf_ok (f it)) \<Longrightarrow> keeps_ok (set_intf i f)"
  by (simp add: keeps_def set_intf_def modM_def world_ok_upd_intf world_ok_intf)

lemma map_fst_map_entry [simp]: "map fst (AList.map_entry k f xs) = map fst xs"
  by (induction xs) auto

lemma length_map_entry [simp]: "length (AList.map_entry k f xs) = length xs"
  by (induction xs) auto

lemma list_all_map_entry:
  "list_all P xs \<Longrightarrow> (\<And>v. (k, v) \<in> set xs \<Longrightarrow> P (k, f v)) \<Longrightarrow> list_all P (AList.map_entry k f xs)"
  by (induction xs) auto

lemma world_ok_upd_nbr:
  assumes ok: "world_ok w"
    and f: "\<And>n. nbr_at w i r = Some n \<Longrightarrow> nbr_ok n \<Longrightarrow> nbr_ok (f n) \<and> nb_router_id (f n) = nb_router_id n"
  shows "world_ok (upd_nbr i r f w)"
  unfolding upd_nbr_def
proof (rule world_ok_upd_intf [OF ok])
  assume i: "i < length (w_intfs w)"
  let ?it = "intf_at w i"
  have it: "intf_ok ?it" by (rule world_ok_intf [OF ok i])
  then have d: "distinct (map fst (is_neighbors ?it))" by (simp add: intf_ok_def)
  have "list_all (\<lambda>(r, n). nb_router_id n = r \<and> nbr_ok n) (AList.map_entry r f (is_neighbors ?it))"
  proof (rule list_all_map_entry)
    show "list_all (\<lambda>(r, n). nb_router_id n = r \<and> nbr_ok n) (is_neighbors ?it)"
      using it by (simp add: intf_ok_def)
    then show "case (r, f v) of (r, n) \<Rightarrow> nb_router_id n = r \<and> nbr_ok n"
      if "(r, v) \<in> set (is_neighbors ?it)" for v
      using that f [of v] d i by (auto simp: list_all_iff nbr_at_def)
  qed
  then show "intf_ok (?it\<lparr>is_neighbors := AList.map_entry r f (is_neighbors ?it)\<rparr>)"
    using it by (simp add: intf_ok_def)
qed

lemma nbr_at_ok: "world_ok w \<Longrightarrow> nbr_at w i r = Some n \<Longrightarrow> nbr_ok n \<and> nb_router_id n = r"
  using world_ok_intf [of w i]
  by (auto simp: nbr_at_def intf_ok_def dest!: list_all_map_of split: if_splits)

lemma ok_set_nbr:
  "(\<And>n. nbr_ok n \<Longrightarrow> nbr_ok (f n) \<and> nb_router_id (f n) = nb_router_id n) \<Longrightarrow> keeps_ok (set_nbr i r f)"
  by (simp add: keeps_def set_nbr_def modM_def world_ok_upd_nbr)

lemma set_nbr_ok_at:
  assumes "world_ok w"
    and "\<And>n. nbr_at w i r = Some n \<Longrightarrow> nbr_ok n \<Longrightarrow> nbr_ok (f n) \<and> nb_router_id (f n) = nb_router_id n"
  shows "world_ok (snd (set_nbr i r f w))"
  using assms by (simp add: set_nbr_def modM_def world_ok_upd_nbr)

lemmas nbr_ok_simps = nbr_ok_def clear_lists_def stop_dd_timers_def set_nbr_state_def go_down_reset_def

section \<open>Sending keeps it\<close>

lemma ok_schedule [keeps_intros]:
  "keeps_ok (schedule_router_lsa a)" "keeps_ok (schedule_network_lsa i)" "keeps_ok schedule_spf"
  unfolding schedule_router_lsa_def schedule_network_lsa_def schedule_spf_def
  by (auto intro!: ok_mod simp: Let_def)

lemma ok_draw [keeps_intros]: "keeps_ok draw" "keeps_ok draw_fraction"
  by (auto simp: draw_fraction_def intro!: keeps_intros) (simp_all add: keeps_def draw_def world_ok_def)

lemma ok_send_packet [keeps_intros]: "keeps_ok (send_packet i t b d)"
  unfolding send_packet_def
  by (intro keeps_intros ok_set_intf ok_mod) (simp_all add: intf_ok_def)

lemma ok_send_hello [keeps_intros]: "keeps_ok (send_hello i)"
  unfolding send_hello_def Let_def by (intro keeps_intros)

lemma ok_start_hello [keeps_intros]: "keeps_ok (start_hello i)"
  unfolding start_hello_def by (intro keeps_intros ok_set_intf) (simp_all add: intf_ok_def)

lemma ok_stop_all [keeps_intros]: "keeps_ok (stop_all i)"
  unfolding stop_all_def by (intro ok_set_intf) (simp add: intf_ok_def)

lemma ok_send_dd [keeps_intros]: "keeps_ok (send_dd i r fl hs)"
  unfolding send_dd_def Let_def by (intro keeps_intros ok_set_nbr) (simp add: nbr_ok_def)

lemma ok_pop_headers [keeps_intros]: "keeps_ok (pop_headers i r)"
  unfolding pop_headers_def Let_def by (intro keeps_intros ok_set_nbr) (simp add: nbr_ok_def)

lemma ok_send_dd_batch [keeps_intros]: "keeps_ok (send_dd_master i r)" "keeps_ok (send_dd_slave i r)"
  unfolding send_dd_master_def send_dd_slave_def Let_def by (intro keeps_intros)+

lemma ok_retransmit [keeps_intros]: "keeps_ok (retransmit_last_dd i r)"
proof -
  have "keeps_ok (case dd of None \<Rightarrow> retM () | Some dd \<Rightarrow> bindM (liftM (dd_serialize dd)) (\<lambda>body. send_packet i 2 body a))"
    for dd a by (cases dd) (auto intro: keeps_intros)
  then show ?thesis unfolding retransmit_last_dd_def by (intro keeps_intros)
qed

lemma ok_send_ls_request [keeps_intros]: "keeps_ok (send_ls_request i r)"
  unfolding send_ls_request_def Let_def by (intro keeps_intros ok_set_nbr) (simp add: nbr_ok_def)

lemma ok_start_dd_exchange [keeps_intros]: "keeps_ok (start_dd_exchange i r)"
  unfolding start_dd_exchange_def by (intro keeps_intros ok_set_nbr) (simp_all add: nbr_ok_def)

lemma ok_seq_num_mismatch [keeps_intros]: "keeps_ok (seq_num_mismatch i r)"
  unfolding seq_num_mismatch_def
  by (intro keeps_intros ok_set_nbr) (simp add: nbr_ok_simps nbr_order)

section \<open>The cascade keeps it\<close>

lemma form_adjacency_ok:
  assumes "world_ok w" and "nbr_at w i r = Some n" and "nb_state n < Nbr_ExStart"
  shows "world_ok (snd (form_adjacency i r w))"
proof -
  have "world_ok (upd_nbr i r (set_nbr_state Nbr_ExStart) w)"
    using assms by (intro world_ok_upd_nbr) (auto simp: nbr_ok_simps nbr_order)
  then have "world_ok (snd (start_dd_exchange i r (upd_nbr i r (set_nbr_state Nbr_ExStart) w)))"
    using ok_start_dd_exchange by (simp add: keeps_def)
  then show ?thesis by (simp add: form_adjacency_def seqM_def bindM_def set_nbr_def modM_def)
qed

definition loading_guard :: "call \<Rightarrow> world \<Rightarrow> bool" where
  \<comment> \<open>LoadingDone is raised only when nothing is left to request\<close>
  "loading_guard c w = (case c of
     Neighbor_Event i r e \<Rightarrow> e = Loading_Done \<longrightarrow>
       (\<forall>n. nbr_at w i r = Some n \<longrightarrow> nb_state n = Nbr_Loading \<longrightarrow> nb_ls_request_list n = [])
   | _ \<Rightarrow> True)"

lemma action_ok:
  assumes ok: "world_ok w" and n: "nbr_at w i r = Some n" and a: "nbr_fsm (nb_state n) e = Some a"
    and g: "loading_guard (Neighbor_Event i r e) w"
  shows "world_ok (snd (run_nbr_action i r a w))"
proof -
  have lt: "i < length (w_intfs w)" using n by (auto simp: nbr_at_def split: if_splits)
  note set_ok = set_nbr_ok_at [OF ok]
  note run = bindM_def get_intf_def get_nbr_def getM_def retM_def
  note f = set_ok [of i r] form_adjacency_ok [OF ok n] ok_seq_num_mismatch [unfolded keeps_def]
  show ?thesis
  proof (cases a)
    case Hello_Received_Down
    then have "nb_state n = Nbr_Down" using a by (auto simp: nbr_fsm_def split: nbr_state.splits nbr_evt.splits)
    then show ?thesis using Hello_Received_Down n
      by (auto simp: run nbr_ok_simps nbr_order intro!: set_ok)
  next
    case Hello_Received_Any
    then show ?thesis by (auto simp: run nbr_ok_simps intro!: set_ok)
  next
    case Start_Action
    then have "nb_state n = Nbr_Down" using a by (auto simp: nbr_fsm_def split: nbr_state.splits nbr_evt.splits)
    then show ?thesis using Start_Action n by (auto simp: run nbr_ok_simps nbr_order intro!: set_ok)
  next
    case Two_Way_Action
    then have s: "nb_state n = Nbr_Init" using a by (auto simp: nbr_fsm_def split: nbr_state.splits nbr_evt.splits)
    then show ?thesis using Two_Way_Action n lt form_adjacency_ok [OF ok n]
      by (auto simp: run nbr_ok_simps nbr_order intro!: set_ok)
  next
    case Adj_Ok_2Way
    then have s: "nb_state n = Nbr_2Way" using a by (auto simp: nbr_fsm_def split: nbr_state.splits nbr_evt.splits)
    then show ?thesis using Adj_Ok_2Way n lt ok form_adjacency_ok [OF ok n] by (auto simp: run nbr_order)
  next
    case Adj_Ok_Adjformed
    then show ?thesis using n lt ok by (auto simp: run nbr_ok_simps nbr_order intro!: set_ok)
  next
    case Negotiation_Done_Action
    then have s: "nb_state n = Nbr_ExStart" using a by (auto simp: nbr_fsm_def split: nbr_state.splits nbr_evt.splits)
    then show ?thesis using Negotiation_Done_Action n lt ok
      by (auto simp: run nbr_ok_simps nbr_order intro!: set_ok)
  next
    case Exchange_Done_Action
    then have s: "nb_state n = Nbr_Exchange" using a by (auto simp: nbr_fsm_def split: nbr_state.splits nbr_evt.splits)
    have "world_ok (upd_nbr i r (set_nbr_state Nbr_Loading) w)"
      using s n by (auto simp: nbr_ok_simps nbr_order intro!: world_ok_upd_nbr [OF ok])
    then have "world_ok (snd (send_ls_request i r (upd_nbr i r (set_nbr_state Nbr_Loading) w)))"
      using ok_send_ls_request [of i r] by (simp add: keeps_def)
    then have "world_ok (snd (seqM (set_nbr i r (set_nbr_state Nbr_Loading)) (send_ls_request i r) w))"
      by (simp add: seqM_def bindM_def set_nbr_def modM_def)
    then show ?thesis using Exchange_Done_Action n s
      by (auto simp: run nbr_ok_simps nbr_order intro!: set_ok)
  next
    case Loading_Done_Action
    then have s: "nb_state n = Nbr_Loading" "e = Loading_Done"
      using a by (auto simp: nbr_fsm_def split: nbr_state.splits nbr_evt.splits)
    then show ?thesis using Loading_Done_Action n g
      by (auto simp: loading_guard_def nbr_ok_simps nbr_order intro!: set_ok)
  next
    case One_Way_Action
    then show ?thesis by (auto simp: nbr_ok_simps nbr_order intro!: set_ok)
  qed (use ok_seq_num_mismatch ok in \<open>auto simp: keeps_def\<close>)
qed

lemma go_down_ok: "keeps_ok (set_nbr i r go_down_reset)"
  by (intro ok_set_nbr) (simp add: nbr_ok_simps nbr_order)

lemma neighbor_event_ok:
  assumes k: "\<And>j s old. keeps_ok (k (Neighbor_State_Changed j s old))"
    and ok: "world_ok w" and g: "loading_guard (Neighbor_Event i r e) w"
  shows "world_ok (snd (neighbor_event k i r e w))"
proof (cases "nbr_at w i r")
  case None
  then show ?thesis using ok by (simp add: neighbor_event_def bindM_def get_nbr_def)
next
  case (Some n)
  let ?first = "case nbr_fsm (nb_state n) e of
          Some a \<Rightarrow> run_nbr_action i r a
        | None \<Rightarrow>
            if e = Kill_Nbr \<or> e = LL_Down \<or> e = Inactivity_Timer
            then seqM (set_nbr i r go_down_reset)
              (whenM (nb_state n \<noteq> Nbr_Down) (k (Neighbor_State_Changed i r (nb_state n))))
            else retM ()"
  let ?rest = "bindM (get_nbr i r) (\<lambda>n'.
          whenM (nb_state n' \<noteq> nb_state n) (k (Neighbor_State_Changed i r (nb_state n))))"
  have "world_ok (snd (?first w))"
  proof (cases "nbr_fsm (nb_state n) e")
    case None
    have "keeps_ok (if e = Kill_Nbr \<or> e = LL_Down \<or> e = Inactivity_Timer
        then seqM (set_nbr i r go_down_reset)
          (whenM (nb_state n \<noteq> Nbr_Down) (k (Neighbor_State_Changed i r (nb_state n))))
        else retM ())" by (intro keeps_intros go_down_ok k)
    then show ?thesis using None ok by (simp add: keeps_def)
  next
    case a: (Some a)
    then show ?thesis using action_ok [OF ok \<open>nbr_at w i r = Some n\<close> a g] by simp
  qed
  moreover have "keeps_ok ?rest" by (intro keeps_intros k)
  moreover have "neighbor_event k i r e w = seqM ?first ?rest w"
    using Some by (simp add: neighbor_event_def bindM_def get_nbr_def Let_def)
  ultimately show ?thesis
    by (cases "?first w") (auto simp: seqM_def bindM_def keeps_def split: sum.split)
qed

lemma neighbor_state_changed_ok:
  assumes "keeps_ok (k (Interface_Event i Nbr_Change))"
  shows "keeps_ok (neighbor_state_changed k i r old)"
  unfolding neighbor_state_changed_def by (intro keeps_intros assms)

lemma apply_election_ok: "intf_ok it \<Longrightarrow> intf_ok (apply_election rid it)"
  by (auto simp: apply_election_def intf_ok_def election_state_def join_group_def leave_group_def Let_def
      split: prod.split)

lemma run_dr_election_ok:
  assumes "\<And>r. keeps_ok (k (Neighbor_Event i r Adj_Ok))"
  shows "keeps_ok (run_dr_election k i)"
  unfolding run_dr_election_def by (intro keeps_intros ok_set_intf apply_election_ok assms)

lemma set_intf_state_ok: "s \<noteq> If_DR \<Longrightarrow> s \<noteq> If_Backup \<Longrightarrow> keeps_ok (set_intf_state i s)"
  unfolding set_intf_state_def by (intro ok_set_intf) (simp add: intf_ok_def)

text \<open>An interface that is down stays down while its neighbours are killed.\<close>

definition down :: "nat \<Rightarrow> world \<Rightarrow> bool" where
  "down i w \<longleftrightarrow> (i < length (w_intfs w) \<longrightarrow> is_state (intf_at w i) = If_Down)"

lemma down_quiet: "quiet m \<Longrightarrow> keeps (down i) m"
  unfolding keeps_def down_def
proof (intro allI impI)
  fix w
  assume q: "quiet m" and d: "i < length (w_intfs w) \<longrightarrow> is_state (intf_at w i) = If_Down"
    and i: "i < length (w_intfs (snd (m w)))"
  have v: "same_view w (snd (m w))" using q by (simp add: quiet_def)
  then have "i < length (w_intfs w)" using i same_view_length by metis
  then show "is_state (intf_at (snd (m w)) i) = If_Down"
    using same_view_intf [OF v] d by (simp add: intf_view_def)
qed

lemma down_set_nbr [keeps_intros]: "keeps (down i) (set_nbr j r f)"
  by (cases "j = i")
    (simp_all add: keeps_def set_nbr_def modM_def down_def upd_nbr_def upd_intf_def intf_at_def)

lemma down_nbr_action [keeps_intros]: "keeps (down i) (run_nbr_action j r a)"
proof -
  have form: "keeps (down i) (form_adjacency j r)" "keeps (down i) (seq_num_mismatch j r)"
    unfolding form_adjacency_def seq_num_mismatch_def
    by (intro keeps_intros down_quiet quiet_intros)+
  show ?thesis
    by (cases a) (simp_all, (intro keeps_intros form down_quiet quiet_intros)+)
qed

lemma down_interface_event: "keeps (down i) (interface_event k i Nbr_Change)"
proof -
  have "interface_event k i Nbr_Change w = (fst (interface_event k i Nbr_Change w), w)" if "down i w" for w
    using that by (cases "i < length (w_intfs w)")
      (simp_all add: interface_event_def bindM_def get_intf_def down_def intf_fsm_def seqM_def retM_def
        whenM_def Let_def)
  then show ?thesis unfolding keeps_def by (metis snd_conv)
qed

lemma down_cascade:
  "keeps (down i) (cascade f (Neighbor_Event i r e))
   \<and> keeps (down i) (cascade f (Neighbor_State_Changed i r old))
   \<and> keeps (down i) (cascade f (Interface_Event i Nbr_Change))"
proof (induction f arbitrary: r e old)
  case 0
  show ?case by (simp add: keeps_intros)
next
  case (Suc f)
  have changed: "keeps (down i) (cascade f (Neighbor_State_Changed i r old))"
    and intf: "keeps (down i) (cascade f (Interface_Event i Nbr_Change))" for r old
    using Suc.IH by blast+
  have "keeps (down i) (neighbor_event (cascade f) i r e)"
  proof -
    have "keeps (down i) (case nbr_fsm s e of Some a \<Rightarrow> run_nbr_action i r a
        | None \<Rightarrow> if e = Kill_Nbr \<or> e = LL_Down \<or> e = Inactivity_Timer
            then seqM (set_nbr i r go_down_reset)
              (whenM (s \<noteq> Nbr_Down) (cascade f (Neighbor_State_Changed i r s)))
            else retM ())" for s
    proof (cases "nbr_fsm s e")
      case None
      show ?thesis unfolding None option.case by (intro keeps_intros changed)
    next
      case (Some a)
      show ?thesis unfolding Some option.case by (intro keeps_intros)
    qed
    then show ?thesis unfolding neighbor_event_def Let_def
      by (intro keeps_intros changed)
  qed
  moreover have "keeps (down i) (neighbor_state_changed (cascade f) i r old)"
    unfolding neighbor_state_changed_def by (intro keeps_intros intf down_quiet quiet_intros)
  ultimately show ?case using down_interface_event by simp
qed

lemma if_down_action_ok:
  assumes kill: "\<And>r. keeps_ok (k (Neighbor_Event i r Kill_Nbr))"
    and stays: "\<And>r. keeps (down i) (k (Neighbor_Event i r Kill_Nbr))"
  shows "keeps_ok (if_down_action k i)"
  unfolding keeps_def
proof (intro allI impI)
  fix w assume ok: "world_ok w"
  let ?P = "\<lambda>w. world_ok w \<and> down i w"
  let ?kills = "bindM (get_intf i) (\<lambda>it. forM (map fst (is_neighbors it)) (\<lambda>r. k (Neighbor_Event i r Kill_Nbr)))"
  let ?clear = "set_intf i (\<lambda>it. it\<lparr>is_neighbors := [], is_dr := 0, is_bdr := 0\<rparr>)"
  have "keeps ?P (stop_all i)" "keeps ?P ?kills"
    by (intro keeps_conj keeps_intros kill stays down_quiet quiet_intros)+
  moreover have "keeps ?P ?clear"
  proof -
    have "world_ok (upd_intf i f w)" if "world_ok w" "down i w" "f = (\<lambda>it. it\<lparr>is_neighbors := [], is_dr := 0, is_bdr := 0\<rparr>)"
      for f w
      by (rule world_ok_upd_intf [OF that(1)]) (use that(2,3) in \<open>simp add: down_def intf_ok_def\<close>)
    moreover have "down i (upd_intf i f w)" if "down i w" "f = (\<lambda>it. it\<lparr>is_neighbors := [], is_dr := 0, is_bdr := 0\<rparr>)"
      for f w using that by (simp add: down_def upd_intf_def intf_at_def)
    ultimately show ?thesis by (simp add: keeps_def set_intf_def modM_def)
  qed
  ultimately have rest: "keeps ?P (seqM (stop_all i) (seqM ?kills ?clear))"
    by (intro keeps_seq)
  have "?P (snd (set_intf_state i If_Down w))"
    using keeps_run [OF set_intf_state_ok ok, of If_Down i]
    by (auto simp: set_intf_state_def set_intf_def modM_def down_def upd_intf_def intf_at_def)
  then show "world_ok (snd (if_down_action k i w))"
    using keeps_run [OF rest] by (simp add: if_down_action_def seqM_def bindM_def set_intf_state_def set_intf_def modM_def)
qed

lemma run_intf_action_ok:
  assumes el: "keeps_ok (k (Run_Dr_Election i))" and kill: "\<And>r. keeps_ok (k (Neighbor_Event i r Kill_Nbr))"
    and stays: "\<And>r. keeps (down i) (k (Neighbor_Event i r Kill_Nbr))"
  shows "keeps_ok (run_intf_action k i a)"
proof (cases a)
  case If_Up_Action
  show ?thesis unfolding If_Up_Action run_intf_action.simps if_up_action_def
    by (intro keeps_intros el set_intf_state_ok ok_set_intf) (simp_all add: intf_ok_def join_group_def)
next
  case Backup_Seen_Action
  show ?thesis unfolding Backup_Seen_Action run_intf_action.simps
    by (intro keeps_intros el ok_set_intf) (simp_all add: intf_ok_def)
next
  case Loop_Ind_Action
  show ?thesis unfolding Loop_Ind_Action run_intf_action.simps
    by (intro keeps_intros set_intf_state_ok) simp_all
next
  case Unloop_Ind_Action
  show ?thesis unfolding Unloop_Ind_Action run_intf_action.simps
    by (intro set_intf_state_ok) simp_all
next
  case If_Down_Action
  show ?thesis unfolding If_Down_Action run_intf_action.simps
    by (rule if_down_action_ok, rule kill, rule stays)
qed (use el in simp_all)

lemma interface_event_ok:
  assumes "\<And>a. keeps_ok (run_intf_action k i a)"
  shows "keeps_ok (interface_event k i e)"
proof -
  have "keeps_ok (case intf_fsm s e of None \<Rightarrow> retM () | Some a \<Rightarrow> run_intf_action k i a)" for s
    using assms by (cases "intf_fsm s e") (simp_all add: keeps_intros)
  then show ?thesis unfolding interface_event_def intf_state_changed_def Let_def by (intro keeps_intros)
qed

lemma cascade_ok:
  "world_ok w \<Longrightarrow> loading_guard c w \<Longrightarrow> world_ok (snd (cascade f c w))"
proof (induction f arbitrary: c w)
  case 0
  then show ?case by (simp add: raiseM_def)
next
  case (Suc f)
  have k: "keeps_ok (cascade f c)" if "\<And>i r. c \<noteq> Neighbor_Event i r Loading_Done" for c
    using that Suc.IH [of _ c] by (auto simp: keeps_def loading_guard_def split: call.split)
  show ?case
  proof (cases c)
    case (Neighbor_Event i r e)
    then show ?thesis using neighbor_event_ok [of "cascade f" w i r e] Suc.prems k by simp
  next
    case (Neighbor_State_Changed i r old)
    then show ?thesis using keeps_run [OF neighbor_state_changed_ok [of "cascade f" i r old]] k Suc.prems by simp
  next
    case (Interface_Event i e)
    have "keeps_ok (run_intf_action (cascade f) i a)" for a
      using down_cascade by (intro run_intf_action_ok k) auto
    then show ?thesis using keeps_run [OF interface_event_ok] Interface_Event Suc.prems by simp
  next
    case (Run_Dr_Election i)
    then show ?thesis using keeps_run [OF run_dr_election_ok [of "cascade f" i]] k Suc.prems by simp
  qed
qed

lemma nbr_event_ok [keeps_intros]: "e \<noteq> Loading_Done \<Longrightarrow> keeps_ok (nbr_event i r e)"
  by (simp add: keeps_def nbr_event_def cascade_ok loading_guard_def del: cascade.simps)

lemma intf_event_ok [keeps_intros]: "keeps_ok (intf_event i e)"
  by (simp add: keeps_def intf_event_def cascade_ok loading_guard_def del: cascade.simps)

section \<open>Handlers whose steps rely on one another\<close>

text \<open>
  A handler is followed step by step: what a step returns and leaves is the next one's
  precondition, and an exception may end it wherever the invariant holds.
\<close>

definition leads :: "(world \<Rightarrow> bool) \<Rightarrow> 'a M \<Rightarrow> ('a \<Rightarrow> world \<Rightarrow> bool) \<Rightarrow> bool" where
  "leads P m Q \<longleftrightarrow> (\<forall>w. P w \<longrightarrow> (case m w of (Inl e, w') \<Rightarrow> world_ok w' | (Inr x, w') \<Rightarrow> Q x w'))"

definition nbr_in :: "nat \<Rightarrow> ipv4 \<Rightarrow> (nbr_state \<Rightarrow> bool) \<Rightarrow> world \<Rightarrow> bool" where
  "nbr_in i r S w \<longleftrightarrow> world_ok w \<and> (\<forall>n. nbr_at w i r = Some n \<longrightarrow> S (nb_state n))"

lemma leads_bind: "leads P m Q \<Longrightarrow> (\<And>x. leads (Q x) (f x) R) \<Longrightarrow> leads P (bindM m f) R"
  unfolding leads_def bindM_def by (fastforce split: prod.splits sum.splits)

lemma leads_seq: "leads P m (\<lambda>_. Q) \<Longrightarrow> leads Q n R \<Longrightarrow> leads P (seqM m n) R"
  by (simp add: seqM_def leads_bind)

lemma leads_keeps: "keeps P m \<Longrightarrow> (\<And>w. P w \<Longrightarrow> world_ok w) \<Longrightarrow> leads P m (\<lambda>_. P)"
  unfolding leads_def keeps_def by (fastforce split: prod.splits sum.splits)

lemma leads_ok: "keeps_ok m \<Longrightarrow> leads world_ok m (\<lambda>_. world_ok)"
  by (rule leads_keeps)

lemma leads_pre: "leads Q m R \<Longrightarrow> (\<And>w. P w \<Longrightarrow> Q w) \<Longrightarrow> leads P m R"
  by (simp add: leads_def)

lemma leads_get_nbr:
  "(\<And>w. P w \<Longrightarrow> world_ok w) \<Longrightarrow> leads P (get_nbr i r) (\<lambda>n w. P w \<and> nbr_at w i r = Some n)"
  by (auto simp: leads_def get_nbr_def split: option.split)

lemma keeps_of_leads: "leads world_ok m (\<lambda>_. world_ok) \<Longrightarrow> keeps_ok m"
  unfolding leads_def keeps_def by (fastforce split: prod.splits sum.splits)

lemma leads_if: "(b \<Longrightarrow> leads P m Q) \<Longrightarrow> (\<not> b \<Longrightarrow> leads P n Q) \<Longrightarrow> leads P (if b then m else n) Q"
  by simp

lemma nbr_in_ok [simp]: "nbr_in i r S w \<Longrightarrow> world_ok w"
  by (simp add: nbr_in_def)

lemma keeps_quiet_state:
  assumes "keeps P m" and q: "quiet m"
  shows "keeps (\<lambda>w. P w \<and> (\<forall>n. nbr_at w i r = Some n \<longrightarrow> S (nb_state n))) m"
proof -
  have "\<exists>n. nbr_at w i r = Some n \<and> nb_state n = nb_state n'" if "nbr_at (snd (m w)) i r = Some n'" for w n'
  proof -
    have "map_option nbr_view (nbr_at (snd (m w)) i r) = map_option nbr_view (nbr_at w i r)"
      using q by (intro same_view_nbr) (simp add: quiet_def)
    with that show ?thesis by (cases "nbr_at w i r") (auto simp: nbr_view_def)
  qed
  with assms(1) show ?thesis unfolding keeps_def by metis
qed

lemma nbr_in_quiet: "keeps_ok m \<Longrightarrow> quiet m \<Longrightarrow> keeps (nbr_in i r S) m"
  unfolding nbr_in_def [abs_def] by (rule keeps_quiet_state)

lemma leads_quiet: "keeps_ok m \<Longrightarrow> quiet m \<Longrightarrow> leads (nbr_in i r S) m (\<lambda>_. nbr_in i r S)"
  by (rule leads_keeps) (simp_all add: nbr_in_quiet)

lemma leads_set_nbr:
  assumes "\<And>n. S (nb_state n) \<Longrightarrow> nbr_ok n \<Longrightarrow> nbr_ok (f n) \<and> nbr_view (f n) = nbr_view n"
  shows "leads (nbr_in i r S) (set_nbr i r f) (\<lambda>_. nbr_in i r S)"
proof -
  have "nbr_in i r S (upd_nbr i r f w)" if w: "nbr_in i r S w" for w
  proof -
    have at: "S (nb_state n)" "nbr_ok n" if "nbr_at w i r = Some n" for n
      using w that nbr_at_ok [of w i r n] by (auto simp: nbr_in_def)
    have "world_ok (upd_nbr i r f w)"
    proof (rule world_ok_upd_nbr)
      show "world_ok w" using w by simp
      show "nbr_ok (f n) \<and> nb_router_id (f n) = nb_router_id n" if "nbr_at w i r = Some n" for n
      proof -
        have "nbr_ok (f n)" "nbr_view (f n) = nbr_view n" using assms [OF at [OF that]] by blast+
        then show ?thesis by (simp add: nbr_view_def)
      qed
    qed
    moreover have "S (nb_state (f n))" if "nbr_at w i r = Some n" for n
    proof -
      have "nbr_view (f n) = nbr_view n" using assms [OF at [OF that]] by blast
      then show ?thesis using at(1) [OF that] by (simp add: nbr_view_def)
    qed
    ultimately show ?thesis unfolding nbr_in_def by (cases "nbr_at w i r") simp_all
  qed
  then show ?thesis by (simp add: leads_def set_nbr_def modM_def)
qed

text \<open>An event that moves the neighbour without crossing 2-Way schedules origination and no more.\<close>

lemma changed_only_schedules:
  assumes "nbr_at w i r = Some n" and "\<not> crosses_2way old (nb_state n)"
  shows "\<exists>w'. neighbor_state_changed k i r old w = (Inr (), w') \<and> w_intfs w' = w_intfs w
    \<and> map_of (w_router_lsa_pending w') (if_area_id (intf_at w i)) \<noteq> None"
proof -
  have "i < length (w_intfs w)" using assms(1) by (auto simp: nbr_at_def split: if_splits)
  then show ?thesis using assms
    by (auto simp: neighbor_state_changed_def bindM_def get_intf_def get_nbr_def seqM_def whenM_def
        schedule_router_lsa_def schedule_network_lsa_def modM_def retM_def intf_at_def nbr_at_def Let_def
        update_conv')
qed

lemma nbr_at_cong: "w_intfs w' = w_intfs w \<Longrightarrow> nbr_at w' = nbr_at w"
  by (intro ext) (simp add: nbr_at_def intf_at_def)

lemma simple_event:
  assumes n: "nbr_at w i r = Some n" and a: "nbr_fsm (nb_state n) e = Some a"
    and run: "run_nbr_action i r a w = (Inr (), w')" and n': "nbr_at w' i r = Some n'"
    and c: "\<not> crosses_2way (nb_state n) (nb_state n')"
  shows "\<exists>w''. nbr_event i r e w = (Inr (), w'') \<and> w_intfs w'' = w_intfs w'
    \<and> (nb_state n' \<noteq> nb_state n \<longrightarrow> map_of (w_router_lsa_pending w'') (if_area_id (intf_at w' i)) \<noteq> None)"
proof -
  obtain w1 where w1: "neighbor_state_changed (cascade 6) i r (nb_state n) w' = (Inr (), w1)"
    "w_intfs w1 = w_intfs w'" "map_of (w_router_lsa_pending w1) (if_area_id (intf_at w' i)) \<noteq> None"
    using changed_only_schedules [OF n' c] by blast
  have "cascade 8 (Neighbor_Event i r e) = neighbor_event (cascade 7) i r e"
    using cascade.simps(2) [of 7 "Neighbor_Event i r e"] by simp
  moreover have "cascade 7 (Neighbor_State_Changed i r old) = neighbor_state_changed (cascade 6) i r old" for old
    using cascade.simps(2) [of 6 "Neighbor_State_Changed i r old"] by simp
  ultimately show ?thesis using n a run n' w1
    by (simp add: nbr_event_def neighbor_event_def bindM_def get_nbr_def seqM_def whenM_def retM_def Let_def)
qed

lemma negotiation_done_leads:
  "leads (nbr_in i r (\<lambda>s. s = Nbr_ExStart)) (nbr_event i r Negotiation_Done)
     (\<lambda>_. nbr_in i r (\<lambda>s. s = Nbr_Exchange))"
proof -
  have "case nbr_event i r Negotiation_Done w of (Inl e, w') \<Rightarrow> world_ok w'
      | (Inr x, w') \<Rightarrow> nbr_in i r (\<lambda>s. s = Nbr_Exchange) w'"
    if w: "nbr_in i r (\<lambda>s. s = Nbr_ExStart) w" for w
  proof -
    have ok: "world_ok (snd (nbr_event i r Negotiation_Done w))"
      using w keeps_run [OF nbr_event_ok [of Negotiation_Done i r]] by simp
    show ?thesis
    proof (cases "nbr_at w i r")
      case None
      then have "nbr_event i r Negotiation_Done w = (Inl AttributeError, w)"
        using cascade.simps(2) [of 7 "Neighbor_Event i r Negotiation_Done"]
        by (simp add: nbr_event_def neighbor_event_def bindM_def get_nbr_def)
      then show ?thesis using w by simp
    next
      case (Some n)
      let ?f = "\<lambda>n. (set_nbr_state Nbr_Exchange n)
        \<lparr>nb_db_summary_list := get_all_headers (if_area_id (intf_at w i)) (w_lsdb w)\<rparr>"
      have s: "nb_state n = Nbr_ExStart" using w Some by (simp add: nbr_in_def)
      have i: "i < length (w_intfs w)" using Some by (auto simp: nbr_at_def split: if_splits)
      have run: "run_nbr_action i r Negotiation_Done_Action w = (Inr (), upd_nbr i r ?f w)"
        using i by (simp add: bindM_def get_intf_def getM_def set_nbr_def modM_def)
      have n': "nbr_at (upd_nbr i r ?f w) i r = Some (?f n)" using Some by simp
      have a: "nbr_fsm (nb_state n) Negotiation_Done = Some Negotiation_Done_Action"
        using s by (simp add: nbr_fsm_def)
      have "\<not> crosses_2way (nb_state n) (nb_state (?f n))"
        using s by (simp add: crosses_2way_def set_nbr_state_def nbr_order)
      from simple_event [OF Some a run n' this] obtain w'' where
        e: "nbr_event i r Negotiation_Done w = (Inr (), w'')" "w_intfs w'' = w_intfs (upd_nbr i r ?f w)"
        by blast
      then have "nbr_at w'' i r = Some (?f n)" using n' nbr_at_cong by metis
      then show ?thesis using e ok by (simp add: nbr_in_def set_nbr_state_def)
    qed
  qed
  then show ?thesis by (simp add: leads_def)
qed

lemma same_state_event:
  \<comment> \<open>an event that leaves the neighbour's state alone is its action\<close>
  assumes "nbr_at w i r = Some n" and "nbr_fsm (nb_state n) e = None"
    and "e \<noteq> Kill_Nbr" and "e \<noteq> LL_Down" and "e \<noteq> Inactivity_Timer"
  shows "nbr_event i r e w = (Inr (), w)"
  using assms cascade.simps(2) [of 7 "Neighbor_Event i r e"]
  by (simp add: nbr_event_def neighbor_event_def bindM_def get_nbr_def seqM_def whenM_def retM_def Let_def)

lemma absent_event: "nbr_at w i r = None \<Longrightarrow> nbr_event i r e w = (Inl AttributeError, w)"
  using cascade.simps(2) [of 7 "Neighbor_Event i r e"]
  by (simp add: nbr_event_def neighbor_event_def bindM_def get_nbr_def)

lemma failed_event:
  assumes "nbr_at w i r = Some n" and "nbr_fsm (nb_state n) e = Some a"
    and "run_nbr_action i r a w = (Inl x, w')"
  shows "nbr_event i r e w = (Inl x, w')"
  using assms cascade.simps(2) [of 7 "Neighbor_Event i r e"]
  by (simp add: nbr_event_def neighbor_event_def bindM_def get_nbr_def seqM_def Let_def)

lemma exchange_done_action_state:
  assumes "run_nbr_action i r Exchange_Done_Action w = (Inr (), w')" and "nbr_at w i r = Some n"
  obtains n' where "nbr_at w' i r = Some n'" and "nb_state n' = Nbr_Loading \<or> nb_state n' = Nbr_Full"
proof (cases "nb_ls_request_list n = []")
  case True
  then have "w' = upd_nbr i r (\<lambda>n. nb_rxmt_timer_update pt_stop (set_nbr_state Nbr_Full n)) w"
    using assms by (simp add: bindM_def get_nbr_def set_nbr_def modM_def)
  then show ?thesis using that assms(2) by (simp add: set_nbr_state_def)
next
  case False
  then have "send_ls_request i r (upd_nbr i r (set_nbr_state Nbr_Loading) w) = (Inr (), w')"
    using assms by (simp add: bindM_def get_nbr_def set_nbr_def modM_def seqM_def)
  then have v: "same_view (upd_nbr i r (set_nbr_state Nbr_Loading) w) w'"
    by (rule quiet_same_view [OF quiet_send_ls_request])
  have "nbr_at (upd_nbr i r (set_nbr_state Nbr_Loading) w) i r = Some (set_nbr_state Nbr_Loading n)"
    using assms(2) by simp
  from same_view_state [OF v this] obtain n' where
    "nbr_at w' i r = Some n'" "nbr_view n' = nbr_view (set_nbr_state Nbr_Loading n)" .
  then show ?thesis using that by (simp add: nbr_view_def set_nbr_state_def)
qed

lemma exchange_done_leads:
  "leads (nbr_in i r (\<lambda>s. s \<ge> Nbr_ExStart)) (nbr_event i r Exchange_Done)
     (\<lambda>_. nbr_in i r (\<lambda>s. s \<ge> Nbr_ExStart))"
proof -
  have "case nbr_event i r Exchange_Done w of (Inl e, w') \<Rightarrow> world_ok w'
      | (Inr x, w') \<Rightarrow> nbr_in i r (\<lambda>s. s \<ge> Nbr_ExStart) w'"
    if w: "nbr_in i r (\<lambda>s. s \<ge> Nbr_ExStart) w" for w
  proof (cases "nbr_at w i r")
    case None
    then show ?thesis using w by (simp add: absent_event)
  next
    case (Some n)
    have ok: "world_ok (snd (nbr_event i r Exchange_Done w))"
      using w keeps_run [OF nbr_event_ok [of Exchange_Done i r]] by simp
    show ?thesis
    proof (cases "nb_state n = Nbr_Exchange")
      case False
      then have "nbr_fsm (nb_state n) Exchange_Done = None" by (simp add: nbr_fsm_def split: nbr_state.split)
      then show ?thesis using same_state_event [OF Some] w by simp
    next
      case s: True
      then have a: "nbr_fsm (nb_state n) Exchange_Done = Some Exchange_Done_Action"
        by (simp add: nbr_fsm_def)
      obtain x w' where run: "run_nbr_action i r Exchange_Done_Action w = (x, w')" by fastforce
      show ?thesis
      proof (cases x)
        case (Inl e)
        then show ?thesis using failed_event [OF Some a] run ok by simp
      next
        case (Inr u)
        then obtain n' where n': "nbr_at w' i r = Some n'" "nb_state n' = Nbr_Loading \<or> nb_state n' = Nbr_Full"
          using run exchange_done_action_state [OF _ Some] by auto
        have "\<not> crosses_2way (nb_state n) (nb_state n')"
          using s n' by (auto simp: crosses_2way_def nbr_order)
        from simple_event [OF Some a _ n'(1) this] obtain w'' where
          e: "nbr_event i r Exchange_Done w = (Inr (), w'')" "w_intfs w'' = w_intfs w'"
          using run Inr by auto
        then have "nbr_at w'' i r = Some n'" using n' nbr_at_cong by metis
        then show ?thesis using e ok n'(2) by (auto simp: nbr_in_def nbr_order)
      qed
    qed
  qed
  then show ?thesis by (simp add: leads_def)
qed

section \<open>The packet handlers keep it\<close>

lemma process_dd_headers_leads:
  "leads (nbr_in i r (\<lambda>s. s = Nbr_Exchange)) (process_dd_headers i r dd)
     (\<lambda>_. nbr_in i r (\<lambda>s. s = Nbr_Exchange))"
  unfolding process_dd_headers_def
  by (rule leads_bind [OF leads_quiet] keeps_get keeps_simple quiet_intros)+
    (rule leads_set_nbr, auto simp: add_requests_def nbr_ok_def nbr_view_def nbr_order)

lemma record_dd_leads:
  "leads (nbr_in i r (\<lambda>s. s \<ge> Nbr_ExStart)) (set_nbr i r (\<lambda>n. n\<lparr>nb_last_received_dd := Some dd,
     nb_dd_seq_number := g n\<rparr>)) (\<lambda>_. nbr_in i r (\<lambda>s. s \<ge> Nbr_ExStart))"
  "leads (nbr_in i r (\<lambda>s. s \<ge> Nbr_ExStart)) (set_nbr i r (nb_last_received_dd_update (\<lambda>_. Some dd)))
     (\<lambda>_. nbr_in i r (\<lambda>s. s \<ge> Nbr_ExStart))"
  by (rule leads_set_nbr, auto simp: nbr_ok_def nbr_view_def nbr_order)+

lemma nbr_in_weaken: "nbr_in i r S w \<Longrightarrow> (\<And>s. S s \<Longrightarrow> T s) \<Longrightarrow> nbr_in i r T w"
  by (auto simp: nbr_in_def)

lemma leads_end: "keeps_ok m \<Longrightarrow> leads (nbr_in i r S) m (\<lambda>_. world_ok)"
  by (rule leads_pre [OF leads_ok]) simp_all

lemma leads_weaken: "leads P m Q \<Longrightarrow> (\<And>x w. Q x w \<Longrightarrow> R x w) \<Longrightarrow> leads P m R"
  unfolding leads_def by (fastforce split: prod.splits sum.splits)

lemma leads_step:
  "keeps_ok m \<Longrightarrow> quiet m \<Longrightarrow> (\<And>x. leads (nbr_in i r S) (f x) R) \<Longrightarrow> leads (nbr_in i r S) (bindM m f) R"
  by (rule leads_bind [OF leads_quiet])

lemma leads_skip: "leads (nbr_in i r S) (retM ()) (\<lambda>_. world_ok)"
  by (intro leads_end keeps_simple)

lemma leads_when:
  "(b \<Longrightarrow> leads (nbr_in i r S) m (\<lambda>_. world_ok)) \<Longrightarrow> leads (nbr_in i r S) (whenM b m) (\<lambda>_. world_ok)"
  by (simp add: whenM_def leads_skip)

lemma leads_exchange:
  "leads (nbr_in i r (\<lambda>s. s \<ge> Nbr_ExStart)) m R \<Longrightarrow> leads (nbr_in i r (\<lambda>s. s = Nbr_Exchange)) m R"
  by (erule leads_pre) (auto intro: nbr_in_weaken simp: nbr_order)

lemma process_dd_exstart_leads:
  "leads (nbr_in i r (\<lambda>s. s = Nbr_ExStart)) (process_dd_exstart i r dd) (\<lambda>_. world_ok)"
  unfolding process_dd_exstart_def
proof (rule leads_step [OF keeps_get(2) quiet_get(3)], rule leads_step [OF keeps_simple(4) quiet_get(1)],
    intro leads_if leads_when)
  fix n
  show "leads (nbr_in i r (\<lambda>s. s = Nbr_ExStart))
      (seqM (set_nbr i r (\<lambda>n. n\<lparr>nb_is_master := False, nb_dd_seq_number := dd_seq_number dd,
             nb_dd_options := dd_options dd, nb_dd_rxmt_timer := pt_stop (nb_dd_rxmt_timer n)\<rparr>))
         (seqM (nbr_event i r Negotiation_Done) (send_dd_slave i r))) (\<lambda>_. world_ok)"
    by (rule leads_seq, rule leads_set_nbr, simp add: nbr_ok_def nbr_view_def,
        rule leads_seq, rule negotiation_done_leads, intro leads_end keeps_intros)
next
  have last: "leads (nbr_in i r (\<lambda>s. s = Nbr_Exchange))
      (seqM (set_nbr i r (\<lambda>n. n\<lparr>nb_last_received_dd := Some dd, nb_dd_seq_number := nb_dd_seq_number n + 1\<rparr>))
         (send_dd_master i r)) (\<lambda>_. world_ok)"
    by (rule leads_exchange, rule leads_seq, rule record_dd_leads, intro leads_end keeps_intros)
  show "leads (nbr_in i r (\<lambda>s. s = Nbr_ExStart))
      (seqM (set_nbr i r (\<lambda>n. n\<lparr>nb_is_master := True, nb_dd_options := dd_options dd,
           nb_dd_rxmt_timer := pt_stop (nb_dd_rxmt_timer n)\<rparr>))
       (seqM (nbr_event i r Negotiation_Done)
       (seqM (process_dd_headers i r dd)
       (seqM (set_nbr i r (\<lambda>n. n\<lparr>nb_last_received_dd := Some dd,
           nb_dd_seq_number := nb_dd_seq_number n + 1\<rparr>))
         (send_dd_master i r))))) (\<lambda>_. world_ok)"
    by (rule leads_seq, rule leads_set_nbr, simp add: nbr_ok_def nbr_view_def,
        rule leads_seq, rule negotiation_done_leads,
        rule leads_seq, rule process_dd_headers_leads, rule last)
qed (rule leads_skip)

lemma exchange_finish_leads:
  "leads (nbr_in i r (\<lambda>s. s \<ge> Nbr_ExStart))
     (seqM
         (if master then
            seqM (set_nbr i r (nb_dd_seq_number_update (\<lambda>s. s + 1)))
            (bindM (get_nbr i r) (\<lambda>n.
               if \<not> dd_is_more dd \<and> nb_db_summary_list n = [] then nbr_event i r Exchange_Done
               else send_dd_master i r))
          else
            seqM (send_dd_slave i r)
            (bindM (get_nbr i r) (\<lambda>n.
               whenM (\<not> dd_is_more dd \<and> nb_db_summary_list n = []) (nbr_event i r Exchange_Done))))
         (set_nbr i r (nb_last_received_dd_update (\<lambda>_. Some dd)))) (\<lambda>_. world_ok)"
proof -
  note q = leads_quiet [where S = "\<lambda>s. s \<ge> Nbr_ExStart"]
  let ?P = "nbr_in i r (\<lambda>s. s \<ge> Nbr_ExStart)"
  have "leads ?P (set_nbr i r (nb_last_received_dd_update (\<lambda>_. Some dd))) (\<lambda>_. world_ok)"
    by (rule leads_weaken, rule record_dd_leads, simp)
  moreover have "leads ?P (seqM (set_nbr i r (nb_dd_seq_number_update (\<lambda>s. s + 1)))
      (bindM (get_nbr i r) (\<lambda>n. if \<not> dd_is_more dd \<and> nb_db_summary_list n = []
        then nbr_event i r Exchange_Done else send_dd_master i r))) (\<lambda>_. ?P)"
    by (rule leads_seq, rule leads_set_nbr, simp add: nbr_ok_def nbr_view_def,
        rule leads_step [OF keeps_get(2) quiet_get(3)], rule leads_if, rule exchange_done_leads,
        rule q, (intro keeps_intros quiet_intros)+)
  moreover have "leads ?P (seqM (send_dd_slave i r)
      (bindM (get_nbr i r) (\<lambda>n. whenM (\<not> dd_is_more dd \<and> nb_db_summary_list n = [])
        (nbr_event i r Exchange_Done)))) (\<lambda>_. ?P)"
    unfolding whenM_def
    by (rule leads_seq, rule q, (intro keeps_intros quiet_intros)+,
        rule leads_step [OF keeps_get(2) quiet_get(3)], rule leads_if, rule exchange_done_leads,
        rule q, (intro keeps_intros quiet_intros)+)
  ultimately show ?thesis by (cases master) (simp_all add: leads_seq)
qed

lemma process_dd_exchange_leads:
  "leads (nbr_in i r (\<lambda>s. s = Nbr_Exchange)) (process_dd_exchange i r dd) (\<lambda>_. world_ok)"
proof -
  have "leads (nbr_in i r (\<lambda>s. s = Nbr_Exchange))
      (whenM b (set_nbr i r (nb_dd_seq_number_update (\<lambda>_. x)))) (\<lambda>_. nbr_in i r (\<lambda>s. s = Nbr_Exchange))"
    for b x
    unfolding whenM_def
    by (rule leads_if, rule leads_set_nbr, simp add: nbr_ok_def nbr_view_def,
        rule leads_quiet, (intro keeps_intros quiet_intros)+)
  note number = leads_seq [OF this leads_seq [OF process_dd_headers_leads leads_exchange [OF exchange_finish_leads]]]
  show ?thesis
    unfolding process_dd_exchange_def
    by (rule leads_step [OF keeps_get(2) quiet_get(3)])
      (intro leads_if number leads_end keeps_intros, simp_all)
qed

lemma process_dd_ok: "keeps_ok (process_dd i r dd)"
proof (rule keeps_of_leads)
  have at: "leads (\<lambda>w. world_ok w \<and> nbr_at w i r = Some n) m R"
    if "leads (nbr_in i r (\<lambda>s. s = nb_state n)) m R" for n m and R :: "unit \<Rightarrow> world \<Rightarrow> bool"
    using that by (rule leads_pre) (simp add: nbr_in_def)
  have "leads (nbr_in i r (\<lambda>s. s = nb_state n)) (process_dd_exstart i r dd) (\<lambda>_. world_ok)"
    if "nb_state n = Nbr_ExStart" for n using process_dd_exstart_leads that by simp
  note exstart = at [OF this]
  have "leads (nbr_in i r (\<lambda>s. s = nb_state n)) (process_dd_exchange i r dd) (\<lambda>_. world_ok)"
    if "nb_state n = Nbr_Exchange" for n using process_dd_exchange_leads that by simp
  note exchange = at [OF this]
  have other: "leads (\<lambda>w. world_ok w \<and> nbr_at w i r = Some n) m (\<lambda>_. world_ok)"
    if "keeps_ok m" for n and m :: "unit M" using leads_ok [OF that] by (rule leads_pre) simp
  show "leads world_ok (process_dd i r dd) (\<lambda>_. world_ok)"
    unfolding process_dd_def
    by (rule leads_bind, rule leads_get_nbr, assumption, rule leads_if, rule other, rule keeps_simple,
        rule leads_seq, rule other, (intro keeps_intros, simp)+, rule leads_bind, rule leads_get_nbr, assumption)
      (intro leads_if exstart exchange other keeps_intros, simp_all)
qed

lemma length_fold_delete: "length (fold AList.delete ks xs) \<le> length xs"
proof (induction ks arbitrary: xs)
  case (Cons k ks)
  show ?case using Cons [of "AList.delete k xs"] length_delete_le [of k xs] by simp
qed simp

lemma fold_delete_Nil [simp]: "fold AList.delete ks [] = []"
  by (induction ks) simp_all

lemma ok_case_option:
  "keeps_ok m \<Longrightarrow> (\<And>x. keeps_ok (f x)) \<Longrightarrow> keeps_ok (case y of None \<Rightarrow> m | Some x \<Rightarrow> f x)"
  by (cases y) simp_all

lemma ok_send_ls_update [keeps_intros]: "keeps_ok (send_ls_update area i r lsas)"
  unfolding send_ls_update_def serialize_stored_lsas_def
  by (intro keeps_intros) (auto intro!: keeps_intros ok_mod)

lemma process_ls_request_ok: "keeps_ok (process_ls_request i r items)"
  unfolding process_ls_request_def by (intro keeps_intros ok_case_option) simp_all

lemma loading_done_leads:
  "leads (\<lambda>w. world_ok w \<and> nbr_at w i r = Some n)
     (whenM (nb_state n = Nbr_Loading \<and> nb_ls_request_list n = []) (nbr_event i r Loading_Done)) (\<lambda>_. world_ok)"
proof (cases "nb_state n = Nbr_Loading \<and> nb_ls_request_list n = []")
  case True
  have "world_ok (snd (nbr_event i r Loading_Done w))" if "world_ok w" "nbr_at w i r = Some n" for w
    unfolding nbr_event_def using that True by (intro cascade_ok) (simp_all add: loading_guard_def)
  then show ?thesis using True by (auto simp: leads_def whenM_def split: prod.split sum.split) (metis snd_conv)+
next
  case False
  then show ?thesis by (auto simp: leads_def whenM_def retM_def)
qed

lemma process_ls_update_ok: "keeps_ok (process_ls_update i r keys)"
  unfolding process_ls_update_def
  by (rule keeps_of_leads, rule leads_seq, rule leads_ok, rule ok_set_nbr,
      simp add: nbr_ok_def le_trans [OF length_fold_delete],
      rule leads_bind, rule leads_get_nbr, assumption, rule loading_done_leads)

lemma process_ls_ack_ok: "keeps_ok (process_ls_ack i r hs)"
  unfolding process_ls_ack_def
  by (intro ok_set_nbr) (simp add: nbr_ok_def le_trans [OF length_fold_delete])

lemma new_neighbor_ok: "nbr_ok (neighbor_create rid addr it)"
  by (simp add: neighbor_create_def nbr_ok_def nbr_order)

lemma new_neighbor_id [simp]: "nb_router_id (neighbor_create rid addr it) = rid"
  by (simp add: neighbor_create_def)

lemma map_fst_update_new: "r \<notin> fst ` set xs \<Longrightarrow> AList.update r v xs = xs @ [(r, v)]"
  by (induction xs) auto

lemma add_neighbor_ok:
  assumes "world_ok w" and "i < length (w_intfs w)"
    and "map_of (is_neighbors (intf_at w i)) rid = None" and "length (is_neighbors (intf_at w i)) < 128"
    and "nbr_ok n" and "nb_router_id n = rid"
  shows "world_ok (upd_intf i (is_neighbors_update (AList.update rid n)) w)"
proof (rule world_ok_upd_intf [OF assms(1)])
  show "intf_ok (is_neighbors_update (AList.update rid n) (intf_at w i))"
    using world_ok_intf [OF assms(1,2)] assms(3-)
    by (simp add: intf_ok_def map_of_eq_None_iff map_fst_update_new)
qed

text \<open>The head of the Hello handler, which may add the neighbour; the rest works on what is there.\<close>

lemma process_hello_keeps:
  assumes ok: "P w"
    and new: "i < length (w_intfs w) \<Longrightarrow> map_of (is_neighbors (intf_at w i)) rid = None
      \<Longrightarrow> length (is_neighbors (intf_at w i)) < 128
      \<Longrightarrow> P (upd_intf i (is_neighbors_update (AList.update rid (neighbor_create rid src (intf_at w i)))) w)"
    and fields: "keeps P (set_nbr i rid (update_hello_fields hello src))"
    and events: "\<And>e. e \<in> {Hello_Received, Two_Way_Received, One_Way} \<Longrightarrow> keeps P (nbr_event i rid e)"
      "\<And>e. keeps P (intf_event i e)"
  shows "P (snd (process_hello i hello src rid w))"
proof -
  let ?it = "intf_at w i"
  let ?new = "whenM (map_of (is_neighbors ?it) rid = None)
    (set_intf i (is_neighbors_update (AList.update rid (neighbor_create rid src ?it))))"
  have rest: "keeps P (bindM (get_nbr i rid) (\<lambda>old.
       seqM (set_nbr i rid (update_hello_fields hello src))
       (seqM (nbr_event i rid Hello_Received)
       (bindM (getM w_router_id) (\<lambda>my_rid. bindM (get_nbr i rid) (\<lambda>n.
       seqM
         (if my_rid \<in> set (hp_neighbors hello)
          then whenM (nb_state n = Nbr_Init) (nbr_event i rid Two_Way_Received)
          else whenM (nb_state n \<ge> Nbr_2Way) (nbr_event i rid One_Way))
       (bindM (get_intf i) (\<lambda>it.
       seqM
         (whenM (is_state it = If_Waiting)
           (if hp_backup_designated_router hello = src then intf_event i Backup_Seen
            else if hp_designated_router hello = src \<and> hp_backup_designated_router hello = 0
            then intf_event i Backup_Seen else retM ()))
       (bindM (get_nbr i rid) (\<lambda>n.
          whenM (nb_state n \<ge> Nbr_2Way \<and> (nb_dr old \<noteq> nb_dr n \<or> nb_bdr old \<noteq> nb_bdr n))
            (intf_event i Nbr_Change)))))))))))" (is "keeps P ?rest")
    by (intro keeps_intros fields events) simp_all
  show ?thesis
  proof (cases "i < length (w_intfs w) \<and> hello_acceptable (w_options w) ?it hello
      \<and> \<not> (map_of (is_neighbors ?it) rid = None \<and> length (is_neighbors ?it) \<ge> 128)")
    case True
    have "P (snd (?new w))"
      using True ok new by (auto simp: whenM_def retM_def set_intf_def modM_def)
    moreover obtain w' where "?new w = (Inr (), w')"
      by (cases "map_of (is_neighbors ?it) rid = None") (auto simp: whenM_def retM_def set_intf_def modM_def)
    moreover have "process_hello i hello src rid w = seqM ?new ?rest w"
      using True by (simp only: process_hello_def bind_get_intf bind_getM if_False simp_thms)
    ultimately show ?thesis using keeps_run [OF rest, of w'] by (simp add: seqM_def bindM_def)
  next
    case False
    then show ?thesis using ok by (auto simp: process_hello_def bindM_def get_intf_def getM_def retM_def)
  qed
qed

lemma process_hello_ok: "keeps_ok (process_hello i hello src rid)"
  unfolding keeps_def
proof (intro allI impI)
  fix w assume ok: "world_ok w"
  show "world_ok (snd (process_hello i hello src rid w))"
  proof (rule process_hello_keeps [where P = world_ok, OF ok])
    show "keeps_ok (set_nbr i rid (update_hello_fields hello src))"
      by (intro ok_set_nbr) (simp_all add: update_hello_fields_def nbr_ok_def)
  qed (auto intro: add_neighbor_ok [OF ok] new_neighbor_ok keeps_intros)
qed

section \<open>Timers, acknowledgments and shutdown keep it\<close>

lemma flush_delayed_acks_ok [keeps_intros]: "keeps_ok (flush_delayed_acks i)"
  unfolding flush_delayed_acks_def Let_def
  by (intro keeps_intros ok_set_intf) (simp_all add: intf_ok_def)

lemma queue_delayed_ack_ok: "keeps_ok (queue_delayed_ack i h)"
  unfolding queue_delayed_ack_def by (intro ok_set_intf) (simp add: intf_ok_def)

lemma fire_interface_timers_ok:
  "keeps_ok (fire_wait_timer i)" "keeps_ok (fire_hello_timer i)" "keeps_ok (fire_ack_timer i)"
  unfolding fire_wait_timer_def fire_hello_timer_def fire_ack_timer_def
  by (intro keeps_intros ok_set_intf, simp_all add: intf_ok_def)+

lemma fire_neighbor_timers_ok:
  "keeps_ok (fire_inactivity_timer i r)" "keeps_ok (fire_rxmt_timer i r)" "keeps_ok (fire_dd_rxmt_timer i r)"
  unfolding fire_inactivity_timer_def fire_rxmt_timer_def fire_dd_rxmt_timer_def
  by (intro keeps_intros ok_set_nbr, simp_all add: nbr_ok_def)+

lemma interface_shutdown_ok: "keeps_ok (interface_shutdown i)"
  unfolding interface_shutdown_def
  by (intro keeps_intros ok_set_nbr ok_set_intf) (simp_all add: nbr_destroy_def nbr_ok_simps intf_ok_def)

end
