(* ===== verification/Flooding.thy ===== *)
theory Flooding
  imports Fsm_Invariant Ip_Util
begin

text \<open>
  Flooding, origination and ageing of LSAs: \<^verbatim>\<open>lsdb/flooding.py\<close>, \<^verbatim>\<open>lsdb/origination.py\<close> and
  \<^verbatim>\<open>lsdb/aging.py\<close>. An LSA that is flooded is an object of the database: it is named by its area and
  key and read when it is used, so that what serializing it writes into its header is seen by the
  next use, as in Python.
\<close>

section \<open>LSAs of the database\<close>

definition get_lsa :: "ipv4 \<Rightarrow> lsa_ident \<Rightarrow> lsa M" where
  \<comment> \<open>the handlers hold a reference to an LSA of the database; there is none otherwise\<close>
  "get_lsa area key = (\<lambda>w. case lsdb_lookup area key (w_lsdb w) of
     None \<Rightarrow> (Inl AttributeError, w) | Some l \<Rightarrow> (Inr l, w))"

definition serialize_flooded :: "ipv4 \<Rightarrow> lsa_ident \<Rightarrow> bytes M" where
  \<comment> \<open>\<^verbatim>\<open>LsuPacket(lsas=[lsa]).serialize()\<close>\<close>
  "serialize_flooded area key = bindM (get_lsa area key) (\<lambda>l. serialize_stored_lsas area [l])"

definition installM :: "ipv4 \<Rightarrow> lsa \<Rightarrow> bool M" where
  "installM area l = (\<lambda>w. let ((installed, old), d) = lsdb_install (w_now w) area l (w_lsdb w)
     in (Inr installed, w\<lparr>w_lsdb := d\<rparr>))"

section \<open>Flooding\<close>

fun enlist :: "ipv4 \<Rightarrow> lsa_ident \<Rightarrow> nat \<Rightarrow> ipv4 list \<Rightarrow> bool M" where
  \<comment> \<open>adds the LSA to the retransmission lists; \<open>False\<close> when a full list ends the flooding\<close>
  "enlist area key i [] = retM True"
| "enlist area key i (r # rs) =
     bindM (get_nbr i r) (\<lambda>n.
     if map_of (nb_ls_retransmission_list n) key \<noteq> None then enlist area key i rs
     else if int (length (nb_ls_retransmission_list n)) \<ge> 1000
     then seqM (nbr_event i r Kill_Nbr) (retM False)
     else bindM (get_lsa area key) (\<lambda>l.
       seqM (set_nbr i r (nb_ls_retransmission_list_update (AList.update key l)))
         (enlist area key i rs)))"

definition is_multi_access :: "'a intf_attrs_scheme \<Rightarrow> bool" where
  "is_multi_access it \<longleftrightarrow> if_type it = 2 \<or> if_type it = 3"

definition eligible_neighbors :: "ospf_interface \<Rightarrow> ipv4 list" where
  "eligible_neighbors it = map fst (filter (\<lambda>(r, n). nb_state n \<ge> Nbr_Exchange) (is_neighbors it))"

definition flood_to_interface :: "ipv4 \<Rightarrow> lsa_ident \<Rightarrow> nat \<Rightarrow> unit M" where
  "flood_to_interface area key i =
     bindM (get_intf i) (\<lambda>it. let eligible = eligible_neighbors it in
     if eligible = [] then retM ()
     else bindM (enlist area key i eligible) (\<lambda>alive. whenM alive
       (bindM (get_intf i) (\<lambda>it.
        if is_multi_access it then
          bindM (serialize_flooded area key) (\<lambda>body. send_packet i 4 body
            (if is_state it = If_DR \<or> is_state it = If_Backup then all_spf_routers else all_d_routers))
        else forM eligible (\<lambda>r. bindM (serialize_flooded area key) (\<lambda>body.
          bindM (get_nbr i r) (\<lambda>n. send_packet i 4 body (nb_ip_addr n))))))))"

definition flood_back_to_source :: "ipv4 \<Rightarrow> lsa_ident \<Rightarrow> nat \<Rightarrow> unit M" where
  "flood_back_to_source area key i =
     bindM (get_intf i) (\<lambda>it. whenM (is_multi_access it \<and> is_state it = If_DR)
       (bindM (serialize_flooded area key) (\<lambda>body. send_packet i 4 body all_spf_routers)))"

definition flood_areas :: "ipv4 \<Rightarrow> int \<Rightarrow> (ipv4 \<times> ospf_area) list \<Rightarrow> ospf_area list" where
  \<comment> \<open>the areas an LSA of this type is flooded through\<close>
  "flood_areas area ty areas =
     (if ty = 5 \<or> ty = 11 then map snd areas
      else case map_of areas area of None \<Rightarrow> [] | Some a \<Rightarrow> [a])"

definition flood_lsa :: "ipv4 \<Rightarrow> lsa_ident \<Rightarrow> nat option \<Rightarrow> unit M" where
  "flood_lsa area key recv_intf =
     bindM (getM w_areas) (\<lambda>areas.
       forM (flood_areas area (fst key) areas) (\<lambda>a. forM (ar_interfaces a) (\<lambda>i.
         if Some i = recv_intf then flood_back_to_source area key i
         else flood_to_interface area key i)))"

section \<open>Origination\<close>

definition initial_seq_num :: int where "initial_seq_num = 0x80000001"
definition max_seq_num :: int where "max_seq_num = 0x7FFFFFFF"
definition min_ls_interval :: time where "min_ls_interval = 5"

definition next_seq_num :: "ipv4 \<Rightarrow> lsa_ident \<Rightarrow> int option \<Rightarrow> lsdb \<Rightarrow> int option" where
  \<comment> \<open>the sequence number of the new instance, \<open>None\<close> when there is none to use\<close>
  "next_seq_num area key seq_num d =
     (case seq_num of
        Some s \<Rightarrow> Some s
      | None \<Rightarrow> (case lsdb_lookup area key d of
            None \<Rightarrow> Some initial_seq_num
          | Some existing \<Rightarrow>
              if is_self_originated d existing then
                (let s = lh_ls_sequence_number (l_header existing) + 1
                 in if s > max_seq_num then None else Some s)
              else Some initial_seq_num))"

definition originate :: "ipv4 \<Rightarrow> int \<Rightarrow> ipv4 \<Rightarrow> lsa_body option \<Rightarrow> int option \<Rightarrow> lsa option M" where
  "originate area ls_type link_state_id body seq_num =
     bindM (getM id) (\<lambda>w.
     let key = (ls_type, link_state_id, w_router_id w); now = w_now w;
         last = (case map_of (w_last_origination w) key of None \<Rightarrow> 0 | Some t \<Rightarrow> t)
     in if now - last < min_ls_interval then retM None
     else case next_seq_num area key seq_num (w_lsdb w) of
       None \<Rightarrow> retM None
     | Some s \<Rightarrow>
         let header = \<lparr>lh_ls_age = 0, lh_options = w_options w, lh_ls_type = ls_type,
               lh_link_state_id = link_state_id, lh_advertising_router = w_router_id w,
               lh_ls_sequence_number = s, lh_ls_checksum = 0, lh_length = 0\<rparr>;
             l = \<lparr>l_header = header, l_body = body, l_install_time = None, l_installed_age = 0\<rparr>
         in bindM (liftM (lsa_serialize now True l)) (\<lambda>(_, l).
            bindM (installM area l) (\<lambda>installed.
            seqM (whenM installed
                (seqM (modM (w_last_origination_update (AList.update key now)))
                  (flood_lsa area key None)))
              (retM (Some l)))))"

definition stub_link :: "ipv4 \<Rightarrow> ipv4 \<Rightarrow> int \<Rightarrow> router_link" where
  "stub_link link_id link_data metric = \<lparr>rl_link_id = link_id, rl_link_data = link_data, rl_type = 3,
     rl_num_tos = 0, rl_metric = metric, rl_tos_metrics = []\<rparr>"

definition transit_link :: "ospf_interface \<Rightarrow> router_link" where
  "transit_link it = \<lparr>rl_link_id = is_dr it, rl_link_data = if_ip_addr it, rl_type = 2,
     rl_num_tos = 0, rl_metric = if_cost it, rl_tos_metrics = []\<rparr>"

definition p2p_links :: "ospf_interface \<Rightarrow> router_link list" where
  "p2p_links it = map (\<lambda>n. \<lparr>rl_link_id = nb_router_id n, rl_link_data = if_ip_addr it, rl_type = 1,
     rl_num_tos = 0, rl_metric = if_cost it, rl_tos_metrics = []\<rparr>) (full_neighbors it)"

definition subnet_link :: "ospf_interface \<Rightarrow> router_link" where
  "subnet_link it = stub_link (network_address (if_ip_addr it) (if_ip_mask it)) (if_ip_mask it) (if_cost it)"

definition host_link :: "ospf_interface \<Rightarrow> router_link" where
  "host_link it = stub_link (if_ip_addr it) 0xFFFFFFFF 0"

definition interface_links :: "ospf_interface \<Rightarrow> router_link list" where
  \<comment> \<open>the links an interface contributes to the Router LSA\<close>
  "interface_links it =
     (if is_state it = If_Loopback then [host_link it]
      else if is_state it = If_Down then []
      else if if_type it = 1 then p2p_links it @ [subnet_link it]
      else if if_type it = 2 \<or> if_type it = 3 then
        (if is_state it = If_DR \<and> full_neighbors it \<noteq> [] then [transit_link it]
         else if full_neighbors it \<noteq> [] \<and> is_dr it \<noteq> 0 then [transit_link it]
         else [subnet_link it])
      else if if_type it = 4 then host_link it # p2p_links it
      else [])"

definition router_lsa_flags :: "world \<Rightarrow> int" where
  "router_lsa_flags w =
     (let flags = (if length (w_areas w) > 1 then 0 OR 0x01 else 0)
      in if w_is_asbr w then flags OR 0x02 else flags)"

definition get_interfaces_for_area :: "ipv4 \<Rightarrow> world \<Rightarrow> nat list" where
  "get_interfaces_for_area area w =
     (case map_of (w_areas w) area of None \<Rightarrow> [] | Some a \<Rightarrow> ar_interfaces a)"

definition originate_router_lsa :: "ipv4 \<Rightarrow> lsa option M" where
  "originate_router_lsa area =
     bindM (getM id) (\<lambda>w.
       let links = concat (map (\<lambda>i. interface_links (intf_at w i)) (get_interfaces_for_area area w))
       in originate area 1 (w_router_id w)
         (Some (Router_Body \<lparr>rt_flags = router_lsa_flags w, rt_num_links = int (length links),
            rt_links = links\<rparr>)) None)"

definition originate_network_lsa :: "nat \<Rightarrow> lsa option M" where
  "originate_network_lsa i =
     bindM (get_intf i) (\<lambda>it. bindM (getM w_router_id) (\<lambda>rid.
     if is_state it \<noteq> If_DR then retM None
     else if full_neighbors it = [] then retM None
     else originate (if_area_id it) 2 (is_dr it)
       (Some (Network_Body \<lparr>nl_network_mask = if_ip_mask it,
          nl_attached_routers = map nb_router_id (full_neighbors it) @ [rid]\<rparr>)) None))"

definition originate_summary_lsa :: "ipv4 \<Rightarrow> ipv4 \<Rightarrow> ipv4 \<Rightarrow> int \<Rightarrow> lsa option M" where
  "originate_summary_lsa area destination m metric =
     originate area 3 destination (Some (Summary_Body \<lparr>sl_network_mask = m, sl_metric = metric\<rparr>)) None"

definition originate_asbr_summary_lsa :: "ipv4 \<Rightarrow> ipv4 \<Rightarrow> int \<Rightarrow> lsa option M" where
  "originate_asbr_summary_lsa area asbr_id metric =
     originate area 4 asbr_id (Some (Summary_Body \<lparr>sl_network_mask = 0, sl_metric = metric\<rparr>)) None"

definition originate_external_lsa :: "ipv4 \<Rightarrow> ipv4 \<Rightarrow> int \<Rightarrow> int \<Rightarrow> ipv4 \<Rightarrow> int \<Rightarrow> lsa option M" where
  "originate_external_lsa destination m metric metric_type forwarding_address tag =
     originate 0 5 destination (Some (External_Body
       \<lparr>el_network_mask = m, el_e_bit = (metric_type = 2), el_metric = metric,
        el_forwarding_address = forwarding_address, el_external_route_tag = tag\<rparr>)) None"

definition refresh_lsa :: "ipv4 \<Rightarrow> lsa \<Rightarrow> lsa option M" where
  "refresh_lsa area l =
     bindM (getM w_lsdb) (\<lambda>d.
     case lsdb_lookup area (lsa_key l) d of
       None \<Rightarrow> retM None
     | Some old \<Rightarrow>
         if \<not> is_self_originated d old then retM None
         else
           let new_seq = lh_ls_sequence_number (l_header old) + 1
           in if new_seq > max_seq_num then retM None
              else originate area (lh_ls_type (l_header l)) (lh_link_state_id (l_header l)) (l_body l)
                (Some new_seq))"

definition run_router_lsa_timer :: "ipv4 \<Rightarrow> lsa option M" where
  \<comment> \<open>\<^verbatim>\<open>OspfInstance._originate_router_lsa\<close>\<close>
  "run_router_lsa_timer area =
     seqM (modM (w_router_lsa_pending_update (AList.delete area))) (originate_router_lsa area)"

definition run_network_lsa_timer :: "nat \<Rightarrow> lsa option M" where
  "run_network_lsa_timer i =
     bindM (get_intf i) (\<lambda>it. seqM (modM (w_network_lsa_pending_update (AList.delete (if_name it))))
       (originate_network_lsa i))"

section \<open>Receiving updates\<close>

definition send_direct_ack :: "lsa_header \<Rightarrow> nat \<Rightarrow> ipv4 \<Rightarrow> unit M" where
  "send_direct_ack h i r =
     bindM (liftM (lsack_serialize [h])) (\<lambda>body.
       bindM (get_nbr i r) (\<lambda>n. send_packet i 5 body (nb_ip_addr n)))"

definition acknowledge :: "lsa_header \<Rightarrow> nat \<Rightarrow> ipv4 \<Rightarrow> unit M" where
  "acknowledge h i r =
     bindM (get_intf i) (\<lambda>it.
     if is_multi_access it then
       (if is_state it = If_DR \<or> is_state it = If_Backup then queue_delayed_ack i h
        else if is_state it = If_DROther then queue_delayed_ack i h
        else send_direct_ack h i r)
     else queue_delayed_ack i h)"

definition valid_lsa_types :: "int list" where
  "valid_lsa_types = [1, 2, 3, 4, 5, 9, 10, 11]"

definition process_received_lsa :: "lsa \<Rightarrow> nat \<Rightarrow> ipv4 \<Rightarrow> ipv4 \<Rightarrow> unit M" where
  "process_received_lsa l i r area =
     (let key = lsa_key l in
     if lh_ls_type (l_header l) \<notin> set valid_lsa_types then retM ()
     else bindM (getM w_lsdb) (\<lambda>d. let existing = lsdb_lookup area key d in
     if (case existing of None \<Rightarrow> True | Some e \<Rightarrow> compare_lsa (l_header l) (l_header e) > 0) then
       bindM (installM area l) (\<lambda>installed.
       whenM installed
         (seqM (flood_lsa area key (Some i))
         (bindM (get_lsa area key) (\<lambda>l. bindM (getM w_lsdb) (\<lambda>d.
          if is_self_originated d l then
            (if lh_ls_age (l_header l) \<ge> max_age
             then modM (w_lsdb_update (\<lambda>d. snd (lsdb_remove area key d)))
             else bindM (refresh_lsa area l) (\<lambda>_. retM ()))
          else seqM (acknowledge (l_header l) i r) schedule_spf)))))
     else (case existing of
         None \<Rightarrow> retM ()
       | Some e \<Rightarrow>
           if compare_lsa (l_header l) (l_header e) = 0 then
             seqM (set_nbr i r (nb_ls_retransmission_list_update (AList.delete key)))
               (bindM (get_intf i) (\<lambda>it. whenM (is_multi_access it) (queue_delayed_ack i (l_header l))))
           else send_ls_update area i r [e])))"

definition receive_lsu :: "nat \<Rightarrow> ipv4 \<Rightarrow> lsa list \<Rightarrow> unit M" where
  "receive_lsu i r lsas =
     bindM (get_intf i) (\<lambda>it. seqM (forM lsas (\<lambda>l. process_received_lsa l i r (if_area_id it)))
       (process_ls_update i r (map lsa_key lsas)))"

section \<open>Ageing\<close>

fun all_acked :: "ospf_interface list \<Rightarrow> nat list \<Rightarrow> bool result" where
  \<comment> \<open>the test reads \<^verbatim>\<open>key\<close> of the keys of a retransmission list, which are tuples\<close>
  "all_acked intfs [] = Inr True"
| "all_acked intfs (i # is) =
     (if list_all (\<lambda>n. nb_ls_retransmission_list n = []) (adjacent_neighbors (intfs ! i))
      then all_acked intfs is else Inl AttributeError)"

definition flush_maxage_lsa :: "lsa \<Rightarrow> ipv4 \<Rightarrow> unit M" where
  "flush_maxage_lsa l area =
     seqM (flood_lsa area (lsa_key l) None)
     (bindM (getM id) (\<lambda>w. case map_of (w_areas w) area of
        None \<Rightarrow> modM (w_lsdb_update (\<lambda>d. snd (lsdb_remove area (lsa_key l) d)))
      | Some a \<Rightarrow> bindM (liftM (all_acked (w_intfs w) (ar_interfaces a))) (\<lambda>acked.
          whenM acked (modM (w_lsdb_update (\<lambda>d. snd (lsdb_remove area (lsa_key l) d)))))))"

definition ls_refresh_time :: int where "ls_refresh_time = 1800"

definition check_ages :: "unit M" where
  "check_ages =
     bindM (getM w_lsdb) (\<lambda>d. forM (lsdb_area_ids d) (\<lambda>area.
     bindM (getM id) (\<lambda>w. seqM
       (forM (get_maxage_lsas (w_now w) area (w_lsdb w)) (\<lambda>l.
          if is_self_originated (w_lsdb w) l then bindM (refresh_lsa area l) (\<lambda>_. retM ())
          else flush_maxage_lsa l area))
       (bindM (getM id) (\<lambda>w. forM (get_all area None (w_lsdb w)) (\<lambda>l.
          whenM (is_self_originated (w_lsdb w) l \<and> current_age (w_now w) l \<ge> ls_refresh_time
              \<and> current_age (w_now w) l < max_age)
            (bindM (refresh_lsa area l) (\<lambda>_. retM ()))))))))"

end
