(* ===== verification/Spf.thy ===== *)
theory Spf
  imports Ospf_State Ip_Util "HOL-Library.Multiset"
begin

text \<open>
  \<^verbatim>\<open>spf/dijkstra.py\<close>: the shortest path tree of an area. The candidate list is a \<^verbatim>\<open>heapq\<close> of
  (distance, counter, vertex); what the search relies on is stated as the locale \<open>min_queue\<close> and
  interpreted for the queue used here. The search itself is \<open>partial_function\<close>, its termination a
  theorem of \<open>Spf_Correct\<close>.
\<close>

section \<open>Next hops and vertices\<close>

record spf_nexthop =
  nh_interface_name :: string
  nh_next_hop_ip :: ipv4
  nh_interface_index :: int

definition nh_id :: "spf_nexthop \<Rightarrow> string \<times> ipv4" where
  \<comment> \<open>what \<^verbatim>\<open>SpfNexthop.__eq__\<close> and \<^verbatim>\<open>__hash__\<close> look at\<close>
  "nh_id n = (nh_interface_name n, nh_next_hop_ip n)"

text \<open>A set of next hops is the list of its elements, the first of equal ones kept.\<close>

definition nh_add :: "spf_nexthop \<Rightarrow> spf_nexthop list \<Rightarrow> spf_nexthop list" where
  "nh_add n s = (if nh_id n \<in> nh_id ` set s then s else s @ [n])"

definition nh_update :: "spf_nexthop list \<Rightarrow> spf_nexthop list \<Rightarrow> spf_nexthop list" where
  \<comment> \<open>\<^verbatim>\<open>s.update(t)\<close>\<close>
  "nh_update s t = fold nh_add t s"

definition nh_same :: "spf_nexthop list \<Rightarrow> spf_nexthop list \<Rightarrow> bool" where
  "nh_same s t \<longleftrightarrow> nh_id ` set s = nh_id ` set t"

datatype spf_vertex = Spf_Vertex
  (sv_id: ipv4) (sv_type: int) (sv_lsa: lsa) (sv_distance: int) (sv_parent: "spf_vertex option")
  (sv_nexthops: "spf_nexthop list")

definition spf_vertex_router :: int where "spf_vertex_router = 1"
definition spf_vertex_network :: int where "spf_vertex_network = 2"

section \<open>The candidate list\<close>

locale min_queue =
  fixes push :: "'k::linorder \<Rightarrow> 'v \<Rightarrow> 'q \<Rightarrow> 'q"
    and pop :: "'q \<Rightarrow> ('k \<times> 'v \<times> 'q) option"
    and items :: "'q \<Rightarrow> ('k \<times> 'v) multiset"
    and invar :: "'q \<Rightarrow> bool"
  assumes items_push: "items (push k v q) = add_mset (k, v) (items q)"
    and invar_push: "invar q \<Longrightarrow> invar (push k v q)"
    and pop_None: "pop q = None \<longleftrightarrow> items q = {#}"
    and pop_items: "pop q = Some (k, v, q') \<Longrightarrow> items q = add_mset (k, v) (items q')"
    and pop_least: "invar q \<Longrightarrow> pop q = Some (k, v, q') \<Longrightarrow> (k', v') \<in># items q \<Longrightarrow> k \<le> k'"
    and invar_pop: "invar q \<Longrightarrow> pop q = Some (k, v, q') \<Longrightarrow> invar q'"
begin

lemma pop_in: "pop q = Some (k, v, q') \<Longrightarrow> (k, v) \<in># items q"
  by (simp add: pop_items)

lemma pop_rest: "pop q = Some (k, v, q') \<Longrightarrow> x \<in># items q' \<Longrightarrow> x \<in># items q"
  by (simp add: pop_items)

lemma pop_other: "pop q = Some (k, v, q') \<Longrightarrow> x \<in># items q \<Longrightarrow> x \<noteq> (k, v) \<Longrightarrow> x \<in># items q'"
  by (simp add: pop_items)

lemma pop_size: "pop q = Some (k, v, q') \<Longrightarrow> size (items q) = Suc (size (items q'))"
  by (simp add: pop_items)

end

type_synonym spf_queue = "((int \<times> int) \<times> spf_vertex) list"

fun heappush :: "'k::linorder \<Rightarrow> 'v \<Rightarrow> ('k \<times> 'v) list \<Rightarrow> ('k \<times> 'v) list" where
  "heappush k v [] = [(k, v)]"
| "heappush k v ((k', v') # q) =
     (if k \<le> k' then (k, v) # (k', v') # q else (k', v') # heappush k v q)"

fun heappop :: "('k::linorder \<times> 'v) list \<Rightarrow> ('k \<times> 'v \<times> ('k \<times> 'v) list) option" where
  "heappop [] = None"
| "heappop ((k, v) # q) = Some (k, v, q)"

lemma mset_heappush: "mset (heappush k v q) = add_mset (k, v) (mset q)"
  by (induction k v q rule: heappush.induct) auto

lemma set_heappush: "set (heappush k v q) = insert (k, v) (set q)"
  by (metis mset_heappush set_mset_add_mset_insert set_mset_mset)

lemma sorted_heappush: "sorted (map fst q) \<Longrightarrow> sorted (map fst (heappush k v q))"
  by (induction k v q rule: heappush.induct) (auto simp: set_heappush)

interpretation spfq: min_queue heappush heappop mset "\<lambda>q. sorted (map fst q)"
proof
  fix k :: 'a and v :: 'b and q q' :: "('a \<times> 'b) list" and k' v'
  show "mset (heappush k v q) = add_mset (k, v) (mset q)" by (rule mset_heappush)
  show "sorted (map fst q) \<Longrightarrow> sorted (map fst (heappush k v q))" by (rule sorted_heappush)
  show "(heappop q = None) = (mset q = {#})" by (cases q) auto
  show "heappop q = Some (k, v, q') \<Longrightarrow> mset q = add_mset (k, v) (mset q')" by (cases q) auto
  show "sorted (map fst q) \<Longrightarrow> heappop q = Some (k, v, q') \<Longrightarrow> (k', v') \<in># mset q \<Longrightarrow> k \<le> k'"
    by (cases q) (auto intro: image_eqI [of _ fst])
  show "sorted (map fst q) \<Longrightarrow> heappop q = Some (k, v, q') \<Longrightarrow> sorted (map fst q')"
    by (cases q) auto
qed

section \<open>The area as a graph\<close>

type_synonym spf_node = "int \<times> ipv4"

definition find_network_lsa :: "ipv4 \<Rightarrow> ipv4 \<Rightarrow> lsdb \<Rightarrow> lsa option" where
  "find_network_lsa area dr_ip d =
     find (\<lambda>l. lh_link_state_id (l_header l) = dr_ip) (get_all area (Some 2) d)"

definition live_lsa :: "time \<Rightarrow> lsa option \<Rightarrow> lsa option" where
  \<comment> \<open>an LSA that is there and below MaxAge\<close>
  "live_lsa now l = (case l of None \<Rightarrow> None | Some l \<Rightarrow> if current_age now l \<ge> max_age then None else Some l)"

definition router_vertex_links ::
    "lsdb \<Rightarrow> time \<Rightarrow> ipv4 \<Rightarrow> router_link list \<Rightarrow> (spf_node \<times> lsa \<times> int \<times> router_link option) list" where
  \<comment> \<open>the vertices the links of a Router LSA lead to, in order\<close>
  "router_vertex_links d now area links = List.map_filter (\<lambda>link.
     if rl_type link = 3 then None
     else if rl_type link = 2 then
       map_option (\<lambda>l. ((spf_vertex_network, lh_link_state_id (l_header l)), l, rl_metric link, Some link))
         (live_lsa now (find_network_lsa area (rl_link_id link) d))
     else if rl_type link = 1 then
       map_option (\<lambda>l. ((spf_vertex_router, rl_link_id link), l, rl_metric link, Some link))
         (live_lsa now (lsdb_lookup area (1, rl_link_id link, rl_link_id link) d))
     else None) links"

definition network_vertex_links ::
    "lsdb \<Rightarrow> time \<Rightarrow> ipv4 \<Rightarrow> ipv4 list \<Rightarrow> (spf_node \<times> lsa \<times> int \<times> router_link option) list" where
  "network_vertex_links d now area routers = List.map_filter (\<lambda>rtr.
     map_option (\<lambda>l. ((spf_vertex_router, rtr), l, 0, None))
       (live_lsa now (lsdb_lookup area (1, rtr, rtr) d))) routers"

definition vertex_links ::
    "lsdb \<Rightarrow> time \<Rightarrow> ipv4 \<Rightarrow> int \<Rightarrow> lsa \<Rightarrow> (spf_node \<times> lsa \<times> int \<times> router_link option) list" where
  "vertex_links d now area ty l =
     (if ty = spf_vertex_router then
        (case l_body l of Some (Router_Body r) \<Rightarrow> router_vertex_links d now area (rt_links r) | _ \<Rightarrow> [])
      else if ty = spf_vertex_network then
        (case l_body l of Some (Network_Body n) \<Rightarrow> network_vertex_links d now area (nl_attached_routers n)
         | _ \<Rightarrow> [])
      else [])"

section \<open>Next hop calculation\<close>

definition interface_nexthops :: "ipv4 \<Rightarrow> router_link option \<Rightarrow> ospf_interface \<Rightarrow> spf_nexthop list" where
  "interface_nexthops dest_id link it =
     (case link of
        None \<Rightarrow> []
      | Some lk \<Rightarrow>
          if rl_type lk = 1 then
            map (\<lambda>n. \<lparr>nh_interface_name = if_name it, nh_next_hop_ip = nb_ip_addr n,
                      nh_interface_index = if_index it\<rparr>)
              (filter (\<lambda>n. nb_router_id n = dest_id) (map snd (is_neighbors it)))
          else if rl_type lk = 2 \<and> (is_dr it = rl_link_id lk \<or> if_ip_addr it = rl_link_id lk) then
            [\<lparr>nh_interface_name = if_name it, nh_next_hop_ip = 0, nh_interface_index = if_index it\<rparr>]
          else [])"

definition get_direct_nexthops :: "world \<Rightarrow> ipv4 \<Rightarrow> router_link option \<Rightarrow> spf_nexthop list" where
  "get_direct_nexthops w dest_id link =
     nh_update [] (concat (map (\<lambda>a. concat (map (\<lambda>i. interface_nexthops dest_id link (intf_at w i))
       (ar_interfaces a))) (map snd (w_areas w))))"

definition calculate_nexthops ::
    "world \<Rightarrow> spf_vertex \<Rightarrow> ipv4 \<Rightarrow> router_link option \<Rightarrow> spf_nexthop list" where
  "calculate_nexthops w parent dest_id link =
     (if sv_distance parent = 0 \<and> sv_parent parent = None then get_direct_nexthops w dest_id link
      else sv_nexthops parent)"

definition update_candidate ::
    "world \<Rightarrow> spf_vertex \<Rightarrow> spf_node \<times> lsa \<times> int \<times> router_link option
       \<Rightarrow> spf_queue \<times> int \<Rightarrow> spf_queue \<times> int" where
  "update_candidate w parent = (\<lambda>((ty, vid), l, cost, link) (q, n).
     let new_dist = sv_distance parent + cost;
         nexthops = calculate_nexthops w parent vid link;
         nexthops = (if nexthops = [] then sv_nexthops parent else nexthops)
     in (heappush (new_dist, n) (Spf_Vertex vid ty l new_dist (Some parent) nexthops) q, n + 1))"

section \<open>The search\<close>

type_synonym spf_tree = "(ipv4 \<times> spf_vertex) list"

definition process_vertex ::
    "world \<Rightarrow> ipv4 \<Rightarrow> spf_tree \<Rightarrow> spf_vertex \<Rightarrow> spf_queue \<times> int \<Rightarrow> spf_queue \<times> int" where
  "process_vertex w area tree v qn =
     fold (update_candidate w v)
       (filter (\<lambda>((ty, vid), _). map_of tree vid = None)
         (vertex_links (w_lsdb w) (w_now w) area (sv_type v) (sv_lsa v))) qn"

partial_function (option) spf_loop :: "world \<Rightarrow> ipv4 \<Rightarrow> spf_tree \<Rightarrow> spf_queue \<Rightarrow> int \<Rightarrow> spf_tree option" where
  "spf_loop w area tree q n =
     (case heappop q of
        None \<Rightarrow> Some tree
      | Some (_, v, q') \<Rightarrow>
          if map_of tree (sv_id v) \<noteq> None then spf_loop w area tree q' n
          else
            let tree' = AList.update (sv_id v) v tree;
                (q'', n') = process_vertex w area tree' v (q', n)
            in spf_loop w area tree' q'' n')"

declare spf_loop.simps [code]

definition spf_calculate :: "world \<Rightarrow> ipv4 \<Rightarrow> spf_tree option" where
  "spf_calculate w area =
     (case live_lsa (w_now w) (lsdb_lookup area (1, w_router_id w, w_router_id w) (w_lsdb w)) of
        None \<Rightarrow> Some []
      | Some root_lsa \<Rightarrow>
          spf_loop w area [] (heappush (0, 0) (Spf_Vertex (w_router_id w) spf_vertex_router root_lsa 0 None []) []) 1)"

end
