(* ===== verification/Routes.thy ===== *)
theory Routes
  imports Spf Netlink
begin

text \<open>
  From shortest path trees to routes: \<^verbatim>\<open>spf/intra_area.py\<close>, \<^verbatim>\<open>spf/inter_area.py\<close>,
  \<^verbatim>\<open>spf/external.py\<close>, the routing table of \<^verbatim>\<open>spf/routing_table.py\<close> with its delta, the requests
  it makes of the kernel and the run of the whole calculation in
  \<^verbatim>\<open>protocol/instance.py\<close>. A network is its address and prefix length.
\<close>

section \<open>Routes\<close>

record ospf_route =
  ro_destination :: network
  ro_path_type :: int
  ro_cost :: int
  ro_type2_cost :: int
  ro_area_id :: ipv4
  ro_nexthops :: "spf_nexthop list"
  ro_advertising_router :: ipv4

definition path_intra_area :: int where "path_intra_area = 1"
definition path_inter_area :: int where "path_inter_area = 2"
definition path_type1_external :: int where "path_type1_external = 3"
definition path_type2_external :: int where "path_type2_external = 4"

definition len_mask :: "int \<Rightarrow> ipv4" where
  "len_mask n = (if n \<le> 0 then 0 else push_bit (nat (32 - n)) (- 1))"

definition lenient_network :: "ipv4 \<Rightarrow> int \<Rightarrow> network" where
  \<comment> \<open>\<^verbatim>\<open>IPv4Network(f"{addr}/{n}", strict=False)\<close>, the host bits cleared\<close>
  "lenient_network addr n = (addr AND len_mask n, n)"

definition in_network :: "ipv4 \<Rightarrow> network \<Rightarrow> bool" where
  "in_network addr net \<longleftrightarrow> addr AND len_mask (snd net) = fst net"

definition is_better_than :: "ospf_route \<Rightarrow> ospf_route \<Rightarrow> bool" where
  "is_better_than r s \<longleftrightarrow>
     (if ro_path_type r \<noteq> ro_path_type s then ro_path_type r < ro_path_type s
      else if ro_path_type r = path_type2_external then
        (if ro_type2_cost r \<noteq> ro_type2_cost s then ro_type2_cost r < ro_type2_cost s
         else ro_cost r < ro_cost s)
      else ro_cost r < ro_cost s)"

section \<open>Intra-area routes\<close>

definition stub_route :: "ipv4 \<Rightarrow> spf_vertex \<Rightarrow> router_link \<Rightarrow> ospf_route" where
  "stub_route area v link =
     \<lparr>ro_destination = lenient_network (rl_link_id link) (mask_to_prefix_len (rl_link_data link)),
      ro_path_type = path_intra_area, ro_cost = sv_distance v + rl_metric link, ro_type2_cost = 0,
      ro_area_id = area, ro_nexthops = sv_nexthops v, ro_advertising_router = sv_id v\<rparr>"

definition transit_route :: "ipv4 \<Rightarrow> spf_vertex \<Rightarrow> network_lsa \<Rightarrow> ospf_route" where
  "transit_route area v body =
     \<lparr>ro_destination = lenient_network (sv_id v AND nl_network_mask body) (mask_to_prefix_len (nl_network_mask body)),
      ro_path_type = path_intra_area, ro_cost = sv_distance v, ro_type2_cost = 0, ro_area_id = area,
      ro_nexthops = sv_nexthops v, ro_advertising_router = lh_advertising_router (l_header (sv_lsa v))\<rparr>"

definition vertex_routes :: "ipv4 \<Rightarrow> spf_vertex \<Rightarrow> ospf_route list" where
  "vertex_routes area v =
     (if sv_type v = spf_vertex_router then
        (case l_body (sv_lsa v) of
           Some (Router_Body r) \<Rightarrow> map (stub_route area v) (filter (\<lambda>link. rl_type link = 3) (rt_links r))
         | _ \<Rightarrow> [])
      else if sv_type v = spf_vertex_network then
        (case l_body (sv_lsa v) of Some (Network_Body n) \<Rightarrow> [transit_route area v n] | _ \<Rightarrow> [])
      else [])"

definition calculate_intra_area_routes :: "spf_tree \<Rightarrow> ipv4 \<Rightarrow> ospf_route list" where
  "calculate_intra_area_routes tree area = concat (map (\<lambda>(_, v). vertex_routes area v) tree)"

section \<open>Inter-area routes\<close>

definition live_summary :: "time \<Rightarrow> lsa \<Rightarrow> summary_lsa option" where
  \<comment> \<open>the body of a summary LSA below MaxAge with a finite metric\<close>
  "live_summary now l =
     (if current_age now l \<ge> max_age then None
      else case l_body l of
        Some (Summary_Body s) \<Rightarrow> if sl_metric s \<ge> 0xFFFFFF then None else Some s
      | _ \<Rightarrow> None)"

definition summary_route ::
    "lsdb \<Rightarrow> time \<Rightarrow> spf_tree \<Rightarrow> ipv4 \<Rightarrow> ospf_route list \<Rightarrow> lsa \<Rightarrow> ospf_route option" where
  "summary_route d now tree area intras l =
     (case live_summary now l of
        None \<Rightarrow> None
      | Some s \<Rightarrow> (let abr_id = lh_advertising_router (l_header l) in
          case map_of tree abr_id of
            None \<Rightarrow> None
          | Some abr \<Rightarrow>
              if abr_id = ld_router_id d then None
              else
                let dest = lenient_network (lh_link_state_id (l_header l)) (mask_to_prefix_len (sl_network_mask s))
                in if dest \<in> ro_destination ` set intras then None
                   else Some \<lparr>ro_destination = dest, ro_path_type = path_inter_area,
                     ro_cost = sv_distance abr + sl_metric s, ro_type2_cost = 0, ro_area_id = area,
                     ro_nexthops = sv_nexthops abr, ro_advertising_router = abr_id\<rparr>))"

definition calculate_inter_area_routes ::
    "lsdb \<Rightarrow> time \<Rightarrow> spf_tree \<Rightarrow> ipv4 \<Rightarrow> ospf_route list \<Rightarrow> ospf_route list" where
  "calculate_inter_area_routes d now tree area intras =
     List.map_filter (summary_route d now tree area intras) (get_all area (Some 3) d)"

definition asbr_step :: "time \<Rightarrow> spf_tree \<Rightarrow> lsa \<Rightarrow> (ipv4 \<times> int) list \<Rightarrow> (ipv4 \<times> int) list" where
  "asbr_step now tree l costs =
     (case live_summary now l of
        None \<Rightarrow> costs
      | Some s \<Rightarrow> (case map_of tree (lh_advertising_router (l_header l)) of
            None \<Rightarrow> costs
          | Some abr \<Rightarrow>
              let asbr_id = lh_link_state_id (l_header l); cost = sv_distance abr + sl_metric s
              in if (case map_of costs asbr_id of None \<Rightarrow> True | Some c \<Rightarrow> cost < c)
                 then AList.update asbr_id cost costs else costs))"

definition calculate_asbr_routes :: "lsdb \<Rightarrow> time \<Rightarrow> spf_tree \<Rightarrow> ipv4 \<Rightarrow> (ipv4 \<times> int) list" where
  "calculate_asbr_routes d now tree area = fold (asbr_step now tree) (get_all area (Some 4) d) []"

section \<open>External routes\<close>

definition find_route_to :: "ipv4 \<Rightarrow> ospf_route list \<Rightarrow> ospf_route option" where
  "find_route_to addr routes = fst (fold (\<lambda>r (best, best_prefix).
     if in_network addr (ro_destination r) \<and> snd (ro_destination r) > best_prefix
     then (Some r, snd (ro_destination r)) else (best, best_prefix)) routes (None, - 1))"

definition asbr_reach ::
    "(ipv4 \<times> spf_tree) list \<Rightarrow> (ipv4 \<times> int) list \<Rightarrow> ipv4 \<Rightarrow> (int \<times> spf_nexthop list) option" where
  \<comment> \<open>the cost of the ASBR and the next hops towards it\<close>
  "asbr_reach trees asbr_costs asbr_id =
     (let intras = fold (\<lambda>(_, tree) found. case map_of tree asbr_id of
            None \<Rightarrow> found
          | Some v \<Rightarrow> (case found of
                None \<Rightarrow> Some (sv_distance v, sv_nexthops v)
              | Some (c, hops) \<Rightarrow> if sv_distance v < c then Some (sv_distance v, sv_nexthops v) else found))
          trees None
      in case map_of asbr_costs asbr_id of
           None \<Rightarrow> intras
         | Some inter_cost \<Rightarrow> (case intras of
               None \<Rightarrow> Some (inter_cost, [])
             | Some (c, hops) \<Rightarrow> if inter_cost < c then Some (inter_cost, hops) else intras))"

definition external_route ::
    "time \<Rightarrow> (ipv4 \<times> spf_tree) list \<Rightarrow> (ipv4 \<times> int) list \<Rightarrow> ospf_route list \<Rightarrow> lsa \<Rightarrow> ospf_route option" where
  "external_route now trees asbr_costs routes l =
     (if current_age now l \<ge> max_age then None
      else case l_body l of
        Some (External_Body e) \<Rightarrow>
          (case asbr_reach trees asbr_costs (lh_advertising_router (l_header l)) of
             None \<Rightarrow> None
           | Some reach \<Rightarrow>
               let (asbr_cost, asbr_nexthops) =
                     (if el_forwarding_address e \<noteq> 0 then
                        (case find_route_to (el_forwarding_address e) routes of
                           None \<Rightarrow> reach
                         | Some best \<Rightarrow> (ro_cost best, ro_nexthops best))
                      else reach);
                   dest = lenient_network (lh_link_state_id (l_header l)) (mask_to_prefix_len (el_network_mask e))
               in Some (if el_e_bit e then
                    \<lparr>ro_destination = dest, ro_path_type = path_type2_external, ro_cost = asbr_cost,
                     ro_type2_cost = el_metric e, ro_area_id = 0, ro_nexthops = asbr_nexthops,
                     ro_advertising_router = lh_advertising_router (l_header l)\<rparr>
                  else
                    \<lparr>ro_destination = dest, ro_path_type = path_type1_external,
                     ro_cost = asbr_cost + el_metric e, ro_type2_cost = 0, ro_area_id = 0,
                     ro_nexthops = asbr_nexthops,
                     ro_advertising_router = lh_advertising_router (l_header l)\<rparr>))
      | _ \<Rightarrow> None)"

definition calculate_external_routes ::
    "lsdb \<Rightarrow> time \<Rightarrow> (ipv4 \<times> spf_tree) list \<Rightarrow> (ipv4 \<times> int) list \<Rightarrow> ospf_route list \<Rightarrow> ospf_route list
       \<Rightarrow> ospf_route list" where
  "calculate_external_routes d now trees asbr_costs intras inters =
     List.map_filter (external_route now trees asbr_costs (intras @ inters)) (get_all_external d)"

section \<open>The routing table\<close>

type_synonym route_table = "(network \<times> ospf_route) list"

definition add_route :: "ospf_route \<Rightarrow> route_table \<Rightarrow> route_table" where
  "add_route r table =
     (case map_of table (ro_destination r) of
        None \<Rightarrow> AList.update (ro_destination r) r table
      | Some existing \<Rightarrow>
          if is_better_than r existing then AList.update (ro_destination r) r table
          else if \<not> is_better_than existing r \<and> ro_path_type r = ro_path_type existing then
            AList.update (ro_destination r)
              (existing\<lparr>ro_nexthops := nh_update (ro_nexthops existing) (ro_nexthops r)\<rparr>) table
          else table)"

definition build_table :: "ospf_route list \<Rightarrow> route_table" where
  "build_table routes = fold add_route routes []"

definition route_changed :: "ospf_route \<Rightarrow> ospf_route \<Rightarrow> bool" where
  "route_changed old r \<longleftrightarrow> ro_cost old \<noteq> ro_cost r \<or> ro_path_type old \<noteq> ro_path_type r
     \<or> \<not> nh_same (ro_nexthops old) (ro_nexthops r) \<or> ro_type2_cost old \<noteq> ro_type2_cost r"

definition added_routes :: "route_table \<Rightarrow> route_table \<Rightarrow> ospf_route list" where
  "added_routes old new = map snd (filter (\<lambda>(dest, r). map_of old dest = None) new)"

definition changed_routes :: "route_table \<Rightarrow> route_table \<Rightarrow> ospf_route list" where
  "changed_routes old new = map snd (filter (\<lambda>(dest, r). case map_of old dest of
     None \<Rightarrow> False | Some o' \<Rightarrow> route_changed o' r) new)"

definition removed_routes :: "route_table \<Rightarrow> route_table \<Rightarrow> ospf_route list" where
  "removed_routes old new = map snd (filter (\<lambda>(dest, _). map_of new dest = None) old)"

definition table_update ::
    "ospf_route list \<Rightarrow> ospf_route list \<Rightarrow> ospf_route list \<Rightarrow> route_table
       \<Rightarrow> (ospf_route list \<times> ospf_route list \<times> ospf_route list) \<times> route_table" where
  "table_update intras inters external old =
     (let new = build_table (intras @ inters @ external)
      in ((added_routes old new, changed_routes old new, removed_routes old new), new))"

section \<open>Requests to the kernel\<close>

definition convert_nexthops :: "ospf_route \<Rightarrow> nl_nexthop list" where
  "convert_nexthops r = map (\<lambda>n. \<lparr>nl_gateway = nh_next_hop_ip n, nl_interface_index = nh_interface_index n,
       nl_interface_name = nh_interface_name n\<rparr>)
     (filter (\<lambda>n. nh_next_hop_ip n \<noteq> 0) (ro_nexthops r))"

definition sync_to_kernel ::
    "ospf_route list \<Rightarrow> ospf_route list \<Rightarrow> ospf_route list \<Rightarrow> kernel_request list" where
  "sync_to_kernel added changed removed =
     map (remove_route \<circ> ro_destination) removed
     @ map (\<lambda>r. install_route (ro_destination r) (convert_nexthops r) (ro_cost r))
         (filter (\<lambda>r. convert_nexthops r \<noteq> []) (added @ changed))"

section \<open>The whole calculation\<close>

fun calculate_trees :: "world \<Rightarrow> ipv4 list \<Rightarrow> (ipv4 \<times> spf_tree) list option" where
  "calculate_trees w [] = Some []"
| "calculate_trees w (area # areas) =
     (case spf_calculate w area of
        None \<Rightarrow> None
      | Some tree \<Rightarrow> map_option ((#) (area, tree)) (calculate_trees w areas))"

definition merge_asbr_costs :: "(ipv4 \<times> int) list \<Rightarrow> (ipv4 \<times> int) list \<Rightarrow> (ipv4 \<times> int) list" where
  "merge_asbr_costs costs found = fold (\<lambda>(asbr_id, cost) costs.
     if (case map_of costs asbr_id of None \<Rightarrow> True | Some c \<Rightarrow> cost < c)
     then AList.update asbr_id cost costs else costs) found costs"

definition all_intra_routes :: "(ipv4 \<times> spf_tree) list \<Rightarrow> ospf_route list" where
  "all_intra_routes trees = concat (map (\<lambda>(area, tree). calculate_intra_area_routes tree area) trees)"

definition all_inter_routes :: "lsdb \<Rightarrow> time \<Rightarrow> (ipv4 \<times> spf_tree) list \<Rightarrow> ospf_route list" where
  "all_inter_routes d now trees = concat (map (\<lambda>(area, tree).
     calculate_inter_area_routes d now tree area (calculate_intra_area_routes tree area)) trees)"

definition run_spf_routes :: "world \<Rightarrow> (ospf_route list \<times> ospf_route list \<times> ospf_route list) option" where
  \<comment> \<open>the intra-area, inter-area and external routes of one run\<close>
  "run_spf_routes w =
     (case calculate_trees w (map fst (w_areas w)) of
        None \<Rightarrow> None
      | Some trees \<Rightarrow>
          let d = w_lsdb w; now = w_now w;
              intras = all_intra_routes trees;
              inters = all_inter_routes d now trees;
              asbr_costs = fold (\<lambda>(area, tree) costs.
                merge_asbr_costs costs (calculate_asbr_routes d now tree area)) trees []
          in Some (intras, inters, calculate_external_routes d now trees asbr_costs intras inters))"

definition run_spf :: "world \<times> route_table \<Rightarrow> ((world \<times> route_table) \<times> kernel_request list) option" where
  "run_spf = (\<lambda>(w, table).
     map_option (\<lambda>(intras, inters, external).
       let ((added, changed, removed), table') = table_update intras inters external table
       in ((w\<lparr>w_spf_pending := False, w_spf_due := None, w_last_spf_time := w_now w\<rparr>, table'),
           sync_to_kernel added changed removed))
     (run_spf_routes w))"

end
