(* ===== verification/Sr_Tlv.thy ===== *)
theory Sr_Tlv
  imports Struct_Codec
begin

text \<open>
  Segment routing on the wire: the TLVs of \<^verbatim>\<open>sr/tlv.py\<close>, with the SIDs, label ranges and entries they
  carry, and the bodies of the opaque LSAs of \<^verbatim>\<open>sr/lsa.py\<close>. Reading a list of TLVs never raises; what
  an entry raises is caught one level up, where the code catches it.
\<close>

section \<open>TLVs\<close>

definition pad4 :: "nat \<Rightarrow> nat" where
  "pad4 n = (n + 3) div 4 * 4"

definition tlv_hdr_format :: "fmt list" where
  "tlv_hdr_format = [FH, FH]"

definition tlv_header :: "bytes \<Rightarrow> nat \<Rightarrow> int \<times> nat" where
  \<comment> \<open>type and length at a position four bytes before the end or earlier\<close>
  "tlv_header data pos = (be_decode (pslice data pos (pos + 2)), nat (be_decode (pslice data (pos + 2) (pos + 4))))"

function parse_tlvs :: "bytes \<Rightarrow> nat \<Rightarrow> (int \<times> bytes) list" where
  "parse_tlvs data pos =
     (if pos + 4 \<le> length data then
        let (tlv_type, tlv_len) = tlv_header data pos; pos = pos + 4
        in if pos + tlv_len > length data then []
           else (tlv_type, pslice data pos (pos + tlv_len)) # parse_tlvs data (pos + pad4 tlv_len)
      else [])"
  by pat_completeness auto
termination
  by (relation "measure (\<lambda>(data, pos). Suc (length data) - pos)") auto

declare parse_tlvs.simps [simp del]

definition encode_tlv :: "int \<Rightarrow> bytes \<Rightarrow> bytes result" where
  "encode_tlv tlv_type value =
     bindE (struct_pack tlv_hdr_format [VInt tlv_type, VInt (int (length value))]) (\<lambda>hdr.
       Inr (hdr @ value @ replicate (pad4 (length value) - length value) 0))"

section \<open>Integers as bytes\<close>

definition bytes_of_ints :: "int list \<Rightarrow> bytes result" where
  \<comment> \<open>\<^verbatim>\<open>bytes([...])\<close>\<close>
  "bytes_of_ints vs = (if list_all (\<lambda>v. 0 \<le> v \<and> v < 256) vs then Inr (map word_of_int vs) else Inl ValueError)"

definition ints_of_bytes :: "bytes \<Rightarrow> int list" where
  \<comment> \<open>\<^verbatim>\<open>list(data)\<close>\<close>
  "ints_of_bytes data = map uint data"

definition byte_at :: "bytes \<Rightarrow> nat \<Rightarrow> int result" where
  \<comment> \<open>\<^verbatim>\<open>data[i]\<close>\<close>
  "byte_at data i = (if i < length data then Inr (uint (data ! i)) else Inl IndexError)"

definition pack_u32 :: "int \<Rightarrow> bytes result" where
  "pack_u32 v = struct_pack [FI] [VInt v]"

definition pack_u24 :: "int \<Rightarrow> bytes result" where
  \<comment> \<open>\<^verbatim>\<open>struct.pack("!I", v)[1:]\<close>: the highest byte is dropped\<close>
  "pack_u24 v = bindE (pack_u32 v) (\<lambda>b. Inr (drop 1 b))"

definition read_u32 :: "bytes \<Rightarrow> nat \<Rightarrow> int result" where
  \<comment> \<open>\<^verbatim>\<open>struct.unpack_from("!I", data, pos)\<close>\<close>
  "read_u32 data pos = bindE (struct_unpack_from [FI] data pos) (\<lambda>vs. case vs of
     [VInt v] \<Rightarrow> Inr v | _ \<Rightarrow> Inl StructError)"

definition read_u24 :: "bytes \<Rightarrow> nat \<Rightarrow> int result" where
  \<comment> \<open>\<^verbatim>\<open>struct.unpack("!I", b'\x00' + data[pos:pos+3])\<close>\<close>
  "read_u24 data pos = bindE (struct_unpack [FI] (0 # pslice data pos (pos + 3))) (\<lambda>vs. case vs of
     [VInt v] \<Rightarrow> Inr v | _ \<Rightarrow> Inl StructError)"

section \<open>SIDs and label ranges\<close>

record sid_label_range =
  sr_start :: int
  sr_size :: int

definition range_contains :: "sid_label_range \<Rightarrow> int \<Rightarrow> bool" where
  "range_contains r index \<longleftrightarrow> 0 \<le> index \<and> index < sr_size r"

definition label_for_index :: "sid_label_range \<Rightarrow> int \<Rightarrow> int" where
  "label_for_index r index = sr_start r + index"

definition encode_sid_label_range :: "sid_label_range \<Rightarrow> bytes result" where
  "encode_sid_label_range r =
     bindE (pack_u24 (sr_size r)) (\<lambda>range_bytes. bindE (pack_u24 (sr_start r)) (\<lambda>label_bytes.
     bindE (encode_tlv 1 label_bytes) (\<lambda>stlv. Inr (range_bytes @ stlv))))"

record sr_capabilities =
  sc_flags :: int
  sc_ranges :: "sid_label_range list"

definition sr_capabilities_serialize :: "sr_capabilities \<Rightarrow> bytes result" where
  "sr_capabilities_serialize c =
     bindE (bytes_of_ints [sc_flags c, 0]) (\<lambda>hd. bindE (ser_all encode_sid_label_range (sc_ranges c)) (\<lambda>ranges.
       Inr (hd @ ranges)))"

definition sr_capabilities_deserialize :: "bytes \<Rightarrow> sr_capabilities result" where
  \<comment> \<open>its loop over the sub-TLVs steps past each of them and keeps none\<close>
  "sr_capabilities_deserialize data =
     (if length data < 2 then Inl ValueError
      else bindE (byte_at data 0) (\<lambda>flags. Inr \<lparr>sc_flags = flags, sc_ranges = []\<rparr>))"

definition sr_algorithm_deserialize :: "bytes \<Rightarrow> int list" where
  "sr_algorithm_deserialize data = ints_of_bytes data"

definition sr_algorithm_serialize :: "int list \<Rightarrow> bytes result" where
  "sr_algorithm_serialize algorithms = bytes_of_ints algorithms"

definition prefix_sid_flag_np :: int where "prefix_sid_flag_np = 0x40"
definition prefix_sid_flag_v :: int where "prefix_sid_flag_v = 0x08"
definition adj_sid_flag_v :: int where "adj_sid_flag_v = 0x40"

record prefix_sid =
  ps_flags :: int
  ps_algorithm :: int
  ps_sid :: int

definition ps_is_value :: "prefix_sid \<Rightarrow> bool" where
  "ps_is_value p \<longleftrightarrow> ps_flags p AND prefix_sid_flag_v \<noteq> 0"

definition ps_no_php :: "prefix_sid \<Rightarrow> bool" where
  "ps_no_php p \<longleftrightarrow> ps_flags p AND prefix_sid_flag_np \<noteq> 0"

definition prefix_sid_deserialize :: "bytes \<Rightarrow> prefix_sid result" where
  "prefix_sid_deserialize data =
     (if length data < 7 then Inl ValueError
      else bindE (byte_at data 0) (\<lambda>flags. bindE (byte_at data 2) (\<lambda>algorithm.
        bindE (if flags AND prefix_sid_flag_v \<noteq> 0 then read_u24 data 4
               else if length data < 8 then Inl ValueError else read_u32 data 4) (\<lambda>sid.
          Inr \<lparr>ps_flags = flags, ps_algorithm = algorithm, ps_sid = sid\<rparr>))))"

definition prefix_sid_serialize :: "prefix_sid \<Rightarrow> bytes result" where
  "prefix_sid_serialize p =
     bindE (if ps_is_value p then pack_u24 (ps_sid p) else pack_u32 (ps_sid p)) (\<lambda>sid_bytes.
     bindE (bytes_of_ints [ps_flags p, 0, ps_algorithm p, 0]) (\<lambda>hd. Inr (hd @ sid_bytes)))"

record adj_sid =
  as_flags :: int
  as_weight :: int
  as_sid :: int

definition as_is_value :: "adj_sid \<Rightarrow> bool" where
  "as_is_value a \<longleftrightarrow> as_flags a AND adj_sid_flag_v \<noteq> 0"

definition adj_sid_deserialize :: "bytes \<Rightarrow> adj_sid result" where
  "adj_sid_deserialize data =
     (if length data < 7 then Inl ValueError
      else bindE (byte_at data 0) (\<lambda>flags. bindE (byte_at data 2) (\<lambda>weight.
        bindE (if flags AND adj_sid_flag_v \<noteq> 0 then read_u24 data 4 else read_u32 data 4) (\<lambda>sid.
          Inr \<lparr>as_flags = flags, as_weight = weight, as_sid = sid\<rparr>))))"

definition adj_sid_serialize :: "adj_sid \<Rightarrow> bytes result" where
  "adj_sid_serialize a =
     bindE (if as_is_value a then pack_u24 (as_sid a) else pack_u32 (as_sid a)) (\<lambda>sid_bytes.
     bindE (bytes_of_ints [as_flags a, 0, as_weight a, 0]) (\<lambda>hd. Inr (hd @ sid_bytes)))"

section \<open>Entries\<close>

record extended_prefix =
  ep_route_type :: int
  ep_prefix_len :: int
  ep_af :: int
  ep_flags :: int
  ep_prefix :: ipv4
  ep_prefix_sid :: "prefix_sid option"

definition last_prefix_sid :: "(int \<times> bytes) list \<Rightarrow> prefix_sid option" where
  \<comment> \<open>the Prefix-SID of the last sub-TLV that holds one; one that raises \<^verbatim>\<open>ValueError\<close> is passed over\<close>
  "last_prefix_sid tlvs = fold (\<lambda>(st_type, st_value) found.
     if st_type = 2 then (case prefix_sid_deserialize st_value of Inr p \<Rightarrow> Some p | Inl _ \<Rightarrow> found)
     else found) tlvs None"

definition extended_prefix_deserialize :: "bytes \<Rightarrow> extended_prefix result" where
  "extended_prefix_deserialize data =
     (if length data < 8 then Inl ValueError
      else bindE (byte_at data 0) (\<lambda>route_type. bindE (byte_at data 1) (\<lambda>prefix_len.
        bindE (byte_at data 2) (\<lambda>af. bindE (byte_at data 3) (\<lambda>flags.
        bindE (ipv4_of_packed (pslice data 4 8)) (\<lambda>prefix.
          Inr \<lparr>ep_route_type = route_type, ep_prefix_len = prefix_len, ep_af = af, ep_flags = flags,
               ep_prefix = prefix, ep_prefix_sid = last_prefix_sid (parse_tlvs data 8)\<rparr>))))))"

record extended_link =
  el_link_type :: int
  el_link_id :: ipv4
  el_link_data :: ipv4
  el_adj_sids :: "adj_sid list"
  el_lan_adj_sids :: "(ipv4 \<times> adj_sid) list"

fun add_adj_sids :: "(int \<times> bytes) list \<Rightarrow> extended_link \<Rightarrow> extended_link result" where
  \<comment> \<open>an Adj-SID's \<^verbatim>\<open>ValueError\<close> is caught here, its \<^verbatim>\<open>struct.error\<close> is not\<close>
  "add_adj_sids [] e = Inr e"
| "add_adj_sids ((st_type, st_value) # tlvs) e =
     (if st_type = 2 then
        (case adj_sid_deserialize st_value of
           Inr a \<Rightarrow> add_adj_sids tlvs (e\<lparr>el_adj_sids := el_adj_sids e @ [a]\<rparr>)
         | Inl err \<Rightarrow> if err = ValueError then add_adj_sids tlvs e else Inl err)
      else if st_type = 3 \<and> 10 \<le> length st_value then
        bindE (ipv4_of_packed (pslice st_value 4 8)) (\<lambda>nbr_rid.
        case adj_sid_deserialize (take 4 st_value @ drop 8 st_value) of
           Inr a \<Rightarrow> add_adj_sids tlvs (e\<lparr>el_lan_adj_sids := el_lan_adj_sids e @ [(nbr_rid, a)]\<rparr>)
         | Inl err \<Rightarrow> if err = ValueError then add_adj_sids tlvs e else Inl err)
      else add_adj_sids tlvs e)"

definition extended_link_deserialize :: "bytes \<Rightarrow> extended_link result" where
  "extended_link_deserialize data =
     (if length data < 12 then Inl ValueError
      else bindE (byte_at data 0) (\<lambda>link_type. bindE (ipv4_of_packed (pslice data 4 8)) (\<lambda>link_id.
        bindE (ipv4_of_packed (pslice data 8 12)) (\<lambda>link_data.
          add_adj_sids (parse_tlvs data 12)
            \<lparr>el_link_type = link_type, el_link_id = link_id, el_link_data = link_data,
             el_adj_sids = [], el_lan_adj_sids = []\<rparr>))))"

section \<open>Bodies of opaque LSAs\<close>

function capability_ranges :: "bytes \<Rightarrow> nat \<Rightarrow> sid_label_range list result" where
  \<comment> \<open>the loop of \<^verbatim>\<open>_parse_sr_capabilities\<close>\<close>
  "capability_ranges data pos =
     (if pos + 3 \<le> length data then
        bindE (read_u24 data pos) (\<lambda>range_size. let pos = pos + 3 in
          if pos + 4 \<le> length data then
            let (st_type, st_len) = tlv_header data pos; pos = pos + 4
            in if st_type = 1 \<and> st_len = 3 \<and> pos + 3 \<le> length data
               then bindE (read_u24 data pos) (\<lambda>label.
                 bindE (capability_ranges data (pos + 3)) (\<lambda>ranges.
                   Inr (\<lparr>sr_start = label, sr_size = range_size\<rparr> # ranges)))
               else capability_ranges data (pos + st_len)
          else capability_ranges data pos)
      else Inr [])"
  by pat_completeness auto
termination
  by (relation "measure (\<lambda>(data, pos). Suc (length data) - pos)") auto

declare capability_ranges.simps [simp del]

definition parse_sr_capabilities :: "bytes \<Rightarrow> sr_capabilities result" where
  "parse_sr_capabilities data =
     (if length data < 2 then Inl ValueError
      else bindE (byte_at data 0) (\<lambda>flags. bindE (capability_ranges data 2) (\<lambda>ranges.
        Inr \<lparr>sc_flags = flags, sc_ranges = ranges\<rparr>)))"

definition parse_sid_label_range :: "bytes \<Rightarrow> sid_label_range result" where
  "parse_sid_label_range data =
     (if length data < 3 then Inl ValueError
      else bindE (read_u24 data 0) (\<lambda>range_size.
        bindE (if 3 + 4 \<le> length data then
                 (let (st_type, st_len) = tlv_header data 3 in
                  if st_type = 1 \<and> 7 + st_len \<le> length data then
                    (if st_len = 3 then read_u24 data 7 else if st_len = 4 then read_u32 data 7 else Inr 0)
                  else Inr 0)
               else Inr 0) (\<lambda>start. Inr \<lparr>sr_start = start, sr_size = range_size\<rparr>)))"

record router_info =
  ri_sr_capabilities :: "sr_capabilities option"
  ri_sr_algorithms :: "int list"
  ri_srgb :: "sid_label_range option"

definition empty_router_info :: router_info where
  "empty_router_info = \<lparr>ri_sr_capabilities = None, ri_sr_algorithms = [0], ri_srgb = None\<rparr>"

definition read_router_info_tlv :: "int \<times> bytes \<Rightarrow> router_info \<Rightarrow> router_info" where
  \<comment> \<open>what a TLV's reader raises is caught, and the TLV passed over\<close>
  "read_router_info_tlv = (\<lambda>(tlv_type, value) l.
     if tlv_type = 2 then
       (case parse_sr_capabilities value of Inr c \<Rightarrow> l\<lparr>ri_sr_capabilities := Some c\<rparr> | Inl _ \<Rightarrow> l)
     else if tlv_type = 19 then l\<lparr>ri_sr_algorithms := sr_algorithm_deserialize value\<rparr>
     else if tlv_type = 9 then
       (case parse_sid_label_range value of Inr r \<Rightarrow> l\<lparr>ri_srgb := Some r\<rparr> | Inl _ \<Rightarrow> l)
     else l)"

definition router_info_deserialize :: "bytes \<Rightarrow> router_info" where
  "router_info_deserialize data = fold read_router_info_tlv (parse_tlvs data 0) empty_router_info"

definition router_info_serialize :: "router_info \<Rightarrow> bytes result" where
  "router_info_serialize l =
     bindE (case ri_sr_capabilities l of None \<Rightarrow> Inr []
            | Some c \<Rightarrow> bindE (sr_capabilities_serialize c) (encode_tlv 2)) (\<lambda>caps.
     bindE (if ri_sr_algorithms l = [] then Inr []
            else bindE (bytes_of_ints (ri_sr_algorithms l)) (encode_tlv 19)) (\<lambda>algs.
     bindE (case ri_srgb l of None \<Rightarrow> Inr []
            | Some r \<Rightarrow> bindE (encode_sid_label_range r) (encode_tlv 9)) (\<lambda>srgb.
       Inr (caps @ algs @ srgb))))"

definition keep_parsed :: "('a \<Rightarrow> 'b result) \<Rightarrow> 'a \<Rightarrow> 'b option" where
  "keep_parsed f x = (case f x of Inr y \<Rightarrow> Some y | Inl _ \<Rightarrow> None)"

definition extended_prefix_lsa_deserialize :: "bytes \<Rightarrow> extended_prefix list" where
  \<comment> \<open>entries that raise are passed over\<close>
  "extended_prefix_lsa_deserialize data =
     List.map_filter (keep_parsed extended_prefix_deserialize)
       (map snd (filter (\<lambda>(tlv_type, _). tlv_type = 1) (parse_tlvs data 0)))"

definition extended_link_lsa_deserialize :: "bytes \<Rightarrow> extended_link list" where
  "extended_link_lsa_deserialize data =
     List.map_filter (keep_parsed extended_link_deserialize)
       (map snd (filter (\<lambda>(tlv_type, _). tlv_type = 1) (parse_tlvs data 0)))"

section \<open>Identifiers of opaque LSAs\<close>

definition opaque_type_from_lsa_id :: "ipv4 \<Rightarrow> int" where
  "opaque_type_from_lsa_id i = uint (drop_bit 24 i AND 0xFF)"

definition opaque_id_from_lsa_id :: "ipv4 \<Rightarrow> int" where
  "opaque_id_from_lsa_id i = uint (i AND 0x00FFFFFF)"

definition make_opaque_lsa_id :: "int \<Rightarrow> int \<Rightarrow> ipv4 result" where
  "make_opaque_lsa_id opaque_type opaque_id =
     (let v = push_bit 24 opaque_type OR (opaque_id AND 0x00FFFFFF)
      in if 0 \<le> v \<and> v < 4294967296 then Inr (word_of_int v) else Inl AddressValueError)"

section \<open>TLVs are read back\<close>

lemma pad4_bounds: "n \<le> pad4 n" "pad4 n < n + 4"
  unfolding pad4_def using div_mult_mod_eq [of "n + 3" 4] mod_less_divisor [of 4 "n + 3"] by linarith+

lemma encode_tlv_bytes:
  assumes "encode_tlv t v = Inr bs"
  shows "0 \<le> t" and "t < 65536" and "length v < 65536"
    and "bs = be_encode 2 t @ be_encode 2 (int (length v)) @ v @ replicate (pad4 (length v) - length v) 0"
  using assms by (auto simp: encode_tlv_def tlv_hdr_format_def pack_int_def split: if_splits)

lemma encode_tlv_length: "encode_tlv t v = Inr bs \<Longrightarrow> length bs = 4 + pad4 (length v)"
  using pad4_bounds(1) [of "length v"] encode_tlv_bytes(4) [of t v bs] by simp

lemma tlv_header_encoded:
  assumes "0 \<le> t" and "t < 65536" and "n < 65536" and "k = length pre"
  shows "tlv_header (pre @ be_encode 2 t @ be_encode 2 (int n) @ rest) k = (t, n)"
  using assms by (simp add: tlv_header_def pslice_def be_decode_encode)

lemma parse_encoded_tlv:
  assumes "encode_tlv t v = Inr bs"
  shows "parse_tlvs (pre @ bs @ rest) (length pre) = (t, v) # parse_tlvs (pre @ bs @ rest) (length pre + length bs)"
proof -
  let ?pad = "replicate (pad4 (length v) - length v) (0::byte)"
  have bs: "bs = be_encode 2 t @ be_encode 2 (int (length v)) @ v @ ?pad" by (rule encode_tlv_bytes(4) [OF assms])
  have hdr: "tlv_header (pre @ bs @ rest) (length pre) = (t, length v)"
    using tlv_header_encoded [of t "length v" "length pre" pre "v @ ?pad @ rest"] encode_tlv_bytes(1-3) [OF assms] by (simp add: bs)
  have "pslice (pre @ bs @ rest) (length pre + 4) (length pre + 4 + length v) = v"
    by (simp add: bs pslice_def)
  moreover have "length bs = 4 + pad4 (length v)" by (rule encode_tlv_length [OF assms])
  ultimately show ?thesis
    using hdr pad4_bounds(1) [of "length v"] by (subst parse_tlvs.simps) (simp add: add.assoc)
qed

lemma parse_tlvs_end: "length data < pos + 4 \<Longrightarrow> parse_tlvs data pos = []"
  by (subst parse_tlvs.simps) simp

lemma parse_encoded_tlvs:
  assumes "ser_all (\<lambda>(t, v). encode_tlv t v) tlvs = Inr bs"
  shows "parse_tlvs (pre @ bs) (length pre) = tlvs"
  using assms
proof (induction tlvs arbitrary: pre bs)
  case Nil
  then show ?case by (simp add: parse_tlvs_end)
next
  case (Cons tv tlvs)
  obtain t v where tv: "tv = (t, v)" by fastforce
  obtain b bs' where b: "encode_tlv t v = Inr b" "ser_all (\<lambda>(t, v). encode_tlv t v) tlvs = Inr bs'" "bs = b @ bs'"
    using Cons.prems tv by auto
  have "parse_tlvs (pre @ b @ bs') (length (pre @ b)) = tlvs" using Cons.IH [OF b(2), of "pre @ b"] by simp
  then show ?case using parse_encoded_tlv [OF b(1), of pre bs'] tv b(3) by simp
qed

lemma parse_one_tlv: "encode_tlv t v = Inr bs \<Longrightarrow> parse_tlvs (pre @ bs) (length pre) = [(t, v)]"
  using parse_encoded_tlvs [of "[(t, v)]" bs pre] by simp

section \<open>SIDs and ranges are read back\<close>

lemma pack_u32_ok: "pack_u32 v = Inr b \<longleftrightarrow> 0 \<le> v \<and> v < 4294967296 \<and> b = be_encode 4 v"
  by (auto simp: pack_u32_def pack_int_def)

lemma be_encode_4: "be_encode 4 v = word_of_int (v div 16777216) # be_encode 3 v"
  by (simp add: numeral_eq_Suc zdiv_zmult2_eq [symmetric] div_mult2_eq)

lemma pack_u24_ok: "pack_u24 v = Inr b \<longleftrightarrow> 0 \<le> v \<and> v < 4294967296 \<and> b = be_encode 3 v"
  by (auto simp: pack_u24_def bindE_Inr_iff pack_u32_ok be_encode_4)

lemma read_u32_encoded:
  assumes "0 \<le> v" and "v < 4294967296" and "n = length pre"
  shows "read_u32 (pre @ be_encode 4 v @ rest) n = Inr v"
  using assms by (simp add: read_u32_def struct_unpack_from_def be_decode_encode)

lemma be_decode_zero_front: "be_decode (0 # bs) = be_decode bs"
  by (simp add: be_decode_def)

lemma read_u24_encoded:
  assumes "0 \<le> v" and "v < 16777216" and "n = length pre"
  shows "read_u24 (pre @ be_encode 3 v @ rest) n = Inr v"
  using assms
  by (simp add: read_u24_def struct_unpack_def pslice_def be_decode_zero_front be_decode_encode)

lemma bytes_of_ints_ok:
  "bytes_of_ints vs = Inr bs \<longleftrightarrow> list_all (\<lambda>v. 0 \<le> v \<and> v < 256) vs \<and> bs = map word_of_int vs"
  by (auto simp: bytes_of_ints_def)

lemma uint_small_byte: "0 \<le> v \<Longrightarrow> v < 256 \<Longrightarrow> uint (word_of_int v :: byte) = v"
  by (simp add: uint_byte_of_int)

lemma ints_of_bytes_roundtrip: "bytes_of_ints vs = Inr bs \<Longrightarrow> ints_of_bytes bs = vs"
  by (auto simp: bytes_of_ints_ok ints_of_bytes_def list_all_iff uint_small_byte intro: map_idI)

lemma prefix_sid_readback:
  assumes "prefix_sid_serialize p = Inr bs" and "ps_is_value p \<longrightarrow> ps_sid p < 16777216"
  shows "prefix_sid_deserialize bs = Inr p" and "length bs = (if ps_is_value p then 7 else 8)"
proof -
  let ?hd = "map word_of_int [ps_flags p, 0, ps_algorithm p, 0] :: bytes"
  obtain sid where sid: "(if ps_is_value p then pack_u24 (ps_sid p) else pack_u32 (ps_sid p)) = Inr sid"
    and bs: "bs = ?hd @ sid" and range: "0 \<le> ps_flags p" "ps_flags p < 256" "0 \<le> ps_algorithm p" "ps_algorithm p < 256"
    using assms(1) by (auto simp: prefix_sid_serialize_def bytes_of_ints_ok)
  have at: "byte_at bs 0 = Inr (ps_flags p)" "byte_at bs 2 = Inr (ps_algorithm p)"
    using range by (simp_all add: bs byte_at_def uint_small_byte)
  have v: "ps_flags p AND prefix_sid_flag_v \<noteq> 0 \<longleftrightarrow> ps_is_value p" by (simp add: ps_is_value_def)
  have "prefix_sid_deserialize bs = Inr p \<and> length bs = (if ps_is_value p then 7 else 8)"
  proof (cases "ps_is_value p")
    case True
    then have "0 \<le> ps_sid p" "sid = be_encode 3 (ps_sid p)" using sid by (simp_all add: pack_u24_ok)
    moreover from this have "read_u24 bs 4 = Inr (ps_sid p)"
      using read_u24_encoded [of "ps_sid p" 4 ?hd "[]"] assms(2) True by (simp add: bs)
    ultimately show ?thesis using True at by (simp add: prefix_sid_deserialize_def v bs)
  next
    case False
    then have "0 \<le> ps_sid p" "ps_sid p < 4294967296" "sid = be_encode 4 (ps_sid p)" using sid by (simp_all add: pack_u32_ok)
    moreover from this have "read_u32 bs 4 = Inr (ps_sid p)"
      using read_u32_encoded [of "ps_sid p" 4 ?hd "[]"] by (simp add: bs)
    ultimately show ?thesis using False at by (simp add: prefix_sid_deserialize_def v bs)
  qed
  then show "prefix_sid_deserialize bs = Inr p" "length bs = (if ps_is_value p then 7 else 8)" by simp_all
qed

lemma adj_sid_readback:
  assumes "adj_sid_serialize a = Inr bs" and "as_is_value a \<longrightarrow> as_sid a < 16777216"
  shows "adj_sid_deserialize bs = Inr a"
proof -
  let ?hd = "map word_of_int [as_flags a, 0, as_weight a, 0] :: bytes"
  obtain sid where sid: "(if as_is_value a then pack_u24 (as_sid a) else pack_u32 (as_sid a)) = Inr sid"
    and bs: "bs = ?hd @ sid" and range: "0 \<le> as_flags a" "as_flags a < 256" "0 \<le> as_weight a" "as_weight a < 256"
    using assms(1) by (auto simp: adj_sid_serialize_def bytes_of_ints_ok)
  have at: "byte_at bs 0 = Inr (as_flags a)" "byte_at bs 2 = Inr (as_weight a)"
    using range by (simp_all add: bs byte_at_def uint_small_byte)
  have v: "as_flags a AND adj_sid_flag_v \<noteq> 0 \<longleftrightarrow> as_is_value a" by (simp add: as_is_value_def)
  show ?thesis
  proof (cases "as_is_value a")
    case True
    then have "0 \<le> as_sid a" "sid = be_encode 3 (as_sid a)" using sid by (simp_all add: pack_u24_ok)
    moreover from this have "read_u24 bs 4 = Inr (as_sid a)"
      using read_u24_encoded [of "as_sid a" 4 ?hd "[]"] assms(2) True by (simp add: bs)
    ultimately show ?thesis using True at by (simp add: adj_sid_deserialize_def v bs)
  next
    case False
    then have "0 \<le> as_sid a" "as_sid a < 4294967296" "sid = be_encode 4 (as_sid a)" using sid by (simp_all add: pack_u32_ok)
    moreover from this have "read_u32 bs 4 = Inr (as_sid a)"
      using read_u32_encoded [of "as_sid a" 4 ?hd "[]"] by (simp add: bs)
    ultimately show ?thesis using False at by (simp add: adj_sid_deserialize_def v bs)
  qed
qed

definition range24 :: "sid_label_range \<Rightarrow> bool" where
  "range24 r \<longleftrightarrow> 0 \<le> sr_start r \<and> sr_start r < 16777216 \<and> 0 \<le> sr_size r \<and> sr_size r < 16777216"

lemma label_range_bytes:
  assumes "range24 r"
  shows "encode_sid_label_range r = Inr (be_encode 3 (sr_size r) @ be_encode 2 1 @ be_encode 2 3
    @ be_encode 3 (sr_start r) @ [0])"
proof -
  have "pack_u24 (sr_size r) = Inr (be_encode 3 (sr_size r))" "pack_u24 (sr_start r) = Inr (be_encode 3 (sr_start r))"
    using assms by (simp_all add: range24_def pack_u24_ok)
  then show ?thesis
    by (simp add: encode_sid_label_range_def encode_tlv_def tlv_hdr_format_def pack_int_def pad4_def)
qed

lemma range_header:
  "tlv_header (be_encode 3 a @ be_encode 2 1 @ be_encode 2 3 @ rest) 3 = (1, 3)"
  "tlv_header (x # y # be_encode 3 a @ be_encode 2 1 @ be_encode 2 3 @ rest) 5 = (1, 3)"
  using tlv_header_encoded [of 1 3 3 "be_encode 3 a" rest] tlv_header_encoded [of 1 3 5 "x # y # be_encode 3 a" rest]
  by simp_all

lemma label_range_readback:
  assumes "range24 r" and "encode_sid_label_range r = Inr bs"
  shows "parse_sid_label_range bs = Inr r"
proof -
  have bs: "bs = be_encode 3 (sr_size r) @ be_encode 2 1 @ be_encode 2 3 @ be_encode 3 (sr_start r) @ [0]"
    using assms label_range_bytes by simp
  have "read_u24 bs 0 = Inr (sr_size r)"
    using read_u24_encoded [of "sr_size r" 0 "[]"] assms(1) by (simp add: bs range24_def)
  moreover have "read_u24 bs 7 = Inr (sr_start r)"
    using read_u24_encoded [of "sr_start r" 7 "be_encode 3 (sr_size r) @ be_encode 2 1 @ be_encode 2 3" "[0]"] assms(1)
    by (simp add: bs range24_def)
  moreover have "tlv_header bs 3 = (1, 3)" unfolding bs by (rule range_header(1))
  ultimately show ?thesis by (simp add: parse_sid_label_range_def) (simp add: bs)
qed

lemma one_range_readback:
  assumes "range24 r" and "encode_sid_label_range r = Inr bs"
  shows "capability_ranges (x # y # bs) 2 = Inr [r]"
proof -
  let ?d = "x # y # bs"
  have bs: "bs = be_encode 3 (sr_size r) @ be_encode 2 1 @ be_encode 2 3 @ be_encode 3 (sr_start r) @ [0]"
    using assms label_range_bytes by simp
  have size: "read_u24 ?d 2 = Inr (sr_size r)"
    using read_u24_encoded [of "sr_size r" 2 "[x, y]"] assms(1) by (simp add: bs range24_def)
  have start: "read_u24 ?d 9 = Inr (sr_start r)"
    using read_u24_encoded [of "sr_start r" 9 "x # y # be_encode 3 (sr_size r) @ be_encode 2 1 @ be_encode 2 3" "[0]"] assms(1)
    by (simp add: bs range24_def)
  have hdr: "tlv_header ?d 5 = (1, 3)" unfolding bs by (rule range_header(2))
  have len: "length ?d = 13" by (simp add: bs)
  have "capability_ranges ?d 12 = Inr []" using len by (subst capability_ranges.simps) simp
  then show ?thesis using size start hdr len by (subst capability_ranges.simps) (simp add: sid_label_range.defs)
qed

definition capabilities_readable :: "sr_capabilities \<Rightarrow> bool" where
  \<comment> \<open>at most one range, of 24-bit numbers\<close>
  "capabilities_readable c \<longleftrightarrow> length (sc_ranges c) \<le> 1 \<and> list_all range24 (sc_ranges c)"

lemma capabilities_readback:
  assumes "capabilities_readable c" and "sr_capabilities_serialize c = Inr bs"
  shows "parse_sr_capabilities bs = Inr c"
proof -
  obtain rs where bs: "bs = word_of_int (sc_flags c) # 0 # rs" and rs: "ser_all encode_sid_label_range (sc_ranges c) = Inr rs"
    and flags: "0 \<le> sc_flags c" "sc_flags c < 256"
    using assms(2) by (auto simp: sr_capabilities_serialize_def bytes_of_ints_ok)
  have at: "byte_at bs 0 = Inr (sc_flags c)" using flags by (simp add: bs byte_at_def uint_small_byte)
  have "capability_ranges bs 2 = Inr (sc_ranges c)"
  proof (cases "sc_ranges c")
    case Nil
    then show ?thesis using bs rs by (simp add: capability_ranges.simps)
  next
    case (Cons r rest)
    then have "sc_ranges c = [r]" "range24 r" using assms(1) by (simp_all add: capabilities_readable_def)
    then show ?thesis using one_range_readback [of r] rs bs by auto
  qed
  then show ?thesis using at by (simp add: parse_sr_capabilities_def) (simp add: bs)
qed

definition router_info_readable :: "router_info \<Rightarrow> bool" where
  "router_info_readable l \<longleftrightarrow> ri_sr_algorithms l \<noteq> []
     \<and> (case ri_sr_capabilities l of None \<Rightarrow> True | Some c \<Rightarrow> capabilities_readable c)
     \<and> (case ri_srgb l of None \<Rightarrow> True | Some r \<Rightarrow> range24 r)"

text \<open>What a step of the reader does with a TLV the writer made.\<close>

lemma read_steps:
  "sr_capabilities_serialize c = Inr v \<Longrightarrow> capabilities_readable c \<Longrightarrow>
    read_router_info_tlv (2, v) l = l\<lparr>ri_sr_capabilities := Some c\<rparr>"
  "bytes_of_ints vs = Inr v \<Longrightarrow> read_router_info_tlv (19, v) l = l\<lparr>ri_sr_algorithms := vs\<rparr>"
  "encode_sid_label_range r = Inr v \<Longrightarrow> range24 r \<Longrightarrow> read_router_info_tlv (9, v) l = l\<lparr>ri_srgb := Some r\<rparr>"
  by (simp_all add: read_router_info_tlv_def capabilities_readback label_range_readback
      sr_algorithm_deserialize_def ints_of_bytes_roundtrip)

lemma router_info_tlvs:
  assumes "router_info_serialize l = Inr bs" and "ri_sr_algorithms l \<noteq> []"
  obtains cs v as where "ser_all (\<lambda>(t, v). encode_tlv t v) (cs @ (19, v) # as) = Inr bs"
    and "bytes_of_ints (ri_sr_algorithms l) = Inr v"
    and "case ri_sr_capabilities l of None \<Rightarrow> cs = []
      | Some c \<Rightarrow> \<exists>u. sr_capabilities_serialize c = Inr u \<and> cs = [(2, u)]"
    and "case ri_srgb l of None \<Rightarrow> as = [] | Some r \<Rightarrow> \<exists>u. encode_sid_label_range r = Inr u \<and> as = [(9, u)]"
  using assms by (cases "ri_sr_capabilities l"; cases "ri_srgb l")
    (fastforce simp: router_info_serialize_def)+

lemma router_info_readback:
  assumes "router_info_serialize l = Inr bs" and "router_info_readable l"
  shows "router_info_deserialize bs = l"
proof -
  have ne: "ri_sr_algorithms l \<noteq> []" using assms(2) by (simp add: router_info_readable_def)
  obtain cs v as where tlvs: "ser_all (\<lambda>(t, v). encode_tlv t v) (cs @ (19, v) # as) = Inr bs"
    and v: "bytes_of_ints (ri_sr_algorithms l) = Inr v"
    and cs: "case ri_sr_capabilities l of None \<Rightarrow> cs = []
      | Some c \<Rightarrow> \<exists>u. sr_capabilities_serialize c = Inr u \<and> cs = [(2, u)]"
    and as: "case ri_srgb l of None \<Rightarrow> as = [] | Some r \<Rightarrow> \<exists>u. encode_sid_label_range r = Inr u \<and> as = [(9, u)]"
    using router_info_tlvs [OF assms(1) ne] by blast
  have "parse_tlvs bs 0 = cs @ (19, v) # as" using parse_encoded_tlvs [OF tlvs, of "[]"] by simp
  then have "router_info_deserialize bs
      = fold read_router_info_tlv as (read_router_info_tlv (19, v) (fold read_router_info_tlv cs empty_router_info))"
    by (simp add: router_info_deserialize_def)
  also have "fold read_router_info_tlv cs empty_router_info
      = empty_router_info\<lparr>ri_sr_capabilities := ri_sr_capabilities l\<rparr>"
    using cs assms(2) by (cases "ri_sr_capabilities l")
      (auto simp: router_info_readable_def read_steps(1) empty_router_info_def)
  also have "read_router_info_tlv (19, v) \<dots>
      = empty_router_info\<lparr>ri_sr_capabilities := ri_sr_capabilities l, ri_sr_algorithms := ri_sr_algorithms l\<rparr>"
    by (rule read_steps(2) [OF v])
  also have "fold read_router_info_tlv as \<dots> = l"
    using as assms(2) by (cases "ri_srgb l")
      (auto simp: router_info_readable_def read_steps(3) empty_router_info_def)
  finally show ?thesis .
qed

section \<open>Properties\<close>

text \<open>
  A sequence of TLVs is read back: whatever types and values were encoded one after the other,
  with their padding, the parser returns exactly those types and values, in order.
\<close>
theorem tlv_list_roundtrip:
  assumes "ser_all (\<lambda>(t, v). encode_tlv t v) tlvs = Inr bs"
  shows "parse_tlvs bs 0 = tlvs"
  using parse_encoded_tlvs [OF assms, of "[]"] by simp

theorem tlv_list_roundtrip_witness:
  "\<exists>bs. ser_all (\<lambda>(t, v). encode_tlv t v) [(2, [7]), (9, [1, 2, 3, 4, 5])] = Inr bs
     \<and> length bs = 20 \<and> parse_tlvs bs 0 = [(2, [7]), (9, [1, 2, 3, 4, 5])]"
proof -
  let ?tlvs = "[(2, [7]), (9, [1, 2, 3, 4, 5])] :: (int \<times> bytes) list"
  have "ser_all (\<lambda>(t, v). encode_tlv t v) ?tlvs
      = Inr [0, 2, 0, 1, 7, 0, 0, 0, 0, 9, 0, 5, 1, 2, 3, 4, 5, 0, 0, 0]" by code_simp
  from tlv_list_roundtrip [OF this] this show ?thesis by auto
qed

text \<open>
  A Router Information LSA body is read back by its parser when it carries at most one range in
  its capabilities, numbers of 24 bits and some algorithm: the capabilities, the algorithms and the
  SRGB come out as they went in.
\<close>
theorem router_info_roundtrip:
  assumes "router_info_serialize l = Inr bs" and "router_info_readable l"
  shows "router_info_deserialize bs = l"
  using assms by (rule router_info_readback)

definition sample_srgb :: sid_label_range where
  "sample_srgb = \<lparr>sr_start = 16000, sr_size = 8000\<rparr>"

definition sample_router_info :: "sid_label_range list \<Rightarrow> router_info" where
  "sample_router_info ranges = \<lparr>ri_sr_capabilities = Some \<lparr>sc_flags = 0, sc_ranges = ranges\<rparr>,
     ri_sr_algorithms = [0], ri_srgb = Some sample_srgb\<rparr>"

theorem router_info_roundtrip_witness:
  "\<exists>bs. router_info_serialize (sample_router_info [sample_srgb]) = Inr bs
     \<and> router_info_deserialize bs = sample_router_info [sample_srgb]"
proof -
  have "\<not> isl (router_info_serialize (sample_router_info [sample_srgb]))" by code_simp
  then obtain bs where "router_info_serialize (sample_router_info [sample_srgb]) = Inr bs"
    by (auto simp: isl_def) (metis sum.exhaust)
  moreover have "router_info_readable (sample_router_info [sample_srgb])" by code_simp
  ultimately show ?thesis using router_info_roundtrip by blast
qed

text \<open>
  Capabilities with a second range do not survive: the writer pads each SID/Label sub-TLV to four
  bytes, the reader steps over three, so it reads the second range one byte early. Two equal ranges
  16000+8000 come back as the first alone.
\<close>
theorem second_range_lost:
  "(case router_info_serialize (sample_router_info [sample_srgb, sample_srgb]) of
      Inl _ \<Rightarrow> False
    | Inr bs \<Rightarrow> ri_sr_capabilities (router_info_deserialize bs) = Some \<lparr>sc_flags = 0, sc_ranges = [sample_srgb]\<rparr>)"
  by code_simp

end
