(* ===== verification/Sr.thy ===== *)
theory Sr
  imports Sr_Tlv Routes Flooding
begin

text \<open>
  Segment routing above the wire: the database of \<^verbatim>\<open>sr/database.py\<close> built from the opaque LSAs of an
  area, the label computation of \<^verbatim>\<open>sr/spf.py\<close> and the originator of \<^verbatim>\<open>sr/origination.py\<close>. The
  property says that what the originator of one router advertises is what another router's database
  turns into a label.
\<close>

section \<open>The SR database\<close>

record node_sr_info =
  nd_router_id :: ipv4
  nd_srgb :: "sid_label_range option"
  nd_algorithms :: "int list"
  nd_node_sids :: "(network \<times> prefix_sid) list"
  nd_adj_sids :: "(ipv4 \<times> ipv4 \<times> adj_sid) list"

type_synonym sr_database = "(ipv4 \<times> node_sr_info) list"

definition new_node :: "ipv4 \<Rightarrow> node_sr_info" where
  "new_node router_id = \<lparr>nd_router_id = router_id, nd_srgb = None, nd_algorithms = [0], nd_node_sids = [],
     nd_adj_sids = []\<rparr>"

definition label_for_prefix_sid :: "node_sr_info \<Rightarrow> prefix_sid \<Rightarrow> int option" where
  "label_for_prefix_sid node p =
     (if ps_flags p AND prefix_sid_flag_v \<noteq> 0 then Some (ps_sid p)
      else case nd_srgb node of
        None \<Rightarrow> None
      | Some r \<Rightarrow> if range_contains r (ps_sid p) then Some (label_for_index r (ps_sid p)) else None)"

fun add_node_sids :: "extended_prefix list \<Rightarrow> node_sr_info \<Rightarrow> node_sr_info" where
  \<comment> \<open>a prefix length above 32 raises in \<^verbatim>\<open>IPv4Network\<close>, which ends the LSA and is caught there\<close>
  "add_node_sids [] node = node"
| "add_node_sids (e # es) node =
     (case ep_prefix_sid e of
        None \<Rightarrow> add_node_sids es node
      | Some p \<Rightarrow>
          if ep_prefix_len e > 32 then node
          else add_node_sids es (node\<lparr>nd_node_sids :=
            nd_node_sids node @ [(lenient_network (ep_prefix e) (ep_prefix_len e), p)]\<rparr>))"

definition add_link_sids :: "extended_link list \<Rightarrow> node_sr_info \<Rightarrow> node_sr_info" where
  "add_link_sids es node = node\<lparr>nd_adj_sids := nd_adj_sids node
     @ concat (map (\<lambda>e. map (\<lambda>a. (el_link_id e, el_link_data e, a)) (el_adj_sids e)) es)\<rparr>"

definition opaque_body :: "lsa \<Rightarrow> bytes" where
  \<comment> \<open>\<^verbatim>\<open>lsa.body.raw_data if hasattr(lsa.body, 'raw_data') else b""\<close>\<close>
  "opaque_body l = (case l_body l of Some (Raw_Body raw) \<Rightarrow> raw | _ \<Rightarrow> [])"

definition read_opaque_lsa :: "lsa \<Rightarrow> node_sr_info \<Rightarrow> node_sr_info" where
  "read_opaque_lsa l node =
     (let opaque_type = opaque_type_from_lsa_id (lh_link_state_id (l_header l)) in
      if opaque_type = 4 then
        (let ri = router_info_deserialize (opaque_body l)
         in node\<lparr>nd_srgb := (case ri_srgb ri of None \<Rightarrow> nd_srgb node | Some r \<Rightarrow> Some r),
                nd_algorithms := ri_sr_algorithms ri\<rparr>)
      else if opaque_type = 7 then add_node_sids (extended_prefix_lsa_deserialize (opaque_body l)) node
      else if opaque_type = 8 then add_link_sids (extended_link_lsa_deserialize (opaque_body l)) node
      else node)"

definition sr_scan :: "lsa \<Rightarrow> sr_database \<Rightarrow> sr_database" where
  "sr_scan l nodes =
     (let adv_router = lh_advertising_router (l_header l);
          node = (case map_of nodes adv_router of None \<Rightarrow> new_node adv_router | Some n \<Rightarrow> n)
      in AList.update adv_router (read_opaque_lsa l node) nodes)"

definition rebuild :: "lsdb \<Rightarrow> ipv4 \<Rightarrow> sr_database" where
  \<comment> \<open>what was there before is cleared\<close>
  "rebuild d area = fold sr_scan (get_all area (Some 10) d) []"

definition get_node :: "ipv4 \<Rightarrow> sr_database \<Rightarrow> node_sr_info option" where
  "get_node router_id db = map_of db router_id"

definition get_all_nodes :: "sr_database \<Rightarrow> node_sr_info list" where
  "get_all_nodes db = map snd db"

definition get_prefix_label :: "ipv4 \<Rightarrow> network \<Rightarrow> sr_database \<Rightarrow> int option" where
  "get_prefix_label dest_router_id prefix db =
     (case map_of db dest_router_id of
        None \<Rightarrow> None
      | Some node \<Rightarrow> (case find (\<lambda>(net, _). net = prefix) (nd_node_sids node) of
            None \<Rightarrow> None
          | Some (_, p) \<Rightarrow> label_for_prefix_sid node p))"

section \<open>Labels after SPF\<close>

record sr_route =
  so_destination :: network
  so_nexthop_ip :: ipv4
  so_nexthop_intf :: string
  so_outgoing_label :: int
  so_dest_router_id :: ipv4
  so_metric :: int

definition compute_outgoing_label :: "spf_vertex \<Rightarrow> prefix_sid \<Rightarrow> node_sr_info \<Rightarrow> int option" where
  "compute_outgoing_label v p dest_node =
     (case (if ps_flags p AND prefix_sid_flag_v \<noteq> 0 then Some (ps_sid p)
            else case nd_srgb dest_node of
              None \<Rightarrow> None
            | Some r \<Rightarrow> if range_contains r (ps_sid p) then Some (label_for_index r (ps_sid p)) else None) of
        None \<Rightarrow> None
      | Some incoming_label \<Rightarrow>
          if ps_flags p AND prefix_sid_flag_np = 0 then
            (case sv_parent v of
               None \<Rightarrow> None
             | Some parent \<Rightarrow>
                 if sv_id parent = 0 then Some mpls_label_implicit_null else Some incoming_label)
          else Some incoming_label)"

definition vertex_sr_routes :: "spf_vertex \<Rightarrow> ipv4 \<Rightarrow> node_sr_info \<Rightarrow> sr_route list" where
  "vertex_sr_routes v vertex_id node =
     concat (map (\<lambda>(net, p). case compute_outgoing_label v p node of
        None \<Rightarrow> []
      | Some label \<Rightarrow> map (\<lambda>n. \<lparr>so_destination = net, so_nexthop_ip = nh_next_hop_ip n,
          so_nexthop_intf = nh_interface_name n, so_outgoing_label = label, so_dest_router_id = vertex_id,
          so_metric = sv_distance v\<rparr>) (sv_nexthops v)) (nd_node_sids node))"

definition compute_sr_routes :: "spf_tree \<Rightarrow> sr_database \<Rightarrow> sr_route list" where
  "compute_sr_routes tree db =
     concat (map (\<lambda>(vertex_id, v). case get_node vertex_id db of
        None \<Rightarrow> [] | Some node \<Rightarrow> vertex_sr_routes v vertex_id node) tree)"

definition install_sr_routes :: "sr_route list \<Rightarrow> kernel_request list" where
  \<comment> \<open>with implicit null the packet is forwarded without a label\<close>
  "install_sr_routes routes = map (\<lambda>r. Sr_Replace (so_destination r) (so_nexthop_ip r)
     (if so_outgoing_label r = mpls_label_implicit_null then None else Some (so_outgoing_label r))) routes"

section \<open>Origination\<close>

definition opaque_lsa :: "ipv4 \<Rightarrow> ipv4 \<Rightarrow> bytes \<Rightarrow> lsa" where
  "opaque_lsa rid lsa_id body = \<lparr>l_header = \<lparr>lh_ls_age = 0, lh_options = 0, lh_ls_type = 10,
       lh_link_state_id = lsa_id, lh_advertising_router = rid, lh_ls_sequence_number = initial_seq_num,
       lh_ls_checksum = 0, lh_length = 0\<rparr>,
     l_body = Some (Raw_Body body), l_install_time = None, l_installed_age = 0\<rparr>"

definition originate_opaque :: "ipv4 \<Rightarrow> ipv4 \<Rightarrow> bytes \<Rightarrow> lsa option M" where
  "originate_opaque area lsa_id body =
     bindM (getM id) (\<lambda>w.
     bindM (liftM (lsa_serialize (w_now w) True (opaque_lsa (w_router_id w) lsa_id body))) (\<lambda>(_, l).
     bindM (installM area l) (\<lambda>installed.
       if installed then seqM (flood_lsa area (lsa_key l) None) (retM (Some l)) else retM None)))"

definition ri_lsa_body :: "sid_label_range \<Rightarrow> bytes result" where
  "ri_lsa_body srgb = router_info_serialize
     \<lparr>ri_sr_capabilities = Some \<lparr>sc_flags = 0, sc_ranges = [srgb]\<rparr>, ri_sr_algorithms = [0], ri_srgb = Some srgb\<rparr>"

definition originate_ri_lsa :: "sid_label_range \<Rightarrow> ipv4 \<Rightarrow> lsa option M" where
  "originate_ri_lsa srgb area =
     bindM (liftM (ri_lsa_body srgb)) (\<lambda>body.
     bindM (liftM (make_opaque_lsa_id 4 0)) (\<lambda>lsa_id. originate_opaque area lsa_id body))"

definition prefix_sid_lsa_body :: "network \<Rightarrow> int \<Rightarrow> bytes result" where
  "prefix_sid_lsa_body prefix sid_index =
     bindE (bytes_of_ints [1, snd prefix, 0, prefix_sid_flag_np]) (\<lambda>hd.
     bindE (prefix_sid_serialize \<lparr>ps_flags = prefix_sid_flag_np, ps_algorithm = 0, ps_sid = sid_index\<rparr>) (\<lambda>sid.
     bindE (encode_tlv 2 sid) (\<lambda>stlv. encode_tlv 1 (hd @ packed (fst prefix) @ stlv))))"

definition originate_prefix_sid_lsa :: "ipv4 \<Rightarrow> network \<Rightarrow> int \<Rightarrow> lsa option M" where
  "originate_prefix_sid_lsa area prefix sid_index =
     bindM (liftM (prefix_sid_lsa_body prefix sid_index)) (\<lambda>body.
     bindM (liftM (make_opaque_lsa_id 7 (uint (fst prefix AND 0x00FFFFFF)))) (\<lambda>lsa_id.
       originate_opaque area lsa_id body))"

section \<open>Advertisements are read back\<close>

lemma prefix_sid_body_readback:
  assumes "prefix_sid_lsa_body net idx = Inr body"
  shows "extended_prefix_lsa_deserialize body = [\<lparr>ep_route_type = 1, ep_prefix_len = snd net, ep_af = 0,
    ep_flags = prefix_sid_flag_np, ep_prefix = fst net,
    ep_prefix_sid = Some \<lparr>ps_flags = prefix_sid_flag_np, ps_algorithm = 0, ps_sid = idx\<rparr>\<rparr>]"
proof -
  let ?p = "\<lparr>ps_flags = prefix_sid_flag_np, ps_algorithm = 0, ps_sid = idx\<rparr>"
  obtain hd sid stlv where hd: "bytes_of_ints [1, snd net, 0, prefix_sid_flag_np] = Inr hd"
    and sid: "prefix_sid_serialize ?p = Inr sid" and stlv: "encode_tlv 2 sid = Inr stlv"
    and body: "encode_tlv 1 (hd @ packed (fst net) @ stlv) = Inr body"
    using assms by (auto simp: prefix_sid_lsa_body_def)
  let ?v = "hd @ packed (fst net) @ stlv"
  have hd': "hd = [1, word_of_int (snd net), 0, word_of_int prefix_sid_flag_np]" and range: "0 \<le> snd net" "snd net < 256"
    using hd by (simp_all add: bytes_of_ints_ok)
  have "\<not> ps_is_value ?p" by (simp add: ps_is_value_def prefix_sid_flag_np_def prefix_sid_flag_v_def)
  then have "prefix_sid_deserialize sid = Inr ?p" using prefix_sid_readback(1) [OF sid] by blast
  moreover have "parse_tlvs ?v 8 = [(2, sid)]"
    using parse_one_tlv [OF stlv, of "hd @ packed (fst net)"] by (simp add: hd')
  ultimately have "last_prefix_sid (parse_tlvs ?v 8) = Some ?p" by (simp add: last_prefix_sid_def)
  moreover have "byte_at ?v 0 = Inr 1" "byte_at ?v 1 = Inr (snd net)" "byte_at ?v 2 = Inr 0"
    "byte_at ?v 3 = Inr prefix_sid_flag_np"
    using range by (simp_all add: hd' byte_at_def uint_small_byte prefix_sid_flag_np_def)
  moreover have "pslice ?v 4 8 = packed (fst net)" by (simp add: hd' pslice_def)
  ultimately have "extended_prefix_deserialize ?v = Inr \<lparr>ep_route_type = 1, ep_prefix_len = snd net, ep_af = 0,
      ep_flags = prefix_sid_flag_np, ep_prefix = fst net, ep_prefix_sid = Some ?p\<rparr>"
    by (simp add: extended_prefix_deserialize_def) (simp add: hd')
  then show ?thesis using parse_one_tlv [OF body, of "[]"]
    by (simp add: extended_prefix_lsa_deserialize_def keep_parsed_def List.map_filter_simps)
qed

lemma ri_body_readback:
  assumes "ri_lsa_body srgb = Inr body" and "range24 srgb"
  shows "ri_srgb (router_info_deserialize body) = Some srgb"
  using router_info_readback [OF assms(1) [unfolded ri_lsa_body_def]] assms(2)
  by (simp add: router_info_readable_def capabilities_readable_def)

lemma scan_step: "map_of (sr_scan l db) rid =
    (if lh_advertising_router (l_header l) = rid
     then Some (read_opaque_lsa l (case map_of db rid of None \<Rightarrow> new_node rid | Some n \<Rightarrow> n))
     else map_of db rid)"
  by (auto simp: sr_scan_def Let_def update_conv' split: option.split)

lemma scan_node:
  "map_of (fold sr_scan ls db) rid =
    (let mine = filter (\<lambda>l. lh_advertising_router (l_header l) = rid) ls
     in if mine = [] then map_of db rid
        else Some (fold read_opaque_lsa mine (case map_of db rid of None \<Rightarrow> new_node rid | Some n \<Rightarrow> n)))"
proof (induction ls arbitrary: db)
  case (Cons l ls)
  then show ?case by (simp add: scan_step Let_def)
qed simp

definition carries :: "lsa \<Rightarrow> ipv4 \<Rightarrow> ipv4 result \<Rightarrow> bytes result \<Rightarrow> bool" where
  \<comment> \<open>an opaque LSA of that router, with that identifier and that body\<close>
  "carries l rid lsa_id body \<longleftrightarrow> lh_advertising_router (l_header l) = rid
     \<and> lsa_id = Inr (lh_link_state_id (l_header l)) \<and> body = Inr (opaque_body l)"

definition prefix_sid_lsa_id :: "network \<Rightarrow> ipv4 result" where
  "prefix_sid_lsa_id net = make_opaque_lsa_id 7 (uint (fst net AND 0x00FFFFFF))"

lemma shifted_field:
  "drop_bit m (word_of_int (push_bit m t OR take_bit m i) :: 32 word) = take_bit (32 - m) (word_of_int t)"
  by (intro bit_word_eqI) (auto simp: bit_simps)

lemma opaque_type_made:
  assumes "make_opaque_lsa_id t i = Inr a" and "0 \<le> t" and "t < 256"
  shows "opaque_type_from_lsa_id a = t"
proof -
  have low: "i AND 0xFFFFFF = take_bit 24 i" by (simp add: take_bit_eq_mask mask_eq_exp_minus_1)
  have "a = word_of_int (push_bit 24 t OR take_bit 24 i)"
    using assms(1) unfolding make_opaque_lsa_id_def low Let_def by (simp only: split: if_splits) auto
  then have "drop_bit 24 a = take_bit 8 (word_of_int t)" using shifted_field [of 24 t i] by simp
  moreover have "(0xFF :: 32 word) = mask 8" by (simp add: mask_eq_exp_minus_1)
  ultimately have "opaque_type_from_lsa_id a = uint (take_bit 8 (word_of_int t :: 32 word))"
    by (simp only: opaque_type_from_lsa_id_def take_bit_eq_mask and.assoc and.idem)
  also have "\<dots> = take_bit 8 (take_bit 32 t)" by (simp only: unsigned_take_bit_eq unsigned_of_int) simp
  also have "\<dots> = t" using assms(2,3) by (simp add: take_bit_eq_mod)
  finally show ?thesis .
qed


lemma read_ri_lsa:
  assumes "carries l rid (make_opaque_lsa_id 4 0) (ri_lsa_body srgb)" and "range24 srgb"
  shows "nd_srgb (read_opaque_lsa l node) = Some srgb" and "nd_node_sids (read_opaque_lsa l node) = nd_node_sids node"
proof -
  have "opaque_type_from_lsa_id (lh_link_state_id (l_header l)) = 4"
    using assms(1) by (intro opaque_type_made) (auto simp: carries_def)
  moreover have "ri_srgb (router_info_deserialize (opaque_body l)) = Some srgb"
    using assms by (intro ri_body_readback) (auto simp: carries_def)
  ultimately show "nd_srgb (read_opaque_lsa l node) = Some srgb"
    "nd_node_sids (read_opaque_lsa l node) = nd_node_sids node"
    by (simp_all add: read_opaque_lsa_def Let_def)
qed

lemma read_prefix_lsa:
  assumes "carries l rid (prefix_sid_lsa_id net) (prefix_sid_lsa_body net idx)" and "snd net \<le> 32"
  shows "nd_srgb (read_opaque_lsa l node) = nd_srgb node"
    and "nd_node_sids (read_opaque_lsa l node) = nd_node_sids node @ [(lenient_network (fst net) (snd net),
      \<lparr>ps_flags = prefix_sid_flag_np, ps_algorithm = 0, ps_sid = idx\<rparr>)]"
proof -
  have "opaque_type_from_lsa_id (lh_link_state_id (l_header l)) = 7"
    using assms(1) by (intro opaque_type_made [of 7]) (auto simp: carries_def prefix_sid_lsa_id_def)
  moreover have "prefix_sid_lsa_body net idx = Inr (opaque_body l)" using assms(1) by (simp add: carries_def)
  ultimately show "nd_srgb (read_opaque_lsa l node) = nd_srgb node"
    "nd_node_sids (read_opaque_lsa l node) = nd_node_sids node @ [(lenient_network (fst net) (snd net),
      \<lparr>ps_flags = prefix_sid_flag_np, ps_algorithm = 0, ps_sid = idx\<rparr>)]"
    using assms(2) by (simp_all add: read_opaque_lsa_def Let_def prefix_sid_body_readback)
qed

definition advertises :: "lsdb \<Rightarrow> ipv4 \<Rightarrow> ipv4 \<Rightarrow> sid_label_range \<Rightarrow> network \<Rightarrow> int \<Rightarrow> bool" where
  \<comment> \<open>the router's opaque LSAs in the area are the two its originator makes, in either order\<close>
  "advertises d area rid srgb net idx \<longleftrightarrow>
     (case filter (\<lambda>l. lh_advertising_router (l_header l) = rid) (get_all area (Some 10) d) of
        [l, l'] \<Rightarrow>
          carries l rid (make_opaque_lsa_id 4 0) (ri_lsa_body srgb)
            \<and> carries l' rid (prefix_sid_lsa_id net) (prefix_sid_lsa_body net idx)
          \<or> carries l' rid (make_opaque_lsa_id 4 0) (ri_lsa_body srgb)
            \<and> carries l rid (prefix_sid_lsa_id net) (prefix_sid_lsa_body net idx)
      | _ \<Rightarrow> False)"

lemma advertised_node:
  assumes "advertises d area rid srgb net idx" and "range24 srgb" and "snd net \<le> 32"
  obtains node where "map_of (rebuild d area) rid = Some node" and "nd_srgb node = Some srgb"
    and "nd_node_sids node = [(lenient_network (fst net) (snd net),
      \<lparr>ps_flags = prefix_sid_flag_np, ps_algorithm = 0, ps_sid = idx\<rparr>)]"
proof -
  obtain l l' where mine: "filter (\<lambda>l. lh_advertising_router (l_header l) = rid) (get_all area (Some 10) d) = [l, l']"
    and lsas: "carries l rid (make_opaque_lsa_id 4 0) (ri_lsa_body srgb)
          \<and> carries l' rid (prefix_sid_lsa_id net) (prefix_sid_lsa_body net idx)
        \<or> carries l' rid (make_opaque_lsa_id 4 0) (ri_lsa_body srgb)
          \<and> carries l rid (prefix_sid_lsa_id net) (prefix_sid_lsa_body net idx)"
    using assms(1) by (auto simp: advertises_def split: list.splits)
  let ?node = "read_opaque_lsa l' (read_opaque_lsa l (new_node rid))"
  have new: "map_of (rebuild d area) rid = Some ?node" "nd_node_sids (new_node rid) = []"
    by (simp_all add: rebuild_def scan_node mine new_node_def)
  from lsas show ?thesis
  proof (elim disjE conjE)
    assume ri: "carries l rid (make_opaque_lsa_id 4 0) (ri_lsa_body srgb)"
      and ep: "carries l' rid (prefix_sid_lsa_id net) (prefix_sid_lsa_body net idx)"
    note reads = read_ri_lsa [OF ri assms(2)] read_prefix_lsa [OF ep assms(3)]
    show ?thesis by (rule that [OF new(1)]) (simp_all only: reads new(2) append_Nil)
  next
    assume ri: "carries l' rid (make_opaque_lsa_id 4 0) (ri_lsa_body srgb)"
      and ep: "carries l rid (prefix_sid_lsa_id net) (prefix_sid_lsa_body net idx)"
    note reads = read_ri_lsa [OF ri assms(2)] read_prefix_lsa [OF ep assms(3)]
    show ?thesis by (rule that [OF new(1)]) (simp_all only: reads new(2) append_Nil)
  qed
qed

section \<open>Properties\<close>

text \<open>
  C28. The label of a node SID is taken from the destination's SRGB, towards every next hop. When the
  opaque LSAs of a router in an area are the two its originator makes, its SRGB and a prefix with a SID
  index inside the SRGB, then a database rebuilt from the area gives the prefix the label start plus
  index, the routes computed for a tree that reaches the router push this label towards each of its
  next hops, and no route towards the router pushes another. This is not what the docstring of
  \<^verbatim>\<open>compute_sr_routes\<close> and \<^verbatim>\<open>docs/segment-routing.md\<close> say, the start of the next hop's SRGB plus index:
  for a next hop of whose SRGB the database knows, the two labels agree exactly when its SRGB starts
  where the destination's does, and otherwise the packet leaves with a label the next hop has not
  assigned to the prefix.
\<close>
theorem advertised_sid_label:
  assumes "advertises d area rid srgb net idx" and "range24 srgb" and "snd net \<le> 32"
    and "0 \<le> idx" and "idx < sr_size srgb"
    and "(rid, v) \<in> set tree"
    and hop: "map_of (rebuild d area) hop = Some hop_node" "nd_srgb hop_node = Some hop_srgb"
  shows "get_prefix_label rid (lenient_network (fst net) (snd net)) (rebuild d area) = Some (sr_start srgb + idx)
    \<and> (\<forall>n\<in>set (sv_nexthops v).
        \<lparr>so_destination = lenient_network (fst net) (snd net), so_nexthop_ip = nh_next_hop_ip n,
          so_nexthop_intf = nh_interface_name n, so_outgoing_label = sr_start srgb + idx, so_dest_router_id = rid,
          so_metric = sv_distance v\<rparr> \<in> set (compute_sr_routes tree (rebuild d area)))
    \<and> (\<forall>s\<in>set (compute_sr_routes tree (rebuild d area)). so_dest_router_id s = rid \<longrightarrow>
        so_outgoing_label s = sr_start srgb + idx
        \<and> (so_outgoing_label s = label_for_index hop_srgb idx \<longleftrightarrow> sr_start hop_srgb = sr_start srgb))"
proof -
  let ?net = "lenient_network (fst net) (snd net)"
    and ?p = "\<lparr>ps_flags = prefix_sid_flag_np, ps_algorithm = 0, ps_sid = idx\<rparr>"
  obtain node where node: "map_of (rebuild d area) rid = Some node" "nd_srgb node = Some srgb"
    "nd_node_sids node = [(?net, ?p)]" using advertised_node [OF assms(1-3)] .
  have flags: "prefix_sid_flag_np AND prefix_sid_flag_v = 0" "prefix_sid_flag_np AND prefix_sid_flag_np \<noteq> 0"
    by (simp_all add: prefix_sid_flag_np_def prefix_sid_flag_v_def)
  have in_range: "range_contains srgb idx" using assms(4,5) by (simp add: range_contains_def)
  have "label_for_prefix_sid node ?p = Some (sr_start srgb + idx)"
    using node(2) in_range flags by (simp add: label_for_prefix_sid_def label_for_index_def)
  then have label: "get_prefix_label rid ?net (rebuild d area) = Some (sr_start srgb + idx)"
    using node by (simp add: get_prefix_label_def)
  have "compute_outgoing_label u ?p node = Some (sr_start srgb + idx)" for u
    using node(2) in_range flags by (simp add: compute_outgoing_label_def label_for_index_def)
  then have routes: "vertex_sr_routes u rid node = map (\<lambda>n. \<lparr>so_destination = ?net, so_nexthop_ip = nh_next_hop_ip n,
      so_nexthop_intf = nh_interface_name n, so_outgoing_label = sr_start srgb + idx, so_dest_router_id = rid,
      so_metric = sv_distance u\<rparr>) (sv_nexthops u)" for u
    using node(3) by (simp add: vertex_sr_routes_def)
  have "set (vertex_sr_routes v rid node) \<subseteq> set (compute_sr_routes tree (rebuild d area))"
    using node(1) assms(6) by (force simp: compute_sr_routes_def get_node_def)
  moreover have only: "so_outgoing_label s = sr_start srgb + idx"
    if s_in: "s \<in> set (compute_sr_routes tree (rebuild d area))" and s_for: "so_dest_router_id s = rid" for s
  proof -
    obtain i u m where s: "s \<in> set (vertex_sr_routes u i m)" "map_of (rebuild d area) i = Some m"
      using s_in by (auto simp: compute_sr_routes_def get_node_def split: option.splits)
    then have "i = rid" using s_for by (auto simp: vertex_sr_routes_def split: option.splits)
    then show ?thesis using s node(1) routes by auto
  qed
  ultimately show ?thesis using label routes by (auto simp: label_for_index_def)
qed

definition sample_sr_lsas :: "ipv4 \<Rightarrow> sid_label_range \<Rightarrow> network \<Rightarrow> int \<Rightarrow> lsa list" where
  "sample_sr_lsas rid srgb net idx =
     (case (make_opaque_lsa_id 4 0, ri_lsa_body srgb, prefix_sid_lsa_id net, prefix_sid_lsa_body net idx) of
        (Inr i, Inr b, Inr i', Inr b') \<Rightarrow> [opaque_lsa rid i b, opaque_lsa rid i' b']
      | _ \<Rightarrow> [])"

definition sample_sr_db :: lsdb where
  \<comment> \<open>2.2.2.2 advertises 16000+8000 and index 100 for 192.168.0.0/24, 3.3.3.3 on the way to it 20000+8000\<close>
  "sample_sr_db = (empty_lsdb 16843009)\<lparr>ld_areas := [(0, map (\<lambda>l. (lsa_key l, l))
     (sample_sr_lsas 33686018 sample_srgb (3232235520, 24) 100
        @ sample_sr_lsas 50529027 \<lparr>sr_start = 20000, sr_size = 8000\<rparr> (3232235776, 24) 101))]\<rparr>"

definition sample_sr_vertex :: spf_vertex where
  "sample_sr_vertex = Spf_Vertex 33686018 spf_vertex_router sample_lsa 20 None
     [\<lparr>nh_interface_name = ''eth0'', nh_next_hop_ip = 167772162, nh_interface_index = 2\<rparr>]"

theorem advertised_sid_label_witness:
  \<comment> \<open>the next hop 3.3.3.3 expects 20100\<close>
  "get_prefix_label 33686018 (3232235520, 24) (rebuild sample_sr_db 0) = Some 16100
   \<and> \<lparr>so_destination = (3232235520, 24), so_nexthop_ip = 167772162, so_nexthop_intf = ''eth0'',
      so_outgoing_label = 16100, so_dest_router_id = 33686018, so_metric = 20\<rparr>
     \<in> set (compute_sr_routes [(33686018, sample_sr_vertex)] (rebuild sample_sr_db 0))
   \<and> (case map_of (rebuild sample_sr_db 0) 50529027 of None \<Rightarrow> False
      | Some hop \<Rightarrow> map_option (\<lambda>r. label_for_index r 100) (nd_srgb hop) = Some 20100)"
proof -
  let ?n = "\<lparr>nh_interface_name = ''eth0'', nh_next_hop_ip = 167772162, nh_interface_index = 2\<rparr>"
  have ad: "advertises sample_sr_db 0 33686018 sample_srgb (3232235520, 24) 100" "range24 sample_srgb"
    "lenient_network 3232235520 24 = (3232235520, 24)" "?n \<in> set (sv_nexthops sample_sr_vertex)"
    by code_simp+
  have expected: "case map_of (rebuild sample_sr_db 0) 50529027 of None \<Rightarrow> False
      | Some hop \<Rightarrow> map_option (\<lambda>r. label_for_index r 100) (nd_srgb hop) = Some 20100" by code_simp
  then obtain hop r where "map_of (rebuild sample_sr_db 0) 50529027 = Some hop" "nd_srgb hop = Some r"
    by (auto split: option.splits)
  note label = advertised_sid_label [OF ad(1,2) _ _ _ _ this, of sample_sr_vertex "[(33686018, sample_sr_vertex)]"]
  then show ?thesis using expected ad(3,4) by (simp add: sample_srgb_def sample_sr_vertex_def)
qed

end
