(* ===== verification/Instance.thy ===== *)
theory Instance
  imports Config Flooding Routes Sr
begin

text \<open>
  The daemon as a whole, \<^verbatim>\<open>protocol/instance.py\<close>: its start from a configuration and the interfaces
  the system has, the receive callback from the raw datagram to the handler, the SPF run with its
  segment routing part, the shutdown, and the steps of the running daemon: whatever packet arrives,
  timer fires or interface event happens next. The invariants proved for the handlers are those of
  every state a started daemon can reach.
\<close>

section \<open>Receiving\<close>

definition strip_ip_header :: "bytes \<Rightarrow> bytes result" where
  \<comment> \<open>\<^verbatim>\<open>OspfSocket.recv\<close>: the header's length is in its first byte, in words\<close>
  "strip_ip_header datagram =
     bindE (byte_at datagram 0) (\<lambda>b. Inr (drop (nat ((b AND 0x0F) * 4)) datagram))"

definition if_neighbor :: "nat \<Rightarrow> ipv4 \<Rightarrow> unit M \<Rightarrow> unit M" where
  \<comment> \<open>\<^verbatim>\<open>nbr = interface.neighbors.get(router_id); if nbr: ...\<close>\<close>
  "if_neighbor i r m = bindM (getM (\<lambda>w. nbr_at w i r)) (\<lambda>n. whenM (n \<noteq> None) m)"

definition dispatch :: "nat \<Rightarrow> int \<Rightarrow> ipv4 \<Rightarrow> bytes \<Rightarrow> ipv4 \<Rightarrow> unit M" where
  "dispatch i ty router_id body src =
     (if ty = 1 then bindM (liftM (hello_deserialize body 0)) (\<lambda>hello. process_hello i hello src router_id)
      else if ty = 2 then bindM (liftM (dd_deserialize body 0)) (\<lambda>dd. if_neighbor i router_id (process_dd i router_id dd))
      else if ty = 3 then bindM (liftM (lsr_deserialize body 0)) (\<lambda>items.
        if_neighbor i router_id (process_ls_request i router_id items))
      else if ty = 4 then bindM (liftM (lsu_deserialize body 0)) (\<lambda>lsas.
        if_neighbor i router_id (receive_lsu i router_id lsas))
      else if ty = 5 then bindM (liftM (lsack_deserialize body 0)) (\<lambda>headers.
        if_neighbor i router_id (process_ls_ack i router_id headers))
      else retM ())"

definition receive_packet :: "nat \<Rightarrow> bytes \<Rightarrow> ipv4 \<Rightarrow> unit M" where
  "receive_packet i datagram src =
     bindM (liftM (strip_ip_header datagram)) (\<lambda>data.
     bindM (get_intf i) (\<lambda>it. bindM (getM id) (\<lambda>w.
     case accept_packet (w_md5 w) (w_router_id w) it data src of
       None \<Rightarrow> retM ()
     | Some (header, body) \<Rightarrow> catchM (dispatch i (oh_type header) (oh_router_id header) body src))))"

section \<open>Starting\<close>

text \<open>
  What the system offers: the interfaces netlink reports, the interfaces a raw socket cannot be opened
  on, and the clock.
\<close>

record sys_env =
  se_interfaces :: "interface_info list"
  se_socket_fails :: "string \<Rightarrow> bool"
  se_clock :: int

fun int_value :: "yaml \<Rightarrow> int option" where
  "int_value (Y_Int n) = Some n"
| "int_value (Y_Bool b) = Some (if b then 1 else 0)"
| "int_value _ = None"

definition int_or :: "int \<Rightarrow> yaml \<Rightarrow> int" where
  "int_or d v = (case int_value v of None \<Rightarrow> d | Some n \<Rightarrow> n)"

definition integer_fields :: "interface_config \<Rightarrow> bool" where
  \<comment> \<open>the configuration the model covers: Python stores other values and fails on them later\<close>
  "integer_fields c \<longleftrightarrow> list_all (\<lambda>v. int_value v \<noteq> None) [ic_cost c, ic_priority c, ic_hello_interval c,
     ic_dead_interval c, ic_retransmit_interval c, ic_transmit_delay c, ac_key_id (ic_auth c)]"

fun finite_delay :: "pyfloat \<Rightarrow> time option" where
  \<comment> \<open>what a delay amounts to in \<^verbatim>\<open>max(0, delay)\<close> and \<^verbatim>\<open>elapsed < hold\<close>; a NaN is ignored by both\<close>
  "finite_delay (Fin r) = Some r"
| "finite_delay NaN = Some 0"
| "finite_delay Neg_Infinite = Some 0"
| "finite_delay Infinite = None"

definition delay_or_0 :: "pyfloat \<Rightarrow> time" where
  "delay_or_0 r = (case finite_delay r of None \<Rightarrow> 0 | Some d \<Rightarrow> d)"

definition finite_delays :: "ospf_config \<Rightarrow> bool" where
  \<comment> \<open>the configuration the model covers: with an infinite delay Python schedules a calculation that never runs\<close>
  "finite_delays cfg \<longleftrightarrow> finite_delay (cf_spf_delay cfg) \<noteq> None \<and> finite_delay (cf_spf_hold cfg) \<noteq> None"

definition attrs_of_config ::
    "interface_config \<Rightarrow> string \<Rightarrow> ipv4 \<Rightarrow> ipv4 \<Rightarrow> ipv4 \<Rightarrow> int \<Rightarrow> int \<Rightarrow> intf_attrs" where
  "attrs_of_config c name area_id ip_addr ip_mask mtu index =
     \<lparr>if_name = name, if_type = ic_type c, if_cost = int_or 0 (ic_cost c),
      if_priority = int_or 0 (ic_priority c), if_hello_interval = int_or 0 (ic_hello_interval c),
      if_dead_interval = int_or 0 (ic_dead_interval c),
      if_retransmit_interval = int_or 0 (ic_retransmit_interval c),
      if_transmit_delay = int_or 0 (ic_transmit_delay c), if_passive = truthy (ic_passive c),
      if_auth_type = ac_type (ic_auth c), if_auth_key = ac_key (ic_auth c),
      if_auth_key_id = int_or 0 (ac_key_id (ic_auth c)), if_area_id = area_id, if_ip_addr = ip_addr,
      if_ip_mask = ip_mask, if_mtu = mtu, if_index = index\<rparr>"

definition area_from_config :: "area_config \<Rightarrow> ospf_area" where
  \<comment> \<open>the default cost is stored and never read; one that is no integer is stored as 1\<close>
  "area_from_config c = area_create (acf_area_id c) (truthy (acf_stub c)) (int_or 1 (acf_default_cost c))"

definition new_instance :: "ospf_config \<Rightarrow> time \<Rightarrow> (nat \<Rightarrow> int) \<Rightarrow> (bytes \<Rightarrow> bytes) \<Rightarrow> world" where
  \<comment> \<open>the attributes once the constructor has returned; see \<open>create_instance\<close> for whether it does\<close>
  "new_instance cfg now entropy md5 =
     \<lparr>w_router_id = 0, w_options = 2,
      w_is_asbr = (truthy (rc_static (cf_redistribute cfg)) \<or> truthy (rc_connected (cf_redistribute cfg))),
      w_spf_delay = delay_or_0 (cf_spf_delay cfg), w_spf_hold = delay_or_0 (cf_spf_hold cfg), w_lsdb = empty_lsdb 0, w_areas = [],
      w_intfs = [], w_last_origination = [], w_router_lsa_pending = [], w_network_lsa_pending = [],
      w_spf_pending = False, w_spf_due = None, w_last_spf_time = 0, w_now = now, w_entropy = entropy,
      w_draws = 0, w_md5 = md5, w_trace = []\<rparr>"

definition instance_attributes :: "string list" where
  \<comment> \<open>what an instance has when its constructor comes to the ageing: the methods, then the attributes set so far\<close>
  "instance_attributes = [''__init__'', ''init_netlink'', ''start'', ''_receive_packet'', ''schedule_spf'', ''_run_spf'',
     ''schedule_router_lsa'', ''_originate_router_lsa'', ''schedule_network_lsa'', ''_originate_network_lsa'',
     ''get_interfaces_for_area'', ''shutdown'',
     ''config'', ''router_id'', ''options'', ''is_asbr'', ''lsdb'', ''flooding'', ''originator'', ''dijkstra'', ''routing_table'']"

definition create_aging_manager :: "string list \<Rightarrow> unit result" where
  \<comment> \<open>the arguments of its timer are wrong too, but only matter once it is started\<close>
  "create_aging_manager attributes = guardE (list_ex (\<lambda>a. a = ''loop'') attributes) AttributeError"

definition create_instance :: "unit result" where
  \<comment> \<open>whether \<^verbatim>\<open>OspfInstance(config)\<close> raises; \<open>new_instance\<close> is what it makes when it does not\<close>
  "create_instance = create_aging_manager instance_attributes"

definition find_sys_intf :: "sys_env \<Rightarrow> yaml \<Rightarrow> interface_info option" where
  \<comment> \<open>\<^verbatim>\<open>sys_intf_map.get(name)\<close>; of two with one name the later is in the map\<close>
  "find_sys_intf env name = map_of (rev (map (\<lambda>s. (Y_Str (ii_name s), s)) (se_interfaces env))) name"

definition setup_interface :: "sys_env \<Rightarrow> interface_config \<Rightarrow> ospf_area \<Rightarrow> ospf_area M" where
  \<comment> \<open>an interface that is not there, has no address or no socket is skipped\<close>
  "setup_interface env c a =
     (case find_sys_intf env (ic_name c) of
        None \<Rightarrow> retM a
      | Some s \<Rightarrow> (case ii_addresses s of
            [] \<Rightarrow> retM a
          | (ip_addr, prefix_len) # _ \<Rightarrow>
              bindM (liftM (prefix_len_to_mask prefix_len)) (\<lambda>ip_mask.
              if \<not> integer_fields c then raiseM TypeError
              else
                let it = interface_create (attrs_of_config c (ii_name s) (ar_area_id a) ip_addr ip_mask
                      (ii_mtu s) (ii_index s)) (se_clock env)
                in if \<not> if_passive it \<and> se_socket_fails env (ii_name s) then retM a
                   else bindM (getM (\<lambda>w. length (w_intfs w))) (\<lambda>i.
                     seqM (modM (\<lambda>w. w\<lparr>w_intfs := w_intfs w
                         @ [it\<lparr>is_socket := if if_passive it then None else Some {}\<rparr>]\<rparr>))
                       (retM (area_add_interface i a))))))"

fun setup_interfaces :: "sys_env \<Rightarrow> interface_config list \<Rightarrow> ospf_area \<Rightarrow> ospf_area M" where
  "setup_interfaces env [] a = retM a"
| "setup_interfaces env (c # cs) a = bindM (setup_interface env c a) (setup_interfaces env cs)"

definition setup_area :: "sys_env \<Rightarrow> area_config \<Rightarrow> unit M" where
  "setup_area env c =
     (let a = area_from_config c in
      seqM (modM (\<lambda>w. w\<lparr>w_areas := AList.update (ar_area_id a) a (w_areas w),
          w_lsdb := ensure_area (ar_area_id a) (w_lsdb w)\<rparr>))
        (bindM (setup_interfaces env (acf_interfaces c) a) (\<lambda>a.
          modM (\<lambda>w. w\<lparr>w_areas := AList.update (ar_area_id a) a (w_areas w)\<rparr>))))"

definition ignoreM :: "'a M \<Rightarrow> unit M" where
  "ignoreM m = bindM m (\<lambda>_. retM ())"

definition srgb_of_config :: "sr_config \<Rightarrow> sid_label_range result" where
  \<comment> \<open>a bound that is no integer fails when it is packed\<close>
  "srgb_of_config c = (case (int_value (src_srgb_start c), int_value (src_srgb_size c)) of
     (Some a, Some n) \<Rightarrow> Inr \<lparr>sr_start = a, sr_size = n\<rparr> | _ \<Rightarrow> Inl StructError)"

definition originate_node_sid :: "ipv4 \<Rightarrow> yaml \<Rightarrow> nat \<Rightarrow> unit M" where
  "originate_node_sid area index i =
     bindM (get_intf i) (\<lambda>it. bindM (liftM (ip_to_network (if_ip_addr it) (if_ip_mask it))) (\<lambda>net.
     bindM (liftM (some_or StructError (int_value index))) (\<lambda>n. ignoreM (originate_prefix_sid_lsa area net n))))"

definition start_sr :: "sr_config \<Rightarrow> ipv4 list \<Rightarrow> unit M" where
  "start_sr c areas =
     bindM (liftM (srgb_of_config c)) (\<lambda>srgb.
     seqM (forM areas (\<lambda>area. ignoreM (originate_ri_lsa srgb area)))
       (whenM (src_node_sid_index c \<noteq> Y_Null) (forM areas (\<lambda>area.
          bindM (getM (get_interfaces_for_area area)) (\<lambda>is.
            forM is (originate_node_sid area (src_node_sid_index c)))))))"

definition start :: "sys_env \<Rightarrow> ospf_config \<Rightarrow> unit M" where
  "start env cfg =
     seqM (whenM (\<not> finite_delays cfg) (raiseM ValueError))
     (bindM (liftM (select_router_id (cf_router_id cfg)
       (map (\<lambda>s. (ii_name s, ii_addresses s)) (se_interfaces env)))) (\<lambda>rid.
     seqM (modM (\<lambda>w. w\<lparr>w_router_id := rid, w_lsdb := empty_lsdb rid\<rparr>))
     (seqM (forM (cf_areas cfg) (setup_area env))
     (bindM (getM (\<lambda>w. length (w_intfs w))) (\<lambda>n.
     seqM (forM [0..<n] (\<lambda>i. intf_event i If_Up_Evt))
     (bindM (getM (\<lambda>w. map fst (w_areas w))) (\<lambda>areas.
     seqM (forM areas (\<lambda>area. ignoreM (originate_router_lsa area)))
       (whenM (truthy (src_enabled (cf_sr cfg))) (start_sr (cf_sr cfg) areas)))))))))"

section \<open>The daemon\<close>

record daemon =
  dm_world :: world
  dm_table :: route_table
  dm_sr_db :: sr_database
  dm_sr_enabled :: bool                 \<comment> \<open>segment routing is configured and its originator exists\<close>
  dm_requests :: "kernel_request list"  \<comment> \<open>made of the kernel so far, in order\<close>

definition boot ::
    "sys_env \<Rightarrow> ospf_config \<Rightarrow> time \<Rightarrow> (nat \<Rightarrow> int) \<Rightarrow> (bytes \<Rightarrow> bytes) \<Rightarrow> daemon option" where
  \<comment> \<open>a start that raises ends the daemon\<close>
  "boot env cfg now entropy md5 =
     (case start env cfg (new_instance cfg now entropy md5) of
        (Inl _, _) \<Rightarrow> None
      | (Inr _, w) \<Rightarrow> Some \<lparr>dm_world = w, dm_table = [], dm_sr_db = [],
          dm_sr_enabled = truthy (src_enabled (cf_sr cfg)), dm_requests = []\<rparr>)"

definition sr_after_spf :: "world \<Rightarrow> (ipv4 \<times> spf_tree) list \<Rightarrow> sr_database \<Rightarrow> sr_database \<times> kernel_request list" where
  \<comment> \<open>every area rebuilds the one database, so the last area's is left\<close>
  "sr_after_spf w trees db =
     (let db' = fold (\<lambda>area _. rebuild (w_lsdb w) area) (map fst (w_areas w)) db
      in (db', concat (map (\<lambda>(_, tree). install_sr_routes (compute_sr_routes tree db')) trees)))"

definition fire_spf :: "daemon \<Rightarrow> daemon option" where
  "fire_spf d =
     (case (run_spf (dm_world d, dm_table d), calculate_trees (dm_world d) (map fst (w_areas (dm_world d)))) of
        (Some ((w, table), requests), Some trees) \<Rightarrow>
          (let (db, sr_requests) = (if dm_sr_enabled d then sr_after_spf w trees (dm_sr_db d) else (dm_sr_db d, []))
           in Some (d\<lparr>dm_world := w, dm_table := table, dm_sr_db := db,
                      dm_requests := dm_requests d @ requests @ sr_requests\<rparr>))
      | _ \<Rightarrow> None)"

definition area_shutdown :: "ospf_area \<Rightarrow> unit M" where
  "area_shutdown a = forM (ar_interfaces a) interface_shutdown"

definition shutdown :: "(ipv4 option \<times> int option) list \<Rightarrow> daemon \<Rightarrow> unit result \<times> daemon" where
  \<comment> \<open>\<open>kernel_routes\<close> are those the kernel holds under the daemon's protocol number\<close>
  "shutdown kernel_routes d =
     (case seqM (modM (\<lambda>w. w\<lparr>w_spf_due := None, w_router_lsa_pending := [], w_network_lsa_pending := []\<rparr>))
         (forM (map snd (w_areas (dm_world d))) area_shutdown) (dm_world d) of
        (Inl e, w) \<Rightarrow> (Inl e, d\<lparr>dm_world := w\<rparr>)
      | (Inr _, w) \<Rightarrow> (Inr (), d\<lparr>dm_world := w, dm_requests := dm_requests d @ flush_ospf_routes kernel_routes\<rparr>))"

datatype input =
    Datagram_In nat bytes ipv4
  | Wait_Fires nat
  | Hello_Fires nat
  | Ack_Fires nat
  | Inactivity_Fires nat ipv4
  | Rxmt_Fires nat ipv4
  | Dd_Rxmt_Fires nat ipv4
  | Router_Lsa_Fires ipv4
  | Network_Lsa_Fires nat
  | Age_Check
  | Intf_Event nat intf_evt
  | Intf_Shutdown nat

fun handle :: "input \<Rightarrow> unit M" where
  "handle (Datagram_In i datagram src) = receive_packet i datagram src"
| "handle (Wait_Fires i) = fire_wait_timer i"
| "handle (Hello_Fires i) = fire_hello_timer i"
| "handle (Ack_Fires i) = fire_ack_timer i"
| "handle (Inactivity_Fires i r) = fire_inactivity_timer i r"
| "handle (Rxmt_Fires i r) = fire_rxmt_timer i r"
| "handle (Dd_Rxmt_Fires i r) = fire_dd_rxmt_timer i r"
| "handle (Router_Lsa_Fires area) = ignoreM (run_router_lsa_timer area)"
| "handle (Network_Lsa_Fires i) = ignoreM (run_network_lsa_timer i)"
| "handle Age_Check = check_ages"
| "handle (Intf_Event i e) = intf_event i e"
| "handle (Intf_Shutdown i) = interface_shutdown i"

inductive daemon_step :: "daemon \<Rightarrow> daemon \<Rightarrow> bool" where
  handles: "handle x (dm_world d) = (y, w) \<Longrightarrow> daemon_step d (d\<lparr>dm_world := w\<rparr>)"
| spf: "fire_spf d = Some d' \<Longrightarrow> daemon_step d d'"
| waits: "t \<ge> w_now (dm_world d) \<Longrightarrow> daemon_step d (d\<lparr>dm_world := (dm_world d)\<lparr>w_now := t\<rparr>\<rparr>)"

end
