(* ===== verification/Sample_Daemon.thy ===== *)
theory Sample_Daemon
  imports Instance
begin

text \<open>
  A small router to evaluate the model on: one interface, configured as a file of three lines would,
  with the packets of its neighbour and the inputs it is given in order.
\<close>

section \<open>A sample\<close>

definition sample_system :: sys_env where
  "sample_system = \<lparr>se_interfaces = [\<lparr>ii_name = ''eth0'', ii_index = 2, ii_mtu = 1500,
     ii_addresses = [(167772161, 24)], ii_state = ''up'', ii_mac = []\<rparr>], se_socket_fails = (\<lambda>_. False), se_clock = 0\<rparr>"

definition sample_config :: "ipv4 \<Rightarrow> int \<Rightarrow> ospf_config" where
  \<comment> \<open>a router with one interface of that type\<close>
  "sample_config router_id intf_type = default_config\<lparr>cf_router_id := Some router_id, cf_areas :=
     [\<lparr>acf_area_id = 0, acf_stub = Y_Bool False, acf_default_cost = Y_Int 1, acf_interfaces =
       [\<lparr>ic_name = Y_Str ''eth0'', ic_type = intf_type, ic_cost = Y_Int 10, ic_priority = Y_Int 1,
          ic_hello_interval = Y_Int 10, ic_dead_interval = Y_Int 40, ic_retransmit_interval = Y_Int 5,
          ic_transmit_delay = Y_Int 1, ic_passive = Y_Bool False, ic_auth = default_auth\<rparr>]\<rparr>]\<rparr>"

lemma sample_config_parsed:
  \<comment> \<open>what a file of three lines gives\<close>
  "parse_config sample_env [(Y_Str ''router_id'', Y_Str ''0.0.0.1''), (Y_Str ''areas'',
     Y_Map [(Y_Str ''0.0.0.0'', Y_Map [(Y_Str ''interfaces'', Y_Map [(Y_Str ''eth0'',
       Y_Map [(Y_Str ''type'', Y_Str ''p2p'')])])])])] = Inr (sample_config 1 1)"
  by code_simp

definition sample_daemon :: "int \<Rightarrow> daemon option" where
  "sample_daemon intf_type = boot sample_system (sample_config 1 intf_type) 1000 (\<lambda>_. 100) (\<lambda>_. [])"

definition run_inputs :: "input list \<Rightarrow> daemon \<Rightarrow> daemon" where
  "run_inputs xs d = fold (\<lambda>x d. d\<lparr>dm_world := snd (handle x (dm_world d))\<rparr>) xs d"

definition ip_datagram :: "bytes \<Rightarrow> bytes" where
  "ip_datagram packet = 0x45 # replicate 19 0 @ packet"

definition hello_datagram :: bytes where
  \<comment> \<open>a Hello of router 2 on the sample link that has heard router 1\<close>
  "hello_datagram = (case hello_serialize (sample_hello\<lparr>hp_neighbors := [1]\<rparr>) of
     Inl _ \<Rightarrow> []
   | Inr body \<Rightarrow> (case frame_packet (\<lambda>_. []) 2 (sample_intf\<lparr>if_auth_type := 0\<rparr>) 0 1 body of
         Inl _ \<Rightarrow> [] | Inr packet \<Rightarrow> ip_datagram packet))"

definition sample_run :: "int \<Rightarrow> input list \<Rightarrow> daemon" where
  \<comment> \<open>the sample daemon after these inputs\<close>
  "sample_run intf_type xs = (case sample_daemon intf_type of None \<Rightarrow> run_inputs xs undefined | Some d \<Rightarrow> run_inputs xs d)"

definition sample_view :: "daemon \<Rightarrow> intf_state \<times> nbr_state list \<times> ipv4 \<times> nat \<times> ipv4 list \<times> nat" where
  \<comment> \<open>how the first interface and the database of a sample look\<close>
  "sample_view d = (let w = dm_world d; it = intf_at w 0 in
     (is_state it, map nb_state (map snd (is_neighbors it)), if_ip_addr it, length (w_intfs w),
      map fst (ld_areas (w_lsdb w)), length (area_db 0 (w_lsdb w))))"

end
