(* ===== verification/Frames.thy ===== *)
theory Frames
  imports Fsm
begin

text \<open>
  What the protocol's computations leave alone. Sending, the state machines, the Hello and database
  description handlers and all timers of interfaces and neighbours only write interfaces, pending
  schedules, random draws and the trace: the locale \<open>interface_frame\<close> says so for any predicate
  that these writes respect. It is interpreted on the link-state database, and a locale that extends
  it covers the handlers that write the database too.
\<close>

section \<open>Cases of a computation\<close>

lemma keeps_case_option:
  "keeps P m \<Longrightarrow> (\<And>x. keeps P (f x)) \<Longrightarrow> keeps P (case y of None \<Rightarrow> m | Some x \<Rightarrow> f x)"
  by (cases y) simp_all

lemma keeps_case_prod: "(\<And>x y. keeps P (f x y)) \<Longrightarrow> keeps P (case p of (x, y) \<Rightarrow> f x y)"
  by (cases p) simp

lemma keeps_let: "keeps P (f x) \<Longrightarrow> keeps P (Let x f)"
  by simp

section \<open>Computations on interfaces and neighbours\<close>

named_theorems leaves_intros \<open>computations that respect a frame\<close>

locale interface_frame =
  fixes P :: "world \<Rightarrow> bool"
  assumes frame_intfs: "\<And>i f w. P w \<Longrightarrow> P (upd_intf i f w)"
    and frame_lsa_pending: "\<And>f w. P w \<Longrightarrow> P (w_router_lsa_pending_update f w)"
      "\<And>f w. P w \<Longrightarrow> P (w_network_lsa_pending_update f w)"
    and frame_spf: "\<And>f w. P w \<Longrightarrow> P (w_spf_pending_update f w)" "\<And>f w. P w \<Longrightarrow> P (w_spf_due_update f w)"
    and frame_draws: "\<And>f w. P w \<Longrightarrow> P (w_draws_update f w)"
    and frame_trace: "\<And>f w. P w \<Longrightarrow> P (w_trace_update f w)"
begin

lemma leaves_set [leaves_intros]: "keeps P (set_intf i f)" "keeps P (set_nbr i r g)"
  by (simp_all add: set_intf_def set_nbr_def upd_nbr_def keeps_mod frame_intfs)

lemma leaves_schedule [leaves_intros]:
  "keeps P (schedule_router_lsa a)" "keeps P (schedule_network_lsa i)" "keeps P schedule_spf"
  unfolding schedule_router_lsa_def schedule_network_lsa_def schedule_spf_def
  by (auto intro!: keeps_mod keeps_intros frame_lsa_pending frame_spf simp: Let_def)

lemma leaves_draw [leaves_intros]: "keeps P draw" "keeps P draw_fraction"
  by (auto simp: draw_fraction_def intro!: keeps_intros) (simp_all add: keeps_def draw_def frame_draws)

lemma leaves_send_packet [leaves_intros]: "keeps P (send_packet i t b dest)"
  unfolding send_packet_def by (intro keeps_intros leaves_intros keeps_mod frame_trace)

lemma leaves_sending [leaves_intros]:
  "keeps P (send_hello i)" "keeps P (start_hello i)" "keeps P (stop_all i)" "keeps P (send_dd i r fl hs)"
  "keeps P (pop_headers i r)" "keeps P (send_ls_request i r)" "keeps P (start_dd_exchange i r)"
proof -
  show hello: "keeps P (send_hello i)" and dd: "keeps P (send_dd i r fl hs)" for hs fl
    unfolding send_hello_def send_dd_def Let_def by (intro keeps_intros leaves_intros)+
  show "keeps P (start_hello i)" "keeps P (stop_all i)" "keeps P (pop_headers i r)"
      "keeps P (send_ls_request i r)" "keeps P (start_dd_exchange i r)"
    unfolding start_hello_def stop_all_def pop_headers_def send_ls_request_def start_dd_exchange_def Let_def
    by (intro keeps_intros leaves_intros hello dd)+
qed

lemma leaves_dd_sending [leaves_intros]:
  "keeps P (send_dd_master i r)" "keeps P (send_dd_slave i r)" "keeps P (retransmit_last_dd i r)"
  unfolding send_dd_master_def send_dd_slave_def retransmit_last_dd_def Let_def
  by (intro keeps_intros leaves_intros keeps_case_option)+

lemma leaves_adjacency [leaves_intros]: "keeps P (form_adjacency i r)" "keeps P (seq_num_mismatch i r)"
  unfolding form_adjacency_def seq_num_mismatch_def by (intro keeps_intros leaves_intros)+

lemma leaves_nbr_action [leaves_intros]: "keeps P (run_nbr_action i r a)"
  by (cases a) (simp_all only: run_nbr_action.simps, (intro keeps_intros leaves_intros)+)

lemma leaves_neighbor_event: "(\<And>c. keeps P (k c)) \<Longrightarrow> keeps P (neighbor_event k i r e)"
  unfolding neighbor_event_def Let_def by (intro keeps_intros leaves_intros keeps_case_option) assumption+

lemma leaves_intf_action: "(\<And>c. keeps P (k c)) \<Longrightarrow> keeps P (run_intf_action k i a)"
  by (cases a) (simp_all only: run_intf_action.simps if_up_action_def if_down_action_def set_intf_state_def,
      (intro keeps_intros leaves_intros | assumption)+)

lemma leaves_run_call: "(\<And>c. keeps P (k c)) \<Longrightarrow> keeps P (run_call k c)"
  by (cases c) (simp_all only: run_call.simps neighbor_state_changed_def interface_event_def
      intf_state_changed_def run_dr_election_def Let_def,
      (intro keeps_intros leaves_intros leaves_neighbor_event leaves_intf_action keeps_case_option | assumption)+)

lemma leaves_cascade [leaves_intros]: "keeps P (cascade f c)"
proof (induction f arbitrary: c)
  case (Suc f)
  then show ?case by (simp only: cascade.simps leaves_run_call)
qed (simp add: keeps_simple)

lemma leaves_events [leaves_intros]: "keeps P (nbr_event i r e)" "keeps P (intf_event i e')"
  unfolding nbr_event_def intf_event_def by (intro leaves_intros)+

lemma leaves_hello [leaves_intros]: "keeps P (process_hello i hello src rid)"
  unfolding process_hello_def by (intro keeps_intros leaves_intros)

lemma leaves_dd [leaves_intros]: "keeps P (process_dd i r dd)"
  unfolding process_dd_def process_dd_exstart_def process_dd_exchange_def process_dd_headers_def
  by (intro keeps_intros leaves_intros)

lemma leaves_update_ack [leaves_intros]: "keeps P (process_ls_update i r keys)" "keeps P (process_ls_ack i r hs)"
    "keeps P (queue_delayed_ack i h)" "keeps P (flush_delayed_acks i)" "keeps P (interface_shutdown i)"
  unfolding process_ls_update_def process_ls_ack_def queue_delayed_ack_def flush_delayed_acks_def
    interface_shutdown_def stop_all_def Let_def
  by (intro keeps_intros leaves_intros)+

lemma leaves_timers [leaves_intros]:
  "keeps P (fire_wait_timer i)" "keeps P (fire_hello_timer i)" "keeps P (fire_ack_timer i)"
  "keeps P (fire_inactivity_timer i r)" "keeps P (fire_rxmt_timer i r)" "keeps P (fire_dd_rxmt_timer i r)"
  unfolding fire_wait_timer_def fire_hello_timer_def fire_ack_timer_def fire_inactivity_timer_def
    fire_rxmt_timer_def fire_dd_rxmt_timer_def
  by (intro keeps_intros leaves_intros)+

end

section \<open>Computations that leave the database alone\<close>

definition lsdb_is :: "lsdb \<Rightarrow> world \<Rightarrow> bool" where
  "lsdb_is d w \<longleftrightarrow> w_lsdb w = d"

interpretation lsdb: interface_frame "lsdb_is d" for d
  by unfold_locales (simp_all add: lsdb_is_def upd_intf_def)

abbreviation leaves :: "lsdb \<Rightarrow> 'a M \<Rightarrow> bool" where
  \<comment> \<open>used for every database\<close>
  "leaves d \<equiv> keeps (lsdb_is d)"

lemma leaves_lsdb:
  assumes "\<And>d. leaves d m"
  shows "w_lsdb (snd (m w)) = w_lsdb w"
  using keeps_run [OF assms, of "w_lsdb w" w] by (simp add: lsdb_is_def)

end
