(* ===== verification/Flooding_Invariant.thy ===== *)
theory Flooding_Invariant
  imports Flooding Frames
begin

text \<open>
  The invariants of the whole protocol state: flooding, origination and ageing keep the neighbour
  and interface invariant of \<open>Fsm_Invariant\<close>, and every handler keeps the database invariant.
\<close>

section \<open>Flooding keeps the neighbour tables\<close>

lemma keeps_get_lsa [keeps_intros]: "keeps P (get_lsa area key)"
  by (auto simp: keeps_def get_lsa_def split: option.split)

lemma ok_serialize [keeps_intros]:
  "keeps_ok (serialize_stored_lsas area ls)" "keeps_ok (serialize_flooded area key)"
proof -
  show "keeps_ok (serialize_stored_lsas area ls)" for ls
    unfolding serialize_stored_lsas_def
    by (intro keeps_intros) (auto intro!: keeps_intros ok_mod)
  then show "keeps_ok (serialize_flooded area key)"
    unfolding serialize_flooded_def by (intro keeps_intros)
qed

lemma ok_installM [keeps_intros]: "keeps_ok (installM area l)"
  by (simp add: keeps_def installM_def world_ok_def split: prod.split)

lemma enlist_ok:
  "world_ok w \<Longrightarrow> (\<And>r n. r \<in> set rs \<Longrightarrow> nbr_at w i r = Some n \<Longrightarrow> Nbr_Exchange \<le> nb_state n)
    \<Longrightarrow> world_ok (snd (enlist area key i rs w))"
proof (induction rs arbitrary: w)
  case Nil
  then show ?case by (simp add: retM_def)
next
  case (Cons r rs)
  show ?case
  proof (cases "nbr_at w i r")
    case None
    then show ?thesis using Cons.prems by (simp add: bindM_def get_nbr_def)
  next
    case n: (Some n)
    let ?rx = "nb_ls_retransmission_list n"
    consider (there) "map_of ?rx key \<noteq> None" | (full) "map_of ?rx key = None" "length ?rx \<ge> 1000"
      | (new) "map_of ?rx key = None" "length ?rx < 1000" by linarith
    then show ?thesis
    proof cases
      case there
      have "world_ok (snd (enlist area key i rs w))"
        by (rule Cons.IH [OF Cons.prems(1)], rule Cons.prems(2)) simp_all
      then show ?thesis using n there by (simp add: bind_get_nbr)
    next
      case full
      have "keeps_ok (seqM (nbr_event i r Kill_Nbr) (retM False))" by (intro keeps_intros) simp
      then show ?thesis using n full Cons.prems keeps_run by (simp add: bind_get_nbr)
    next
      case new
      show ?thesis
      proof (cases "lsdb_lookup area key (w_lsdb w)")
        case None
        then show ?thesis using n new Cons.prems by (simp add: bind_get_nbr) (simp add: bindM_def get_lsa_def)
      next
        case (Some l)
        let ?w = "upd_nbr i r (nb_ls_retransmission_list_update (AList.update key l)) w"
        have st: "Nbr_Exchange \<le> nb_state n" using Cons.prems(2) [of r n] n by simp
        have "world_ok ?w"
          using n new st by (intro world_ok_upd_nbr [OF Cons.prems(1)])
            (auto simp: nbr_ok_def nbr_order length_update)
        moreover have "Nbr_Exchange \<le> nb_state m" if "r' \<in> set rs" "nbr_at ?w i r' = Some m" for r' m
          using that Cons.prems(2) [of r'] n st by (auto split: if_splits)
        ultimately have "world_ok (snd (enlist area key i rs ?w))" by (rule Cons.IH)
        then show ?thesis using n new Some
          by (simp add: bind_get_nbr) (simp add: bindM_def get_lsa_def set_nbr_def seq_modM)
      qed
    qed
  qed
qed

lemma eligible_state:
  assumes "world_ok w" and "i < length (w_intfs w)" and "r \<in> set (eligible_neighbors (intf_at w i))"
    and "nbr_at w i r = Some n"
  shows "Nbr_Exchange \<le> nb_state n"
proof -
  have "distinct (map fst (is_neighbors (intf_at w i)))"
    using world_ok_intf [OF assms(1,2)] by (simp add: intf_ok_def)
  then have "map_of (is_neighbors (intf_at w i)) r' = Some b" if "(r', b) \<in> set (is_neighbors (intf_at w i))" for r' b
    using that by simp
  then show ?thesis using assms(2-4) by (auto simp: eligible_neighbors_def nbr_at_def)
qed

lemma ok_flood_to_interface [keeps_intros]: "keeps_ok (flood_to_interface area key i)"
  unfolding keeps_def
proof (intro allI impI)
  fix w assume ok: "world_ok w"
  show "world_ok (snd (flood_to_interface area key i w))"
  proof (cases "i < length (w_intfs w)")
    case False
    then show ?thesis using ok by (simp add: flood_to_interface_def bindM_def get_intf_def)
  next
    case i: True
    let ?el = "eligible_neighbors (intf_at w i)"
    let ?send = "\<lambda>alive. whenM alive
       (bindM (get_intf i) (\<lambda>it.
        if is_multi_access it then
          bindM (serialize_flooded area key) (\<lambda>body. send_packet i 4 body
            (if is_state it = If_DR \<or> is_state it = If_Backup then all_spf_routers else all_d_routers))
        else forM ?el (\<lambda>r. bindM (serialize_flooded area key) (\<lambda>body.
          bindM (get_nbr i r) (\<lambda>n. send_packet i 4 body (nb_ip_addr n))))))"
    have send: "keeps_ok (?send alive)" for alive by (intro keeps_intros)
    obtain x w' where e: "enlist area key i ?el w = (x, w')" by fastforce
    have "world_ok w'" using enlist_ok [OF ok, of ?el i area key] eligible_state [OF ok i] e by auto
    then have "world_ok (snd (bindM (enlist area key i ?el) ?send w))"
      using e keeps_run [OF send] by (cases x) (simp_all add: bindM_def)
    moreover have "flood_to_interface area key i w
        = (if ?el = [] then retM () else bindM (enlist area key i ?el) ?send) w"
      by (simp only: flood_to_interface_def bind_get_intf [OF i] Let_def)
    ultimately show ?thesis using ok by (simp add: retM_def)
  qed
qed

lemma ok_flood [keeps_intros]: "keeps_ok (flood_back_to_source area key i)" "keeps_ok (flood_lsa area key recv)"
  unfolding flood_back_to_source_def flood_lsa_def by (intro keeps_intros)+

lemma ok_originate [keeps_intros]: "keeps_ok (originate area ty i b s)"
  unfolding originate_def Let_def
  by (intro keeps_intros keeps_case_option keeps_case_prod ok_mod) simp

lemma ok_originate_lsas [keeps_intros]:
  "keeps_ok (originate_router_lsa area)" "keeps_ok (originate_network_lsa i)"
  "keeps_ok (originate_summary_lsa area d m c)" "keeps_ok (originate_asbr_summary_lsa area rid c)"
  "keeps_ok (originate_external_lsa d m c ty fwd tag)" "keeps_ok (refresh_lsa area l)"
  unfolding originate_router_lsa_def originate_network_lsa_def originate_summary_lsa_def
    originate_asbr_summary_lsa_def originate_external_lsa_def refresh_lsa_def Let_def
  by (intro keeps_intros keeps_case_option)+

lemma ok_lsa_timers [keeps_intros]: "keeps_ok (run_router_lsa_timer area)" "keeps_ok (run_network_lsa_timer i)"
  unfolding run_router_lsa_timer_def run_network_lsa_timer_def
  by (intro keeps_intros ok_mod, simp)+

lemma ok_acknowledge [keeps_intros]: "keeps_ok (acknowledge h i r)"
  unfolding acknowledge_def send_direct_ack_def by (intro keeps_intros queue_delayed_ack_ok)

lemma ok_process_received_lsa [keeps_intros]: "keeps_ok (process_received_lsa l i r area)"
  unfolding process_received_lsa_def Let_def
  by (intro keeps_intros keeps_case_option ok_mod ok_set_nbr queue_delayed_ack_ok)
    (auto simp: nbr_ok_def intro: le_trans [OF length_delete_le])

lemma ok_receive_lsu [keeps_intros]: "keeps_ok (receive_lsu i r lsas)"
  unfolding receive_lsu_def by (intro keeps_intros process_ls_update_ok)

lemma ok_ageing [keeps_intros]: "keeps_ok (flush_maxage_lsa l area)" "keeps_ok check_ages"
proof -
  show flush: "keeps_ok (flush_maxage_lsa l area)" for l area
    unfolding flush_maxage_lsa_def by (intro keeps_intros keeps_case_option ok_mod) simp_all
  show "keeps_ok check_ages" unfolding check_ages_def by (intro keeps_intros flush)
qed

section \<open>Every handler keeps the database invariant\<close>

definition db_ok :: "world \<Rightarrow> bool" where
  "db_ok w \<longleftrightarrow> lsdb_ok (w_lsdb w)"

abbreviation keeps_db :: "'a M \<Rightarrow> bool" where
  "keeps_db \<equiv> keeps db_ok"

named_theorems db_intros \<open>handlers that keep the database invariant\<close>

lemma db_mod: "(\<And>w. lsdb_ok (w_lsdb w) \<Longrightarrow> lsdb_ok (w_lsdb (f w))) \<Longrightarrow> keeps_db (modM f)"
  by (simp add: keeps_def db_ok_def modM_def)

lemma db_leaves: "(\<And>d. leaves d m) \<Longrightarrow> keeps_db m"
  by (simp add: keeps_def [of db_ok] db_ok_def leaves_lsdb)

lemmas db_of_leaves [db_intros] = leaves_intros [THEN db_leaves]

text \<open>Serializing writes ages and checksums into LSAs that are there.\<close>

lemma ser_lsas_keys: "ser_lsas now ls = Inr (bs, ls') \<Longrightarrow> map lsa_key ls' = map lsa_key ls"
  by (induction ls arbitrary: bs ls') (auto simp: lsa_key_def elim!: lsa_serialize_cases)

lemma lsu_serialize_keys: "lsu_serialize now ls = Inr (bs, ls') \<Longrightarrow> map lsa_key ls' = map lsa_key ls"
  by (auto simp: lsu_serialize_def dest: ser_lsas_keys)

definition all_stored :: "ipv4 \<Rightarrow> lsa_ident list \<Rightarrow> lsdb \<Rightarrow> bool" where
  "all_stored area keys d \<longleftrightarrow> (\<forall>k\<in>set keys. lsdb_lookup area k d \<noteq> None)"

lemma lsa_key_type: "fst (lsa_key l) = lh_ls_type (l_header l)"
  by (simp add: lsa_key_def lsa_header_key_def)

lemma store_header_updates_ok:
  "lsdb_ok d \<Longrightarrow> all_stored area (map lsa_key ls) d \<Longrightarrow> lsdb_ok (store_header_updates area ls d)"
proof (induction ls arbitrary: d)
  case Nil
  then show ?case by (simp add: store_header_updates_def)
next
  case (Cons l ls)
  let ?ty = "lh_ls_type (l_header l)"
  let ?d = "set_partition area ?ty (AList.update (lsa_key l) l (partition_db area ?ty d)) d"
  have key: "fst (lsa_key l) = ?ty" by (rule lsa_key_type)
  have "map_of (partition_db area ?ty d) (lsa_key l) \<noteq> None"
    using Cons.prems(2) key by (simp add: all_stored_def lookup_partition)
  then have "lsdb_ok ?d"
    using Cons.prems(1) key lsdb_ok_partition [OF Cons.prems(1), of ?ty area]
    by (intro lsdb_ok_set_partition table_ok_update) simp_all
  moreover have "all_stored area (map lsa_key ls) ?d"
    using Cons.prems(2) unfolding all_stored_def by (auto simp: lookup_set_partition_update [OF key])
  ultimately have "lsdb_ok (store_header_updates area ls ?d)" by (rule Cons.IH)
  then show ?case by (simp add: store_header_updates_def)
qed

lemma serialize_stored_db:
  assumes "db_ok w" and "all_stored area (map lsa_key ls) (w_lsdb w)"
  shows "db_ok (snd (serialize_stored_lsas area ls w))"
proof (cases "lsu_serialize (w_now w) ls")
  case (Inl e)
  then show ?thesis using assms by (simp add: serialize_stored_lsas_def bind_getM) (simp add: monad_defs)
next
  case (Inr p)
  obtain bs ls' where p: "p = (bs, ls')" by (cases p)
  then have "map lsa_key ls' = map lsa_key ls" using Inr lsu_serialize_keys by blast
  then have "lsdb_ok (store_header_updates area ls' (w_lsdb w))"
    using assms store_header_updates_ok by (simp add: db_ok_def)
  then show ?thesis using Inr p by (simp add: serialize_stored_lsas_def bind_getM) (simp add: monad_defs db_ok_def)
qed

lemma lookup_key: "lsdb_ok d \<Longrightarrow> lsdb_lookup area key d = Some l \<Longrightarrow> lsa_key l = key"
  using lsdb_ok_partition [of d "fst key" area]
  by (auto simp: lookup_partition table_ok_def dest!: list_all_map_of)

lemma db_serialize_flooded [db_intros]: "keeps_db (serialize_flooded area key)"
  unfolding keeps_def
proof (intro allI impI)
  fix w assume ok: "db_ok w"
  show "db_ok (snd (serialize_flooded area key w))"
  proof (cases "lsdb_lookup area key (w_lsdb w)")
    case None
    then show ?thesis using ok by (simp add: serialize_flooded_def bindM_def get_lsa_def)
  next
    case (Some l)
    have "lsa_key l = key" using lookup_key ok Some by (simp add: db_ok_def)
    then have "all_stored area (map lsa_key [l]) (w_lsdb w)" using Some by (simp add: all_stored_def)
    from serialize_stored_db [OF ok this]
    show ?thesis using Some by (simp add: serialize_flooded_def) (simp add: bindM_def get_lsa_def)
  qed
qed

lemma send_ls_update_db:
  assumes "db_ok w" and "all_stored area (map lsa_key ls) (w_lsdb w)"
  shows "db_ok (snd (send_ls_update area i r ls w))"
proof -
  have rest: "keeps_db (bindM (get_nbr i r) (\<lambda>n. send_packet i 4 body (nb_ip_addr n)))" for body
    by (intro keeps_intros db_intros)
  obtain x w' where s: "serialize_stored_lsas area ls w = (x, w')" by fastforce
  then have "db_ok w'" using serialize_stored_db [OF assms] by simp
  then show ?thesis using s assms(1) keeps_run [OF rest]
    by (cases x) (auto simp: send_ls_update_def bindM_def [of "serialize_stored_lsas area ls"] retM_def)
qed

lemma requested_stored:
  "lsdb_ok d \<Longrightarrow> requested_lsas d area items = Some ls \<Longrightarrow> all_stored area (map lsa_key ls) d"
proof (induction items arbitrary: ls)
  case (Cons item items)
  then obtain l ls' where l: "lsdb_lookup area (lsr_item_key item) d = Some l" "ls = l # ls'"
    "requested_lsas d area items = Some ls'" by (auto split: option.splits)
  then have "lsa_key l = lsr_item_key item" using lookup_key Cons.prems(1) by blast
  then show ?case using Cons.IH [OF Cons.prems(1) l(3)] l by (simp add: all_stored_def)
qed (simp add: all_stored_def)

lemma db_ls_request [db_intros]: "keeps_db (process_ls_request i r items)"
  unfolding keeps_def
proof (intro allI impI)
  fix w assume ok: "db_ok w"
  have bad: "db_ok (snd (nbr_event i r Bad_Ls_Req w))" by (rule keeps_run [OF db_leaves [OF lsdb.leaves_events(1)] ok])
  show "db_ok (snd (process_ls_request i r items w))"
  proof (cases "nbr_at w i r")
    case None
    then show ?thesis using ok by (simp add: process_ls_request_def bindM_def get_nbr_def)
  next
    case (Some n)
    then have i: "i < length (w_intfs w)" by (auto simp: nbr_at_def split: if_splits)
    show ?thesis
    proof (cases "requested_lsas (w_lsdb w) (if_area_id (intf_at w i)) items")
      case None
      then show ?thesis using ok bad
        by (simp add: process_ls_request_def bind_get_nbr [OF Some] bind_get_intf [OF i] bind_getM retM_def)
    next
      case (Some ls)
      then have "db_ok (snd (send_ls_update (if_area_id (intf_at w i)) i r ls w))"
        using ok requested_stored by (intro send_ls_update_db) (simp_all add: db_ok_def)
      then show ?thesis using ok Some
        by (simp add: process_ls_request_def bind_get_nbr [OF \<open>nbr_at w i r = Some n\<close>] bind_get_intf [OF i]
            bind_getM retM_def)
    qed
  qed
qed

lemma db_enlist [db_intros]: "keeps_db (enlist area key i rs)"
  by (induction rs) (simp_all only: enlist.simps, (intro keeps_intros db_intros | assumption)+)

lemma db_flood [db_intros]:
  "keeps_db (flood_to_interface area key i)" "keeps_db (flood_back_to_source area key i)"
  "keeps_db (flood_lsa area key recv)"
proof -
  show out: "keeps_db (flood_to_interface area key i)" and home: "keeps_db (flood_back_to_source area key i)" for i
    unfolding flood_to_interface_def flood_back_to_source_def Let_def
    by (intro keeps_intros db_intros)+
  show "keeps_db (flood_lsa area key recv)"
    unfolding flood_lsa_def by (intro keeps_intros out home)
qed

lemma db_installM [db_intros]: "keeps_db (installM area l)"
  using lsdb_install_ok by (auto simp: keeps_def installM_def db_ok_def split: prod.split) (metis snd_conv)

lemma db_originate [db_intros]: "keeps_db (originate area ty i b s)"
  unfolding originate_def Let_def
  by (intro keeps_intros db_intros keeps_case_option keeps_case_prod db_mod) simp

lemma db_originate_lsas [db_intros]:
  "keeps_db (originate_router_lsa area)" "keeps_db (originate_network_lsa i)"
  "keeps_db (originate_summary_lsa area d m c)" "keeps_db (originate_asbr_summary_lsa area rid c)"
  "keeps_db (originate_external_lsa d m c ty fwd tag)" "keeps_db (refresh_lsa area l)"
  unfolding originate_router_lsa_def originate_network_lsa_def originate_summary_lsa_def
    originate_asbr_summary_lsa_def originate_external_lsa_def refresh_lsa_def Let_def
  by (intro keeps_intros db_intros keeps_case_option)+

lemma db_lsa_timers [db_intros]: "keeps_db (run_router_lsa_timer area)" "keeps_db (run_network_lsa_timer i)"
  unfolding run_router_lsa_timer_def run_network_lsa_timer_def
  by (intro keeps_intros db_intros db_mod, simp)+

lemma db_remove [db_intros]: "keeps_db (modM (w_lsdb_update (\<lambda>d. snd (lsdb_remove area key d))))"
  by (intro db_mod) (simp add: lsdb_remove_ok)

lemma db_acknowledge [db_intros]: "keeps_db (acknowledge h i r)"
  unfolding acknowledge_def send_direct_ack_def by (intro keeps_intros db_intros)

lemma db_process_received_lsa [db_intros]: "keeps_db (process_received_lsa l i r area)"
  unfolding keeps_def
proof (intro allI impI)
  fix w assume ok: "db_ok w"
  let ?key = "lsa_key l"
  let ?new = "bindM (installM area l) (\<lambda>installed.
       whenM installed
         (seqM (flood_lsa area ?key (Some i))
         (bindM (get_lsa area ?key) (\<lambda>l. bindM (getM w_lsdb) (\<lambda>d.
          if is_self_originated d l then
            (if lh_ls_age (l_header l) \<ge> max_age
             then modM (w_lsdb_update (\<lambda>d. snd (lsdb_remove area ?key d)))
             else bindM (refresh_lsa area l) (\<lambda>_. retM ()))
          else seqM (acknowledge (l_header l) i r) schedule_spf)))))"
  let ?same = "seqM (set_nbr i r (nb_ls_retransmission_list_update (AList.delete ?key)))
               (bindM (get_intf i) (\<lambda>it. whenM (is_multi_access it) (queue_delayed_ack i (l_header l))))"
  have new: "keeps_db ?new" and same: "keeps_db ?same" by (intro keeps_intros db_intros)+
  have old: "db_ok (snd (send_ls_update area i r [e] w))" if "lsdb_lookup area ?key (w_lsdb w) = Some e" for e
    using that ok lookup_key [of "w_lsdb w" area ?key e]
    by (intro send_ls_update_db) (simp_all add: all_stored_def db_ok_def)
  show "db_ok (snd (process_received_lsa l i r area w))"
    unfolding process_received_lsa_def Let_def
    using ok keeps_run [OF new ok] keeps_run [OF same ok] old
    by (auto simp: bind_getM retM_def split: option.split)
qed

lemma db_receive_lsu [db_intros]: "keeps_db (receive_lsu i r lsas)"
  unfolding receive_lsu_def by (intro keeps_intros db_intros)

lemma db_ageing [db_intros]: "keeps_db (flush_maxage_lsa l area)" "keeps_db check_ages"
proof -
  show flush: "keeps_db (flush_maxage_lsa l area)" for l area
    unfolding flush_maxage_lsa_def by (intro keeps_intros db_intros keeps_case_option)
  show "keeps_db check_ages" unfolding check_ages_def by (intro keeps_intros db_intros flush)
qed

end
