(* ===== verification/Flooding_Correct.thy ===== *)
theory Flooding_Correct
  imports Flooding_Invariant
begin

text \<open>
  What flooding and origination do with an LSA: what becomes of the router's own LSAs, of an LSA
  that is received and of one that is asked for.
\<close>

section \<open>Instances stay in the database\<close>

definition same_instance :: "lsa \<Rightarrow> lsa \<Rightarrow> bool" where
  \<comment> \<open>serializing may have changed the age, the length and the checksum of one of them\<close>
  "same_instance l l' \<longleftrightarrow> lsa_key l = lsa_key l' \<and> l_body l = l_body l'
     \<and> lh_ls_sequence_number (l_header l) = lh_ls_sequence_number (l_header l')"

definition has_instance :: "ipv4 \<Rightarrow> lsa \<Rightarrow> world \<Rightarrow> bool" where
  \<comment> \<open>of an LSA another router has originated\<close>
  "has_instance area l w \<longleftrightarrow> db_ok w \<and> \<not> is_self_originated (w_lsdb w) l
     \<and> (case lsdb_lookup area (lsa_key l) (w_lsdb w) of None \<Rightarrow> False | Some l' \<Rightarrow> same_instance l' l)"

lemma same_instance_refl [simp]: "same_instance l l"
  by (simp add: same_instance_def)

lemma same_instance_key: "same_instance l l' \<Longrightarrow> lsa_key l = lsa_key l'"
  by (simp add: same_instance_def)

lemma same_instance_trans: "same_instance a b \<Longrightarrow> same_instance b c \<Longrightarrow> same_instance a c"
  by (simp add: same_instance_def)

lemma has_instance_leaves: "(\<And>d. leaves d m) \<Longrightarrow> keeps (has_instance area l) m"
  by (simp add: keeps_def [of "has_instance area l"] has_instance_def db_ok_def leaves_lsdb)

lemmas instance_of_leaves [keeps_intros] = leaves_intros [THEN has_instance_leaves]

lemma serialized_one:
  assumes "lsu_serialize now [l] = Inr (bs, ls')"
  obtains l' where "ls' = [l']" and "same_instance l' l"
proof -
  obtain b l' where l': "lsa_serialize now True l = Inr (b, l')" "ls' = [l']"
    using assms by (auto simp: lsu_serialize_def simp del: struct_pack.simps)
  from l'(1) obtain h where "l' = l\<lparr>l_header := h\<rparr>" "lsa_header_key h = lsa_header_key (l_header l)"
    "lh_ls_sequence_number h = lh_ls_sequence_number (l_header l)" by (rule lsa_serialize_cases)
  then have "same_instance l' l" by (simp add: same_instance_def lsa_key_def)
  then show ?thesis by (rule that [OF l'(2)])
qed

lemma lookup_header_update:
  assumes "lsdb_lookup area' (lsa_key l') d = Some e" and "same_instance l' e"
    and "lsdb_lookup area (lsa_key l) d = Some o'" and "same_instance o' l"
  obtains o'' where "lsdb_lookup area (lsa_key l) (store_header_updates area' [l'] d) = Some o''"
    and "same_instance o'' l"
proof (cases "same_slot area (lsa_key l) area' (lsa_key l')")
  case True
  then have "lsdb_lookup area' (lsa_key l') d = lsdb_lookup area (lsa_key l) d"
    using lookup_external_any [of "lsa_key l" area d area'] by (auto simp: same_slot_def)
  then have "same_instance l' l" using assms same_instance_trans by auto
  then show ?thesis
    using that True by (simp add: store_header_updates_def lookup_set_partition_update [OF lsa_key_type])
next
  case False
  then have "lsdb_lookup area (lsa_key l) (store_header_updates area' [l'] d) = lsdb_lookup area (lsa_key l) d"
    using lookup_external_any [of "lsa_key l" area' d area]
    by (auto simp: store_header_updates_def lookup_set_partition_update [OF lsa_key_type])
  then show ?thesis using that assms by simp
qed

lemma instance_serialize:
  assumes "has_instance area l w" and "lsdb_lookup area' key (w_lsdb w) = Some e"
  shows "has_instance area l (snd (serialize_stored_lsas area' [e] w))"
proof (cases "lsu_serialize (w_now w) [e]")
  case (Inl err)
  then show ?thesis using assms by (simp add: serialize_stored_lsas_def bind_getM) (simp add: monad_defs)
next
  case (Inr p)
  obtain bs ls' where p: "p = (bs, ls')" by (cases p)
  then obtain e' where e': "ls' = [e']" "same_instance e' e" using Inr serialized_one by blast
  have ok: "db_ok w" using assms(1) by (simp add: has_instance_def)
  have key: "lsa_key e = key" using lookup_key assms(2) ok by (simp add: db_ok_def)
  obtain o' where o': "lsdb_lookup area (lsa_key l) (w_lsdb w) = Some o'" "same_instance o' l"
    using assms(1) by (auto simp: has_instance_def split: option.splits)
  have "lsdb_lookup area' (lsa_key e') (w_lsdb w) = Some e"
    using assms(2) key same_instance_key [OF e'(2)] by simp
  from lookup_header_update [OF this e'(2) o'] obtain o'' where
    o'': "lsdb_lookup area (lsa_key l) (store_header_updates area' [e'] (w_lsdb w)) = Some o''" "same_instance o'' l" .
  have w': "snd (serialize_stored_lsas area' [e] w) = w\<lparr>w_lsdb := store_header_updates area' [e'] (w_lsdb w)\<rparr>"
    using Inr p e'(1) by (simp add: serialize_stored_lsas_def bind_getM) (simp add: monad_defs)
  have "db_ok (snd (serialize_stored_lsas area' [e] w))"
    using ok key assms(2) by (intro serialize_stored_db) (simp_all add: all_stored_def)
  moreover have "\<not> is_self_originated (store_header_updates area' [e'] (w_lsdb w)) l"
    using assms(1) by (simp add: has_instance_def is_self_originated_def store_header_updates_def set_partition_def)
  ultimately show ?thesis using o'' by (simp add: has_instance_def w')
qed

lemma instance_serialize_flooded [keeps_intros]: "keeps (has_instance area l) (serialize_flooded area' key)"
  unfolding keeps_def
proof (intro allI impI)
  fix w assume has: "has_instance area l w"
  show "has_instance area l (snd (serialize_flooded area' key w))"
  proof (cases "lsdb_lookup area' key (w_lsdb w)")
    case None
    then show ?thesis using has by (simp add: serialize_flooded_def bindM_def get_lsa_def)
  next
    case (Some e)
    from instance_serialize [OF has this] Some
    show ?thesis by (simp add: serialize_flooded_def) (simp add: bindM_def get_lsa_def)
  qed
qed

context interface_frame begin

lemma leaves_flooding [leaves_intros]:
  "keeps P (enlist area key i rs)" "keeps P (acknowledge h i r)"
proof -
  show "keeps P (enlist area key i rs)"
    by (induction rs) (simp_all only: enlist.simps, (intro keeps_intros leaves_intros | assumption)+)
  show "keeps P (acknowledge h i r)"
    unfolding acknowledge_def send_direct_ack_def by (intro keeps_intros leaves_intros)
qed

end

lemma instance_flood [keeps_intros]: "keeps (has_instance area l) (flood_lsa area' key recv)"
  unfolding flood_lsa_def flood_to_interface_def flood_back_to_source_def Let_def
  by (intro keeps_intros leaves_intros [THEN has_instance_leaves])

section \<open>A received LSA\<close>

lemma same_instance_self: "same_instance l' l \<Longrightarrow> is_self_originated d l' = is_self_originated d l"
  by (auto simp: same_instance_def is_self_originated_def lsa_key_def lsa_header_key_def)

lemma install_router_id: "ld_router_id (snd (lsdb_install now area l d)) = ld_router_id d"
  by (simp add: lsdb_install_cases set_partition_def ensure_area_def)

lemma installed_instance:
  assumes "db_ok w" and "install_accepted (w_now w) area l (w_lsdb w)" and "\<not> is_self_originated (w_lsdb w) l"
  shows "\<exists>w1. installM area l w = (Inr True, w1) \<and> has_instance area l w1"
proof -
  let ?d = "snd (lsdb_install (w_now w) area l (w_lsdb w))"
  have "fst (fst (lsdb_install (w_now w) area l (w_lsdb w)))"
    using assms(2) by (simp add: lsdb_install_result)
  then have run: "installM area l w = (Inr True, w\<lparr>w_lsdb := ?d\<rparr>)"
    by (auto simp: installM_def Let_def split: prod.split)
  have "db_ok (w\<lparr>w_lsdb := ?d\<rparr>)"
    using assms(1) by (simp add: db_ok_def lsdb_install_ok)
  moreover have "lsdb_lookup area (lsa_key l) ?d = Some (mark_installed (w_now w) l)"
    using assms(2) by (simp add: lookup_install same_slot_def)
  moreover have "same_instance (mark_installed (w_now w) l) l"
    by (simp add: same_instance_def mark_installed_def lsa_key_def)
  moreover have "\<not> is_self_originated ?d l"
    using assms(3) by (simp add: is_self_originated_def install_router_id)
  ultimately show ?thesis using run by (simp add: has_instance_def)
qed

lemma received_lsa_stored:
  assumes "db_ok w" and "install_accepted (w_now w) area l (w_lsdb w)" and "\<not> is_self_originated (w_lsdb w) l"
    and "lh_ls_type (l_header l) \<in> set valid_lsa_types"
  shows "has_instance area l (snd (process_received_lsa l i r area w))"
proof -
  let ?key = "lsa_key l"
  let ?rest = "bindM (get_lsa area ?key) (\<lambda>l. bindM (getM w_lsdb) (\<lambda>d.
      if is_self_originated d l then
        (if lh_ls_age (l_header l) \<ge> max_age then modM (w_lsdb_update (\<lambda>d. snd (lsdb_remove area ?key d)))
         else bindM (refresh_lsa area l) (\<lambda>_. retM ()))
      else seqM (acknowledge (l_header l) i r) schedule_spf))"
  obtain w1 where w1: "installM area l w = (Inr True, w1)" "has_instance area l w1"
    using installed_instance [OF assms(1-3)] by blast
  have new: "case lsdb_lookup area ?key (w_lsdb w) of None \<Rightarrow> True | Some e \<Rightarrow> compare_lsa (l_header l) (l_header e) > 0"
    using assms(2) by (auto simp: install_accepted_def newer_def split: option.splits)
  then have "process_received_lsa l i r area w = bindM (installM area l) (\<lambda>installed. whenM installed
      (seqM (flood_lsa area ?key (Some i)) ?rest)) w"
    using assms(4) by (simp add: process_received_lsa_def bind_getM Let_def)
  also have "\<dots> = seqM (flood_lsa area ?key (Some i)) ?rest w1"
    using w1(1) by (simp add: bindM_def [of "installM area l"] whenM_def)
  finally have run: "process_received_lsa l i r area w = seqM (flood_lsa area ?key (Some i)) ?rest w1" .
  have "has_instance area l (snd (bindM (flood_lsa area ?key (Some i)) (\<lambda>_. ?rest) w1))"
  proof (rule keeps_bind_at [OF w1(2) instance_flood])
    fix x :: unit and w2 assume has: "has_instance area l w2"
    then obtain l2 where l2: "lsdb_lookup area ?key (w_lsdb w2) = Some l2" "same_instance l2 l"
      by (auto simp: has_instance_def split: option.splits)
    then have "\<not> is_self_originated (w_lsdb w2) l2"
      using has same_instance_self by (auto simp: has_instance_def)
    then have "?rest w2 = seqM (acknowledge (l_header l2) i r) schedule_spf w2"
      using l2(1) by (simp add: bindM_def get_lsa_def getM_def)
    moreover have "keeps (has_instance area l) (seqM (acknowledge (l_header l2) i r) schedule_spf)"
      by (intro keeps_intros leaves_intros [THEN has_instance_leaves])
    ultimately show "has_instance area l (snd (?rest w2))" using has by (simp add: keeps_def)
  qed
  then show ?thesis by (simp only: run seqM_def [of "flood_lsa area ?key (Some i)"])
qed

lemma received_update_stored:
  assumes "db_ok w" and "i < length (w_intfs w)" and "install_accepted (w_now w) (if_area_id (intf_at w i)) l (w_lsdb w)"
    and "\<not> is_self_originated (w_lsdb w) l" and "lh_ls_type (l_header l) \<in> set valid_lsa_types"
  shows "has_instance (if_area_id (intf_at w i)) l (snd (receive_lsu i r [l] w))"
proof -
  let ?area = "if_area_id (intf_at w i)"
  have "receive_lsu i r [l] w = bindM (process_received_lsa l i r ?area) (\<lambda>_. process_ls_update i r [lsa_key l]) w"
    by (simp add: receive_lsu_def bind_get_intf [OF assms(2)] seqM_def)
      (simp add: bindM_def retM_def split: prod.splits sum.splits)
  moreover have "has_instance ?area l (snd (bindM (process_received_lsa l i r ?area)
      (\<lambda>_. process_ls_update i r [lsa_key l]) w))"
  proof (cases "process_received_lsa l i r ?area w")
    case (Pair x w1)
    then have "has_instance ?area l w1"
      using received_lsa_stored [OF assms(1,3-5), of i r] by simp
    moreover have "keeps (has_instance ?area l) (process_ls_update i r [lsa_key l])"
      by (intro leaves_intros [THEN has_instance_leaves])
    ultimately show ?thesis using Pair keeps_run by (cases x) (auto simp: bindM_def)
  qed
  ultimately show ?thesis by simp
qed

section \<open>Own LSAs\<close>

lemma initial_above_max: "initial_seq_num > max_seq_num"
  by (simp add: initial_seq_num_def max_seq_num_def)

text \<open>
  C30. A router never replaces an LSA of its own: sequence numbers are compared as unsigned numbers,
  and the initial one, 0x80000001, is already above the largest, 0x7FFFFFFF. Once the database holds a
  self-originated LSA with the initial or a later number, originating its successor and refreshing it
  both return nothing and change nothing, whatever its body, its age and the time.
\<close>
theorem self_lsa_frozen:
  assumes "lsdb_lookup area (ty, lsid, w_router_id w) (w_lsdb w) = Some l"
    and "is_self_originated (w_lsdb w) l" and "lh_ls_sequence_number (l_header l) \<ge> initial_seq_num"
    and "lsa_key l' = (ty, lsid, w_router_id w)"
  shows "originate area ty lsid body None w = (Inr None, w) \<and> refresh_lsa area l' w = (Inr None, w)"
proof -
  have over: "lh_ls_sequence_number (l_header l) + 1 > max_seq_num"
    using assms(3) initial_above_max by linarith
  then have "next_seq_num area (ty, lsid, w_router_id w) None (w_lsdb w) = None"
    using assms(1,2) by (simp add: next_seq_num_def Let_def)
  then have "originate area ty lsid body None w = (Inr None, w)"
    by (simp add: originate_def bind_getM retM_def Let_def)
  moreover have "refresh_lsa area l' w = (Inr None, w)"
    using assms(1,2,4) over by (simp add: refresh_lsa_def bind_getM retM_def Let_def)
  ultimately show ?thesis ..
qed

definition sample_holder :: "ipv4 \<Rightarrow> world" where
  \<comment> \<open>a router with one interface in area 0 that holds the sample Router-LSA of 10.0.0.1\<close>
  "sample_holder router_id = \<lparr>w_router_id = router_id, w_options = 2, w_is_asbr = False, w_spf_delay = 1, w_spf_hold = 5,
     w_lsdb = (empty_lsdb router_id)\<lparr>ld_areas := [(0, [(lsa_key sample_lsa, mark_installed 0 sample_lsa)])]\<rparr>,
     w_areas = [(0, area_add_interface 0 (area_create 0 False 1))], w_intfs = [interface_create sample_intf 0],
     w_last_origination = [], w_router_lsa_pending = [], w_network_lsa_pending = [], w_spf_pending = False,
     w_spf_due = None, w_last_spf_time = 0, w_now = 10, w_entropy = (\<lambda>_. 100), w_draws = 0,
     w_md5 = (\<lambda>_. []), w_trace = []\<rparr>"

theorem self_lsa_frozen_witness:
  "originate 0 1 167772161 None None (sample_holder 167772161) = (Inr None, sample_holder 167772161)
   \<and> refresh_lsa 0 sample_lsa (sample_holder 167772161) = (Inr None, sample_holder 167772161)"
proof (rule self_lsa_frozen)
  show "lsdb_lookup 0 (1, 167772161, w_router_id (sample_holder 167772161)) (w_lsdb (sample_holder 167772161))
      = Some (mark_installed 0 sample_lsa)" by code_simp
  show "is_self_originated (w_lsdb (sample_holder 167772161)) (mark_installed 0 sample_lsa)" by code_simp
  show "lh_ls_sequence_number (l_header (mark_installed 0 sample_lsa)) \<ge> initial_seq_num" by code_simp
  show "lsa_key sample_lsa = (1, 167772161, w_router_id (sample_holder 167772161))" by code_simp
qed

end
