(* ===== verification/Spf_Correct.thy ===== *)
theory Spf_Correct
  imports Spf
begin

text \<open>
  The search of \<open>Spf\<close> returns, and what it returns is the shortest path tree of the area's graph.
  The argument is made once for a weighted graph given by its successor function, in the locale
  \<open>weighted_graph\<close>, and used for the graph an area's database describes. Finished nodes are keyed
  by their identifier alone, so optimality needs router and network identifiers to be distinct.
\<close>

section \<open>Walks and shortest walks\<close>

inductive walk :: "('n \<Rightarrow> ('n \<times> int) list) \<Rightarrow> 'n \<Rightarrow> 'n \<Rightarrow> int \<Rightarrow> bool" for edges src where
  walk_start: "walk edges src src 0"
| walk_step: "walk edges src u k \<Longrightarrow> (v, c) \<in> set (edges u) \<Longrightarrow> walk edges src v (k + c)"

definition shortest :: "('n \<Rightarrow> ('n \<times> int) list) \<Rightarrow> 'n \<Rightarrow> 'n \<Rightarrow> int \<Rightarrow> bool" where
  "shortest edges src v k \<longleftrightarrow> walk edges src v k \<and> (\<forall>k'. walk edges src v k' \<longrightarrow> k \<le> k')"

lemma shortest_unique: "shortest edges src v k \<Longrightarrow> shortest edges src v k' \<Longrightarrow> k = k'"
  unfolding shortest_def by (meson order.antisym)

definition search_ok ::
    "('n \<Rightarrow> ('n \<times> int) list) \<Rightarrow> 'n \<Rightarrow> ('n \<Rightarrow> int option) \<Rightarrow> (int \<times> 'n) set \<Rightarrow> bool" where
  \<comment> \<open>finished nodes carry shortest distances, their successors are finished or candidates\<close>
  "search_ok edges src finished cand \<longleftrightarrow>
     (\<forall>n d. finished n = Some d \<longrightarrow> shortest edges src n d)
     \<and> (\<forall>(d, n)\<in>cand. walk edges src n d)
     \<and> (\<forall>n d m c. finished n = Some d \<longrightarrow> (m, c) \<in> set (edges n) \<longrightarrow> finished m \<noteq> None \<or> (d + c, m) \<in> cand)
     \<and> (finished src \<noteq> None \<or> (0, src) \<in> cand)"

locale weighted_graph =
  fixes edges :: "'n \<Rightarrow> ('n \<times> int) list" and src :: 'n
  assumes nonneg: "(m, c) \<in> set (edges n) \<Longrightarrow> 0 \<le> c"
begin

lemma frontier:
  assumes ok: "search_ok edges src finished cand" and "walk edges src x k" and "finished x = None"
  shows "\<exists>d m. (d, m) \<in> cand \<and> d \<le> k"
  using assms(2,3)
proof (induction rule: walk.induct)
  case walk_start
  then show ?case using ok by (auto simp: search_ok_def)
next
  case (walk_step u k v c)
  have c: "0 \<le> c" using nonneg walk_step.hyps(2) .
  show ?case
  proof (cases "finished u")
    case None
    then obtain d m where "(d, m) \<in> cand" "d \<le> k" using walk_step.IH by blast
    then show ?thesis using c by (intro exI [of _ d] exI [of _ m]) simp
  next
    case (Some du)
    then have "du \<le> k" using ok walk_step.hyps(1) by (auto simp: search_ok_def shortest_def)
    moreover have "(du + c, v) \<in> cand"
      using ok Some walk_step.hyps(2) walk_step.prems unfolding search_ok_def by blast
    ultimately show ?thesis by (intro exI [of _ "du + c"] exI [of _ v]) simp
  qed
qed

lemma search_skip:
  assumes "search_ok edges src finished cand" and "finished n \<noteq> None"
    and "cand' \<subseteq> cand" and "cand \<subseteq> insert (d, n) cand'"
  shows "search_ok edges src finished cand'"
proof -
  have "finished m \<noteq> None \<or> (e, m) \<in> cand'" if "finished m \<noteq> None \<or> (e, m) \<in> cand" for e m
    using that assms(2,4) by auto
  then show ?thesis using assms(1,3) unfolding search_ok_def by blast
qed

lemma search_take:
  assumes ok: "search_ok edges src finished cand" and n: "(d, n) \<in> cand" "finished n = None"
    and least: "\<And>d' m. (d', m) \<in> cand \<Longrightarrow> d \<le> d'"
    and sub: "cand' \<subseteq> cand" "cand \<subseteq> insert (d, n) cand'"
    and new: "\<And>m c. (m, c) \<in> set (edges n) \<Longrightarrow> (finished(n \<mapsto> d)) m \<noteq> None \<or> (d + c, m) \<in> fresh"
    and fresh: "\<And>e m. (e, m) \<in> fresh \<Longrightarrow> walk edges src m e"
  shows "search_ok edges src (finished(n \<mapsto> d)) (cand' \<union> fresh)"
proof -
  have walk_n: "walk edges src n d" using ok n(1) by (auto simp: search_ok_def)
  have "d \<le> k" if "walk edges src n k" for k
    using frontier [OF ok that n(2)] least by (meson order_trans)
  then have sh: "shortest edges src n d" using walk_n by (simp add: shortest_def)
  have keep: "(finished(n \<mapsto> d)) m \<noteq> None \<or> (e, m) \<in> cand' \<union> fresh"
    if "finished m \<noteq> None \<or> (e, m) \<in> cand" for e m using that sub(2) by auto
  show ?thesis unfolding search_ok_def
  proof (intro conjI allI impI)
    show "shortest edges src m e" if "(finished(n \<mapsto> d)) m = Some e" for m e
      using that ok sh by (auto simp: search_ok_def split: if_splits)
    show "\<forall>(e, m)\<in>cand' \<union> fresh. walk edges src m e"
      using ok sub(1) fresh by (auto simp: search_ok_def)
    show "(finished(n \<mapsto> d)) m' \<noteq> None \<or> (e + c, m') \<in> cand' \<union> fresh"
      if "(finished(n \<mapsto> d)) m = Some e" "(m', c) \<in> set (edges m)" for m e m' c
    proof (cases "m = n")
      case True
      then have "e = d" using that(1) by simp
      then show ?thesis using new [of m' c] that(2) True by blast
    next
      case False
      then have "finished m' \<noteq> None \<or> (e + c, m') \<in> cand"
        using that ok unfolding search_ok_def by auto
      then show ?thesis by (rule keep)
    qed
    show "(finished(n \<mapsto> d)) src \<noteq> None \<or> (0, src) \<in> cand' \<union> fresh"
      using ok by (intro keep) (simp add: search_ok_def)
  qed
qed

lemma search_finished:
  assumes "search_ok edges src finished {}"
  shows "finished n = Some d \<longleftrightarrow> shortest edges src n d"
proof
  assume "shortest edges src n d"
  moreover from this have "finished n \<noteq> None"
    using frontier [OF assms] by (auto simp: shortest_def)
  then obtain d' where "finished n = Some d'" by auto
  moreover from this have "shortest edges src n d'" using assms by (simp add: search_ok_def)
  ultimately show "finished n = Some d" using shortest_unique by metis
qed (use assms in \<open>simp add: search_ok_def\<close>)

lemma reachable_shortest:
  assumes "search_ok edges src finished {}" and "walk edges src n k"
  shows "\<exists>d\<le>k. shortest edges src n d"
proof -
  have "finished n \<noteq> None" using frontier [OF assms] by auto
  then obtain d where "finished n = Some d" by auto
  then have "shortest edges src n d" using search_finished [OF assms(1)] by blast
  then show ?thesis using assms(2) by (auto simp: shortest_def)
qed

end

lemma search_init: "search_ok edges src (\<lambda>_. None) {(0, src)}"
  by (simp add: search_ok_def walk_start)

section \<open>The graph of an area\<close>

definition node_lsa :: "lsdb \<Rightarrow> time \<Rightarrow> ipv4 \<Rightarrow> spf_node \<Rightarrow> lsa option" where
  "node_lsa d now area = (\<lambda>(ty, i).
     if ty = spf_vertex_router then live_lsa now (lsdb_lookup area (1, i, i) d)
     else if ty = spf_vertex_network then live_lsa now (find_network_lsa area i d)
     else None)"

definition area_edges :: "lsdb \<Rightarrow> time \<Rightarrow> ipv4 \<Rightarrow> spf_node \<Rightarrow> (spf_node \<times> int) list" where
  "area_edges d now area node =
     (case node_lsa d now area node of
        None \<Rightarrow> []
      | Some l \<Rightarrow> map (\<lambda>(m, _, c, _). (m, c)) (vertex_links d now area (fst node) l))"

lemmas vertex_types = spf_vertex_router_def spf_vertex_network_def

lemma set_map_filter: "set (List.map_filter f xs) = {y. \<exists>x\<in>set xs. f x = Some y}"
  by (force simp: List.map_filter_def)

lemma find_network_lsa_id: "find_network_lsa area i d = Some l \<Longrightarrow> lh_link_state_id (l_header l) = i"
  by (auto simp: find_network_lsa_def find_Some_iff)

lemma live_lsa_Some: "live_lsa now l = Some l' \<Longrightarrow> l = Some l'"
  by (auto simp: live_lsa_def split: option.splits if_splits)

lemma vertex_links_node:
  assumes "(m, l', c, lk) \<in> set (vertex_links d now area ty l)"
  shows "node_lsa d now area m = Some l'"
  using assms find_network_lsa_id [of area _ d]
  by (auto simp: vertex_links_def router_vertex_links_def network_vertex_links_def set_map_filter
      node_lsa_def vertex_types split: option.splits lsa_body.splits if_splits)
    (metis find_network_lsa_id live_lsa_Some)+

definition node_of :: "spf_vertex \<Rightarrow> spf_node" where
  "node_of v = (sv_type v, sv_id v)"

lemma node_lsa_in_db:
  assumes "node_lsa d now area (ty, i) = Some l"
  shows "\<exists>k. (k, l) \<in> set (area_db area d) \<and>
    (ty = spf_vertex_router \<and> k = (1, i, i)
     \<or> ty = spf_vertex_network \<and> l \<in> set (get_all area (Some 2) d) \<and> lh_link_state_id (l_header l) = i)"
proof (cases "ty = spf_vertex_router")
  case True
  then have "lsdb_lookup area (1, i, i) d = Some l"
    using assms by (simp add: node_lsa_def live_lsa_Some)
  then show ?thesis using True by (auto simp: lsdb_lookup_def is_external_type_def dest: map_of_SomeD)
next
  case False
  then have ty: "ty = spf_vertex_network" "find_network_lsa area i d = Some l"
    using assms by (auto simp: node_lsa_def split: if_splits dest: live_lsa_Some)
  then have l: "l \<in> set (get_all area (Some 2) d)" "lh_link_state_id (l_header l) = i"
    by (auto simp: find_network_lsa_def find_Some_iff)
  then obtain k where "(k, l) \<in> set (area_db area d)" by (auto simp: get_all_def)
  then show ?thesis using ty(1) l by blast
qed

definition node_ids :: "lsdb \<Rightarrow> ipv4 \<Rightarrow> ipv4 set" where
  "node_ids d area = (\<lambda>(k, _). fst (snd k)) ` set (area_db area d)
     \<union> (lh_link_state_id \<circ> l_header) ` set (get_all area (Some 2) d)"

lemma finite_node_ids: "finite (node_ids d area)"
  by (simp add: node_ids_def)

lemma node_lsa_ids: "node_lsa d now area node = Some l \<Longrightarrow> snd node \<in> node_ids d area"
  using node_lsa_in_db [of d now area "fst node" "snd node" l] by (force simp: node_ids_def)

text \<open>What the theorem about distances asks of an area's database.\<close>

definition ids_disjoint :: "ipv4 \<Rightarrow> lsdb \<Rightarrow> bool" where
  \<comment> \<open>no router id is the identifier of a network\<close>
  "ids_disjoint area d \<longleftrightarrow> list_all (\<lambda>(k, _). fst k = 1 \<longrightarrow>
     fst (snd k) \<notin> (lh_link_state_id \<circ> l_header) ` set (get_all area (Some 2) d)) (area_db area d)"

definition metrics_ok :: "ipv4 \<Rightarrow> lsdb \<Rightarrow> bool" where
  "metrics_ok area d \<longleftrightarrow> list_all (\<lambda>(_, l). case l_body l of
     Some (Router_Body r) \<Rightarrow> list_all (\<lambda>lk. 0 \<le> rl_metric lk) (rt_links r) | _ \<Rightarrow> True) (area_db area d)"

lemma ids_disjoint_unique:
  assumes "ids_disjoint area d"
    and "node_lsa d now area (t, i) = Some l" and "node_lsa d now area (t', i) = Some l'"
  shows "t = t'"
  using node_lsa_in_db [OF assms(2)] node_lsa_in_db [OF assms(3)] assms(1)
  unfolding ids_disjoint_def list_all_iff by (force simp: vertex_types)

lemma area_edges_nonneg:
  assumes "metrics_ok area d" and "(m, c) \<in> set (area_edges d now area node)"
  shows "0 \<le> c"
proof -
  obtain l where l: "node_lsa d now area node = Some l"
    "(m, c) \<in> (\<lambda>(m, _, c, _). (m, c)) ` set (vertex_links d now area (fst node) l)"
    using assms(2) by (cases "node_lsa d now area node") (auto simp: area_edges_def)
  obtain k where "(k, l) \<in> set (area_db area d)"
    using node_lsa_in_db [of d now area "fst node" "snd node" l] l(1) by auto
  then have r: "list_all (\<lambda>lk. 0 \<le> rl_metric lk) (rt_links r)" if "l_body l = Some (Router_Body r)" for r
    using assms(1) that by (auto simp: metrics_ok_def list_all_iff split: option.splits lsa_body.splits)
  show ?thesis using l(2) r
    by (auto simp: vertex_links_def router_vertex_links_def network_vertex_links_def set_map_filter list_all_iff
        split: option.splits lsa_body.splits if_splits)
qed

definition area_graph :: "lsdb \<Rightarrow> time \<Rightarrow> ipv4 \<Rightarrow> spf_node \<Rightarrow> (spf_node \<times> int) list" where
  \<comment> \<open>the graph of an area whose metrics are not negative\<close>
  "area_graph d now area = (if metrics_ok area d then area_edges d now area else (\<lambda>_. []))"

lemma area_graph_eq: "metrics_ok area d \<Longrightarrow> area_graph d now area = area_edges d now area"
  by (simp add: area_graph_def)

interpretation area_graph: weighted_graph "area_graph d now area" src for d now area src
  by standard (auto simp: area_graph_def area_edges_nonneg split: if_splits)

section \<open>The state of the search\<close>

definition finished_nodes :: "spf_tree \<Rightarrow> spf_node \<Rightarrow> int option" where
  "finished_nodes tree = (\<lambda>(ty, i). case map_of tree i of
     None \<Rightarrow> None | Some v \<Rightarrow> if sv_type v = ty then Some (sv_distance v) else None)"

definition candidates :: "spf_queue \<Rightarrow> (int \<times> spf_node) set" where
  "candidates q = (\<lambda>((dist, _), v). (dist, node_of v)) ` set q"

definition vertex_ok :: "world \<Rightarrow> ipv4 \<Rightarrow> spf_tree \<Rightarrow> spf_vertex \<Rightarrow> bool" where
  \<comment> \<open>a vertex carries its node's LSA and is one edge further than its parent, which is in the tree\<close>
  "vertex_ok w area tree v \<longleftrightarrow>
     node_lsa (w_lsdb w) (w_now w) area (node_of v) = Some (sv_lsa v)
     \<and> (case sv_parent v of
          None \<Rightarrow> node_of v = (spf_vertex_router, w_router_id w) \<and> sv_distance v = 0
        | Some p \<Rightarrow> map_of tree (sv_id p) = Some p
            \<and> (node_of v, sv_distance v - sv_distance p) \<in> set (area_edges (w_lsdb w) (w_now w) area (node_of p)))"

definition search_inv :: "world \<Rightarrow> ipv4 \<Rightarrow> spf_tree \<Rightarrow> spf_queue \<Rightarrow> bool" where
  "search_inv w area tree q \<longleftrightarrow> sorted (map fst q) \<and> distinct (map fst tree)
     \<and> (\<forall>k v. (k, v) \<in> set q \<longrightarrow> fst k = sv_distance v \<and> vertex_ok w area tree v)
     \<and> (\<forall>i v. map_of tree i = Some v \<longrightarrow> sv_id v = i \<and> vertex_ok w area tree v)"

lemma vertex_ok_grow:
  "vertex_ok w area tree v \<Longrightarrow> map_of tree i = None \<Longrightarrow> vertex_ok w area (AList.update i u tree) v"
  by (auto simp: vertex_ok_def update_conv' split: option.splits)

lemma update_candidates_fold:
  assumes "fold (update_candidate w v) ls (q, n) = (q', n')"
  shows "(sorted (map fst q) \<longrightarrow> sorted (map fst q')) \<and> set q \<subseteq> set q'
    \<and> (\<forall>x\<in>set q'. x \<in> set q \<or> (\<exists>(m, l, c, lk)\<in>set ls. \<exists>k nhs.
         x = ((sv_distance v + c, k), Spf_Vertex (snd m) (fst m) l (sv_distance v + c) (Some v) nhs)))
    \<and> (\<forall>(m, l, c, lk)\<in>set ls. (sv_distance v + c, m) \<in> candidates q')"
  using assms
proof (induction ls arbitrary: q n)
  case Nil
  then show ?case by simp
next
  case (Cons x ls)
  obtain ty vid l c lk where x: "x = ((ty, vid), l, c, lk)" by (metis prod.exhaust)
  obtain nhs where u: "update_candidate w v x (q, n)
      = (heappush (sv_distance v + c, n) (Spf_Vertex vid ty l (sv_distance v + c) (Some v) nhs) q, n + 1)"
    (is "_ = (heappush ?k ?v q, _)")
    by (simp add: x update_candidate_def Let_def)
  let ?q = "heappush ?k ?v q"
  have "fold (update_candidate w v) ls (?q, n + 1) = (q', n')" using Cons.prems u by simp
  note IH = Cons.IH [OF this]
  note sort = IH [THEN conjunct1] and sub = IH [THEN conjunct2, THEN conjunct1]
    and from_where = IH [THEN conjunct2, THEN conjunct2, THEN conjunct1]
    and pushed = IH [THEN conjunct2, THEN conjunct2, THEN conjunct2]
  have set: "set ?q = insert (?k, ?v) (set q)" by (rule set_heappush)
  have head: "(sv_distance v + c, (ty, vid)) \<in> candidates q'"
  proof -
    have "(?k, ?v) \<in> set q'" using sub set by blast
    then show ?thesis unfolding candidates_def by (rule rev_image_eqI) (simp add: node_of_def)
  qed
  show ?case
  proof (intro conjI ballI)
    show "sorted (map fst q) \<longrightarrow> sorted (map fst q')" using sort sorted_heappush [of q ?k ?v] by simp
    show "set q \<subseteq> set q'" using sub set by blast
    show "case y of (m, l, c, lk) \<Rightarrow> (sv_distance v + c, m) \<in> candidates q'" if "y \<in> set (x # ls)" for y
    proof (cases "y = x")
      case True
      then show ?thesis using x head by simp
    next
      case False
      then have "y \<in> set ls" using that by simp
      then show ?thesis using pushed by (rule bspec [rotated])
    qed
    show "y \<in> set q \<or> (\<exists>(m, l, c, lk)\<in>set (x # ls). \<exists>k nhs.
         y = ((sv_distance v + c, k), Spf_Vertex (snd m) (fst m) l (sv_distance v + c) (Some v) nhs))"
      if y: "y \<in> set q'" for y
    proof -
      consider "y \<in> set q" | "y = (?k, ?v)" | "\<exists>(m, l, c, lk)\<in>set ls. \<exists>k nhs.
         y = ((sv_distance v + c, k), Spf_Vertex (snd m) (fst m) l (sv_distance v + c) (Some v) nhs)"
        using bspec [OF from_where y] set by blast
      then show ?thesis
      proof cases
        case 2
        then show ?thesis using x by (intro disjI2 bexI [of _ x]) auto
      qed auto
    qed
  qed
qed

lemma process_vertex_queue:
  assumes "process_vertex w area tree v (q, n) = (q', n')"
    and l: "node_lsa (w_lsdb w) (w_now w) area (node_of v) = Some (sv_lsa v)"
  defines "E \<equiv> {(m, c). (m, c) \<in> set (area_edges (w_lsdb w) (w_now w) area (node_of v)) \<and> map_of tree (snd m) = None}"
  shows "sorted (map fst q) \<Longrightarrow> sorted (map fst q')"
    and "candidates q' = candidates q \<union> (\<lambda>(m, c). (sv_distance v + c, m)) ` E"
    and "\<And>k u. (k, u) \<in> set q' \<Longrightarrow> (k, u) \<in> set q \<or> (fst k = sv_distance u \<and> sv_parent u = Some v
      \<and> node_lsa (w_lsdb w) (w_now w) area (node_of u) = Some (sv_lsa u)
      \<and> (node_of u, sv_distance u - sv_distance v) \<in> set (area_edges (w_lsdb w) (w_now w) area (node_of v)))"
proof -
  let ?links = "vertex_links (w_lsdb w) (w_now w) area (sv_type v) (sv_lsa v)"
  let ?ls = "filter (\<lambda>((ty, vid), _). map_of tree vid = None) ?links"
  have edges: "area_edges (w_lsdb w) (w_now w) area (node_of v) = map (\<lambda>(m, _, c, _). (m, c)) ?links"
    using l by (simp add: area_edges_def) (simp add: node_of_def)
  have E: "E = (\<lambda>(m, l, c, lk). (m, c)) ` set ?ls"
    unfolding E_def edges by force
  have "fold (update_candidate w v) ?ls (q, n) = (q', n')" using assms(1) by (simp add: process_vertex_def)
  note all = update_candidates_fold [OF this]
  note from_where = all [THEN conjunct2, THEN conjunct2, THEN conjunct1]
    and pushed = all [THEN conjunct2, THEN conjunct2, THEN conjunct2]
  show "sorted (map fst q) \<Longrightarrow> sorted (map fst q')" using all [THEN conjunct1] by simp
  show "candidates q' = candidates q \<union> (\<lambda>(m, c). (sv_distance v + c, m)) ` E" (is "_ = _ \<union> ?new")
  proof (intro equalityI subsetI)
    fix x assume "x \<in> candidates q'"
    then obtain y where y: "y \<in> set q'" "x = (\<lambda>((dist, _), v). (dist, node_of v)) y"
      by (auto simp: candidates_def)
    from bspec [OF from_where y(1)] show "x \<in> candidates q \<union> ?new"
    proof
      assume "y \<in> set q"
      then have "x \<in> candidates q" unfolding candidates_def y(2) by (rule imageI)
      then show ?thesis ..
    next
      assume "\<exists>(m, l, c, lk)\<in>set ?ls. \<exists>k nhs.
         y = ((sv_distance v + c, k), Spf_Vertex (snd m) (fst m) l (sv_distance v + c) (Some v) nhs)"
      then obtain m l c lk where "(m, l, c, lk) \<in> set ?ls" "x = (sv_distance v + c, m)"
        using y(2) by (fastforce simp: node_of_def)
      then show ?thesis unfolding E by force
    qed
  next
    fix x assume "x \<in> candidates q \<union> ?new"
    then show "x \<in> candidates q'"
    proof
      assume "x \<in> candidates q"
      then show ?thesis using all [THEN conjunct2, THEN conjunct1] unfolding candidates_def by blast
    next
      assume "x \<in> ?new"
      then obtain m l c lk where "(m, l, c, lk) \<in> set ?ls" "x = (sv_distance v + c, m)" unfolding E by auto
      then show ?thesis using bspec [OF pushed, of "(m, l, c, lk)"] by simp
    qed
  qed
  fix k u assume "(k, u) \<in> set q'"
  from bspec [OF from_where this] show "(k, u) \<in> set q \<or> (fst k = sv_distance u \<and> sv_parent u = Some v
      \<and> node_lsa (w_lsdb w) (w_now w) area (node_of u) = Some (sv_lsa u)
      \<and> (node_of u, sv_distance u - sv_distance v) \<in> set (area_edges (w_lsdb w) (w_now w) area (node_of v)))"
  proof
    assume "\<exists>(m, l, c, lk)\<in>set ?ls. \<exists>j nhs.
       (k, u) = ((sv_distance v + c, j), Spf_Vertex (snd m) (fst m) l (sv_distance v + c) (Some v) nhs)"
    then obtain m l c lk j nhs where m: "(m, l, c, lk) \<in> set ?ls" "k = (sv_distance v + c, j)"
      "u = Spf_Vertex (snd m) (fst m) l (sv_distance v + c) (Some v) nhs" by blast
    then have "node_of u = m" "(m, l, c, lk) \<in> set ?links" by (auto simp: node_of_def)
    moreover from this have "node_lsa (w_lsdb w) (w_now w) area m = Some l"
      by (rule_tac vertex_links_node)
    ultimately show ?thesis unfolding edges using m by force
  qed simp
qed

lemma spf_loop_rule:
  assumes init: "I tree q"
    and ids: "\<And>tree q k v. I tree q \<Longrightarrow> (k, v) \<in> set q \<Longrightarrow> sv_id v \<in> U" and fin: "finite U"
    and skip: "\<And>tree q k v q'. I tree q \<Longrightarrow> heappop q = Some (k, v, q') \<Longrightarrow> map_of tree (sv_id v) \<noteq> None \<Longrightarrow> I tree q'"
    and take: "\<And>tree q k v q' q'' n n'. I tree q \<Longrightarrow> heappop q = Some (k, v, q') \<Longrightarrow> map_of tree (sv_id v) = None \<Longrightarrow>
      process_vertex w area (AList.update (sv_id v) v tree) v (q', n) = (q'', n') \<Longrightarrow> I (AList.update (sv_id v) v tree) q''"
  shows "\<exists>t. spf_loop w area tree q n = Some t \<and> I t []"
  using init
proof (induction "(card (U - fst ` set tree), length q)" arbitrary: tree q n rule: wf_induct_rule [OF wf_lex_prod [OF wf_less_than wf_less_than]])
  case 1
  show ?case
  proof (cases "heappop q")
    case None
    then have "q = []" by (cases q) auto
    then show ?thesis using 1(2) by (subst spf_loop.simps) simp
  next
    case (Some p)
    obtain k v q' where p: "p = (k, v, q')" by (cases p)
    then have pop: "heappop q = Some (k, v, q')" and q: "q = (k, v) # q'" using Some by (cases q; auto)+
    show ?thesis
    proof (cases "map_of tree (sv_id v)")
      case (Some u)
      have "\<exists>t. spf_loop w area tree q' n = Some t \<and> I t []"
        using 1(2) q Some by (intro 1(1)) (auto intro: skip [OF _ pop])
      then show ?thesis using pop Some by (subst spf_loop.simps) simp
    next
      case None
      let ?tree = "AList.update (sv_id v) v tree"
      obtain q'' n' where pv: "process_vertex w area ?tree v (q', n) = (q'', n')" by fastforce
      have "sv_id v \<in> U" using ids [OF 1(2), of k v] q by simp
      moreover have "sv_id v \<notin> fst ` set tree" using None by (simp add: map_of_eq_None_iff)
      moreover have "fst ` set ?tree = insert (sv_id v) (fst ` set tree)" by (simp add: dom_update)
      ultimately have "card (U - fst ` set ?tree) < card (U - fst ` set tree)"
        using fin by (intro psubset_card_mono) auto
      then have "\<exists>t. spf_loop w area ?tree q'' n' = Some t \<and> I t []"
        by (intro 1(1)) (auto intro: take [OF 1(2) pop None pv])
      then show ?thesis using pop None pv by (subst spf_loop.simps) simp
    qed
  qed
qed

section \<open>The invariant is kept\<close>

lemma heappop_Cons: "heappop q = Some (k, v, q') \<longleftrightarrow> q = (k, v) # q'"
  by (cases q) auto

lemma candidates_pop:
  assumes "heappop q = Some (k, v, q')"
  shows "candidates q = insert (fst k, node_of v) (candidates q')"
proof -
  have "q = (k, v) # q'" using assms by (simp add: heappop_Cons)
  then show ?thesis by (cases k) (simp add: candidates_def)
qed

lemma search_inv_vertex:
  assumes "search_inv w area tree q" and "(k, v) \<in> set q"
  shows "fst k = sv_distance v" and "vertex_ok w area tree v"
  using assms unfolding search_inv_def by blast+

lemma search_inv_ids: "search_inv w area tree q \<Longrightarrow> (k, v) \<in> set q \<Longrightarrow> sv_id v \<in> node_ids (w_lsdb w) area"
  using search_inv_vertex(2) [of w area tree q k v] node_lsa_ids [of "w_lsdb w" "w_now w" area "node_of v"]
  by (auto simp: vertex_ok_def node_of_def)

lemma search_inv_skip:
  assumes "search_inv w area tree q" and "heappop q = Some (k, v, q')"
  shows "search_inv w area tree q'"
  using assms by (auto simp: search_inv_def heappop_Cons)

lemma search_inv_take:
  assumes inv: "search_inv w area tree q" and pop: "heappop q = Some (k, v, q')"
    and new: "map_of tree (sv_id v) = None"
    and pv: "process_vertex w area (AList.update (sv_id v) v tree) v (q', n) = (q'', n')"
  shows "search_inv w area (AList.update (sv_id v) v tree) q''"
proof -
  let ?tree = "AList.update (sv_id v) v tree"
  have v: "(k, v) \<in> set q" using pop by (simp add: heappop_Cons)
  have ok: "vertex_ok w area tree v" by (rule search_inv_vertex(2) [OF inv v])
  then have lsa: "node_lsa (w_lsdb w) (w_now w) area (node_of v) = Some (sv_lsa v)" by (simp add: vertex_ok_def)
  note queue = process_vertex_queue [OF pv lsa]
  have "sorted (map fst q'')"
    using inv pop by (intro queue(1)) (auto simp: search_inv_def heappop_Cons)
  moreover have queued: "fst j = sv_distance u \<and> vertex_ok w area ?tree u" if "(j, u) \<in> set q''" for j u
    using queue(3) [OF that]
  proof
    assume "(j, u) \<in> set q'"
    then have "(j, u) \<in> set q" using pop by (simp add: heappop_Cons)
    then show ?thesis using search_inv_vertex [OF inv] vertex_ok_grow [OF _ new] by blast
  next
    assume "fst j = sv_distance u \<and> sv_parent u = Some v
      \<and> node_lsa (w_lsdb w) (w_now w) area (node_of u) = Some (sv_lsa u)
      \<and> (node_of u, sv_distance u - sv_distance v) \<in> set (area_edges (w_lsdb w) (w_now w) area (node_of v))"
    then show ?thesis by (simp add: vertex_ok_def update_conv')
  qed
  moreover have "sv_id u = i \<and> vertex_ok w area ?tree u" if "map_of ?tree i = Some u" for i u
  proof (cases "i = sv_id v")
    case True
    then show ?thesis using that vertex_ok_grow [OF ok new] by (simp add: update_conv')
  next
    case False
    then show ?thesis using that inv vertex_ok_grow [OF _ new] by (simp add: update_conv' search_inv_def)
  qed
  moreover have "distinct (map fst ?tree)" using inv by (simp add: search_inv_def distinct_update)
  ultimately show ?thesis unfolding search_inv_def by blast
qed

lemma search_inv_tree:
  assumes "search_inv w area tree q"
  shows "distinct (map fst tree)" and "map_of tree i = Some u \<Longrightarrow> sv_id u = i"
    and "map_of tree i = Some u \<Longrightarrow> vertex_ok w area tree u"
  using assms unfolding search_inv_def by blast+

lemma finished_update:
  assumes "map_of tree (sv_id v) = None"
  shows "finished_nodes (AList.update (sv_id v) v tree) = (finished_nodes tree)(node_of v \<mapsto> sv_distance v)"
proof
  fix x :: spf_node
  obtain ty i where x: "x = (ty, i)" by fastforce
  show "finished_nodes (AList.update (sv_id v) v tree) x = ((finished_nodes tree)(node_of v \<mapsto> sv_distance v)) x"
    using assms x by (auto simp: finished_nodes_def update_conv' node_of_def)
qed

lemma finished_id:
  assumes "search_inv w area tree q" and "map_of tree i = Some u"
  shows "finished_nodes tree (sv_type u, i) = Some (sv_distance u)"
    and "node_lsa (w_lsdb w) (w_now w) area (sv_type u, i) = Some (sv_lsa u)"
  using search_inv_tree(2,3) [OF assms(1) assms(2)] assms(2)
  by (simp_all add: finished_nodes_def vertex_ok_def node_of_def)

text \<open>The search as an instance of the abstract one.\<close>

definition area_search_ok :: "world \<Rightarrow> ipv4 \<Rightarrow> spf_tree \<Rightarrow> spf_queue \<Rightarrow> bool" where
  "area_search_ok w area tree q \<longleftrightarrow> search_inv w area tree q \<and>
     search_ok (area_edges (w_lsdb w) (w_now w) area) (spf_vertex_router, w_router_id w)
       (finished_nodes tree) (candidates q)"

lemma area_search_ids: "area_search_ok w area tree q \<Longrightarrow> (k, v) \<in> set q \<Longrightarrow> sv_id v \<in> node_ids (w_lsdb w) area"
  using search_inv_ids unfolding area_search_ok_def by blast

lemma area_search_skip:
  assumes "metrics_ok area (w_lsdb w)" and "ids_disjoint area (w_lsdb w)"
    and ok: "area_search_ok w area tree q" and pop: "heappop q = Some (k, v, q')"
    and old: "map_of tree (sv_id v) \<noteq> None"
  shows "area_search_ok w area tree q'"
proof -
  have inv: "search_inv w area tree q" using ok by (simp add: area_search_ok_def)
  obtain u where u: "map_of tree (sv_id v) = Some u" using old by auto
  have "(k, v) \<in> set q" using pop by (simp add: heappop_Cons)
  then have "node_lsa (w_lsdb w) (w_now w) area (sv_type v, sv_id v) = Some (sv_lsa v)"
    using search_inv_vertex(2) [OF inv] by (simp add: vertex_ok_def node_of_def)
  then have "sv_type v = sv_type u"
    using finished_id(2) [OF inv u] ids_disjoint_unique [OF assms(2)] by blast
  then have "finished_nodes tree (node_of v) \<noteq> None"
    using finished_id(1) [OF inv u] by (simp add: node_of_def)
  then show ?thesis
    using ok candidates_pop [OF pop] search_inv_skip [OF inv pop]
      area_graph.search_skip [of "w_lsdb w" "w_now w" area _ "finished_nodes tree" "candidates q" "node_of v" "candidates q'" "fst k"]
    by (auto simp: area_search_ok_def area_graph_eq [OF assms(1)])
qed

lemma area_search_take:
  assumes m: "metrics_ok area (w_lsdb w)" and dis: "ids_disjoint area (w_lsdb w)"
    and ok: "area_search_ok w area tree q" and pop: "heappop q = Some (k, v, q')"
    and new: "map_of tree (sv_id v) = None"
    and pv: "process_vertex w area (AList.update (sv_id v) v tree) v (q', n) = (q'', n')"
  shows "area_search_ok w area (AList.update (sv_id v) v tree) q''"
proof -
  let ?tree = "AList.update (sv_id v) v tree"
  let ?edges = "area_edges (w_lsdb w) (w_now w) area" and ?src = "(spf_vertex_router, w_router_id w)"
  let ?E = "{(m, c). (m, c) \<in> set (?edges (node_of v)) \<and> map_of ?tree (snd m) = None}"
  let ?fresh = "(\<lambda>(m, c). (sv_distance v + c, m)) ` ?E"
  have inv: "search_inv w area tree q" and so: "search_ok ?edges ?src (finished_nodes tree) (candidates q)"
    using ok by (simp_all add: area_search_ok_def)
  have v: "(k, v) \<in> set q" and q: "q = (k, v) # q'" using pop by (simp_all add: heappop_Cons)
  have dist: "fst k = sv_distance v" by (rule search_inv_vertex(1) [OF inv v])
  have lsa: "node_lsa (w_lsdb w) (w_now w) area (node_of v) = Some (sv_lsa v)"
    using search_inv_vertex(2) [OF inv v] by (simp add: vertex_ok_def)
  have inv': "search_inv w area ?tree q''" by (rule search_inv_take [OF inv pop new pv])
  have cand: "candidates q = insert (sv_distance v, node_of v) (candidates q')"
    using candidates_pop [OF pop] dist by simp
  have walk_v: "walk ?edges ?src (node_of v) (sv_distance v)"
    using so cand by (simp add: search_ok_def)
  have "search_ok (area_graph (w_lsdb w) (w_now w) area) ?src ((finished_nodes tree)(node_of v \<mapsto> sv_distance v))
      (candidates q' \<union> ?fresh)"
  proof (rule area_graph.search_take)
    show "search_ok (area_graph (w_lsdb w) (w_now w) area) ?src (finished_nodes tree) (candidates q)"
      using so by (simp add: area_graph_eq [OF m])
    show "(sv_distance v, node_of v) \<in> candidates q" using cand by simp
    show "finished_nodes tree (node_of v) = None" using new by (simp add: finished_nodes_def node_of_def)
    show "candidates q' \<subseteq> candidates q" "candidates q \<subseteq> insert (sv_distance v, node_of v) (candidates q')"
      using cand by auto
    show "sv_distance v \<le> d'" if d': "(d', x) \<in> candidates q" for d' x
    proof -
      obtain k' u where u: "(k', u) \<in> set q" "d' = fst k'" using d' by (auto simp: candidates_def)
      have "k \<le> k'"
        using spfq.pop_least [of q k v q' k' u] inv pop u(1) by (simp add: search_inv_def)
      then show ?thesis using dist u(2) by (auto simp: less_eq_prod_def)
    qed
  next
    fix x c assume e: "(x, c) \<in> set (area_graph (w_lsdb w) (w_now w) area (node_of v))"
    then have e': "(x, c) \<in> set (?edges (node_of v))" by (simp add: area_graph_eq [OF m])
    show "((finished_nodes tree)(node_of v \<mapsto> sv_distance v)) x \<noteq> None \<or> (sv_distance v + c, x) \<in> ?fresh"
    proof (cases "map_of ?tree (snd x)")
      case None
      then show ?thesis using e' by force
    next
      case (Some u)
      obtain l where "node_lsa (w_lsdb w) (w_now w) area (fst x, snd x) = Some l"
        using e' vertex_links_node lsa by (fastforce simp: area_edges_def)
      then have "sv_type u = fst x"
        using finished_id(2) [OF inv' Some] ids_disjoint_unique [OF dis] by blast
      then have "finished_nodes ?tree x \<noteq> None" using finished_id(1) [OF inv' Some] by (cases x) simp
      then show ?thesis by (simp add: finished_update [OF new])
    qed
  next
    fix e x assume "(e, x) \<in> ?fresh"
    then have "walk ?edges ?src x e" using walk_step [OF walk_v] by auto
    then show "walk (area_graph (w_lsdb w) (w_now w) area) ?src x e" by (simp add: area_graph_eq [OF m])
  qed
  moreover have "candidates q'' = candidates q' \<union> ?fresh" by (rule process_vertex_queue(2) [OF pv lsa])
  ultimately show ?thesis using inv' by (simp add: area_search_ok_def finished_update [OF new] area_graph_eq [OF m])
qed

section \<open>The search returns\<close>

definition spf_root :: "world \<Rightarrow> lsa \<Rightarrow> spf_vertex" where
  "spf_root w l = Spf_Vertex (w_router_id w) spf_vertex_router l 0 None []"

lemma search_inv_init:
  assumes "live_lsa (w_now w) (lsdb_lookup area (1, w_router_id w, w_router_id w) (w_lsdb w)) = Some l"
  shows "search_inv w area [] (heappush (0, 0) (spf_root w l) [])"
  using assms by (simp add: search_inv_def vertex_ok_def spf_root_def node_of_def node_lsa_def)

lemma finished_Nil [simp]: "finished_nodes [] = (\<lambda>_. None)"
  by (auto simp: finished_nodes_def)

lemma spf_calculate_returns:
  "\<exists>tree. spf_calculate w area = Some tree \<and> search_inv w area tree []"
proof (cases "live_lsa (w_now w) (lsdb_lookup area (1, w_router_id w, w_router_id w) (w_lsdb w))")
  case None
  then show ?thesis by (simp add: spf_calculate_def search_inv_def)
next
  case (Some l)
  have "\<exists>t. spf_loop w area [] (heappush (0, 0) (spf_root w l) []) 1 = Some t \<and> search_inv w area t []"
  proof (rule spf_loop_rule [where U = "node_ids (w_lsdb w) area"])
    show "search_inv w area [] (heappush (0, 0) (spf_root w l) [])" by (rule search_inv_init [OF Some])
  qed (auto intro: search_inv_ids finite_node_ids search_inv_skip search_inv_take)
  then show ?thesis using Some by (simp add: spf_calculate_def spf_root_def)
qed

lemma spf_calculate_search_ok:
  assumes "metrics_ok area (w_lsdb w)" and "ids_disjoint area (w_lsdb w)"
    and "live_lsa (w_now w) (lsdb_lookup area (1, w_router_id w, w_router_id w) (w_lsdb w)) = Some l"
  shows "\<exists>tree. spf_calculate w area = Some tree \<and> area_search_ok w area tree []"
proof -
  have "\<exists>t. spf_loop w area [] (heappush (0, 0) (spf_root w l) []) 1 = Some t \<and> area_search_ok w area t []"
  proof (rule spf_loop_rule [where U = "node_ids (w_lsdb w) area"])
    show "area_search_ok w area [] (heappush (0, 0) (spf_root w l) [])"
      using search_inv_init [OF assms(3)] search_init
      by (simp add: area_search_ok_def candidates_def) (simp add: spf_root_def node_of_def)
  qed (auto intro: finite_node_ids area_search_skip [OF assms(1,2)] area_search_take [OF assms(1,2)]
        area_search_ids)
  then show ?thesis using assms(3) by (simp add: spf_calculate_def spf_root_def)
qed

lemma spf_calculate_root:
  assumes l: "live_lsa (w_now w) (lsdb_lookup area (1, w_router_id w, w_router_id w) (w_lsdb w)) = Some l"
  shows "\<exists>tree. spf_calculate w area = Some tree \<and> search_inv w area tree [] \<and> map_of tree (w_router_id w) = Some (spf_root w l)"
proof -
  let ?root = "spf_root w l"
  define I where "I tree q \<longleftrightarrow> search_inv w area tree q
    \<and> (tree = [] \<and> q = [((0, 0), ?root)] \<or> map_of tree (w_router_id w) = Some ?root)" for tree q
  have id: "sv_id ?root = w_router_id w" by (simp add: spf_root_def)
  have "\<exists>t. spf_loop w area [] (heappush (0, 0) ?root []) 1 = Some t \<and> I t []"
  proof (rule spf_loop_rule [where U = "node_ids (w_lsdb w) area"])
    show "I [] (heappush (0, 0) ?root [])" using search_inv_init [OF l] by (simp add: I_def)
    show "I tree q'" if "I tree q" "heappop q = Some (k, v, q')" "map_of tree (sv_id v) \<noteq> None" for tree q k v q'
      using that search_inv_skip [OF _ that(2)] by (auto simp: I_def)
    show "I (AList.update (sv_id v) v tree) q''" if "I tree q" "heappop q = Some (k, v, q')" "map_of tree (sv_id v) = None"
        "process_vertex w area (AList.update (sv_id v) v tree) v (q', n) = (q'', n')" for tree q k v q' q'' n n'
    proof -
      have "map_of (AList.update (sv_id v) v tree) (w_router_id w) = Some ?root"
        using that(1-3) id by (auto simp: I_def update_conv')
      then show ?thesis using search_inv_take [OF _ that(2-4)] that(1) by (simp add: I_def)
    qed
  qed (auto simp: I_def intro: search_inv_ids finite_node_ids)
  then show ?thesis using l by (auto simp: spf_calculate_def spf_root_def I_def)
qed

definition without_node :: "spf_node \<Rightarrow> (spf_node \<Rightarrow> (spf_node \<times> int) list) \<Rightarrow> spf_node \<Rightarrow> (spf_node \<times> int) list" where
  \<comment> \<open>the graph without the edges to that node\<close>
  "without_node x edges u = filter (\<lambda>(v, _). v \<noteq> x) (edges u)"

lemma root_shadows_network:
  \<comment> \<open>the vertex of the root's identifier is the root, so no other node of that identifier is one\<close>
  assumes inv: "search_inv w area tree []" and root: "map_of tree (w_router_id w) = Some (spf_root w l)"
    and v: "map_of tree i = Some v"
  shows "node_of v \<noteq> (spf_vertex_network, w_router_id w)
    \<and> walk (without_node (spf_vertex_network, w_router_id w) (area_edges (w_lsdb w) (w_now w) area))
        (spf_vertex_router, w_router_id w) (node_of v) (sv_distance v)"
  using v
proof (induction "size v" arbitrary: v i rule: less_induct)
  case less
  let ?net = "(spf_vertex_network, w_router_id w)"
  have ok: "vertex_ok w area tree v" and id: "sv_id v = i"
    using search_inv_tree(2,3) [OF inv less.prems] by simp_all
  have new: "node_of v \<noteq> ?net"
    using root less.prems id by (auto simp: node_of_def spf_root_def vertex_types)
  show ?case
  proof (cases "sv_parent v")
    case None
    then show ?thesis using ok new walk_start by (auto simp: vertex_ok_def)
  next
    case (Some p)
    then have p: "map_of tree (sv_id p) = Some p"
        "(node_of v, sv_distance v - sv_distance p) \<in> set (area_edges (w_lsdb w) (w_now w) area (node_of p))"
      using ok by (simp_all add: vertex_ok_def)
    have "size p < size v" using Some by (cases v) simp
    from less.hyps [OF this p(1)] have "walk (without_node ?net (area_edges (w_lsdb w) (w_now w) area))
        (spf_vertex_router, w_router_id w) (node_of p) (sv_distance p)" by blast
    from walk_step [OF this, of "node_of v" "sv_distance v - sv_distance p"] show ?thesis
      using p(2) new by (simp add: without_node_def)
  qed
qed

lemma distinct_same:
  assumes "distinct xs" and "\<And>x. x \<in> set xs \<Longrightarrow> x = a" and "a \<in> set xs"
  shows "xs = [a]"
proof (cases xs)
  case (Cons x ys)
  then have "y = a" "y \<noteq> x" if "y \<in> set ys" for y using assms(1,2) that by auto
  then have "set ys = {}" using Cons assms(2) by fastforce
  then show ?thesis using Cons assms(2) by simp
qed (use assms(3) in simp)

lemma walk_stuck: "walk edges src v k \<Longrightarrow> edges src = [] \<Longrightarrow> v = src"
  by (induction rule: walk.induct) auto

lemma finished_search:
  assumes "metrics_ok area (w_lsdb w)" and "area_search_ok w area tree []"
  shows "search_inv w area tree []"
    and "search_ok (area_graph (w_lsdb w) (w_now w) area) (spf_vertex_router, w_router_id w) (finished_nodes tree) {}"
  using assms(2) by (simp_all add: area_search_ok_def candidates_def area_graph_eq [OF assms(1)])

lemma tree_walks:
  assumes "metrics_ok area (w_lsdb w)" and "area_search_ok w area tree []" and "map_of tree i = Some v"
  shows "walk (area_edges (w_lsdb w) (w_now w) area) (spf_vertex_router, w_router_id w) (sv_type v, i) (sv_distance v)"
  using finished_id(1) [OF finished_search(1) [OF assms(1,2)] assms(3)]
    area_graph.search_finished [OF finished_search(2) [OF assms(1,2)]]
  by (simp add: shortest_def area_graph_eq [OF assms(1)])

lemma tree_covers_walks:
  assumes "metrics_ok area (w_lsdb w)" and "area_search_ok w area tree []"
    and "walk (area_edges (w_lsdb w) (w_now w) area) (spf_vertex_router, w_router_id w) (ty, i) k"
  shows "\<exists>v. map_of tree i = Some v \<and> sv_type v = ty \<and> sv_distance v \<le> k"
proof -
  have so: "search_ok (area_graph (w_lsdb w) (w_now w) area) (spf_vertex_router, w_router_id w) (finished_nodes tree) {}"
    by (rule finished_search(2) [OF assms(1,2)])
  obtain d where "d \<le> k" "finished_nodes tree (ty, i) = Some d"
    using area_graph.reachable_shortest [OF so, of "(ty, i)" k] area_graph.search_finished [OF so] assms(3)
    by (auto simp: area_graph_eq [OF assms(1)])
  then show ?thesis by (auto simp: finished_nodes_def split: option.splits if_splits)
qed

section \<open>Properties\<close>

text \<open>
  C25. The search for the shortest path tree returns, whatever the area's database holds, and it
  returns a tree: each vertex stands under its own identifier, carries the live LSA of its node and
  is the root at distance 0 or one edge of the area's graph further than its parent, a vertex of the
  tree.
\<close>
theorem spf_returns_tree:
  "\<exists>tree. spf_calculate w area = Some tree \<and> (\<forall>i v. map_of tree i = Some v \<longrightarrow>
     sv_id v = i \<and> node_lsa (w_lsdb w) (w_now w) area (sv_type v, i) = Some (sv_lsa v)
     \<and> (case sv_parent v of
          None \<Rightarrow> i = w_router_id w \<and> sv_type v = spf_vertex_router \<and> sv_distance v = 0
        | Some p \<Rightarrow> map_of tree (sv_id p) = Some p
            \<and> ((sv_type v, i), sv_distance v - sv_distance p)
                \<in> set (area_edges (w_lsdb w) (w_now w) area (sv_type p, sv_id p))))"
proof -
  obtain tree where "spf_calculate w area = Some tree" "search_inv w area tree []"
    using spf_calculate_returns by blast
  moreover have "sv_id v = i \<and> vertex_ok w area tree v" if "map_of tree i = Some v" for i v
    using \<open>search_inv w area tree []\<close> that by (simp add: search_inv_def)
  ultimately show ?thesis
    by (intro exI [of _ tree]) (fastforce simp: vertex_ok_def node_of_def split: option.splits)
qed

definition sample_router_lsa :: "ipv4 \<Rightarrow> router_link list \<Rightarrow> lsa" where
  "sample_router_lsa rid links = sample_lsa\<lparr>
     l_header := (l_header sample_lsa)\<lparr>lh_link_state_id := rid, lh_advertising_router := rid\<rparr>,
     l_body := Some (Router_Body \<lparr>rt_flags = 0, rt_num_links = int (length links), rt_links = links\<rparr>)\<rparr>"

definition sample_network_lsa :: "ipv4 \<Rightarrow> ipv4 \<Rightarrow> ipv4 list \<Rightarrow> lsa" where
  "sample_network_lsa dr_ip rid routers = sample_lsa\<lparr>
     l_header := (l_header sample_lsa)\<lparr>lh_ls_type := 2, lh_link_state_id := dr_ip, lh_advertising_router := rid\<rparr>,
     l_body := Some (Network_Body \<lparr>nl_network_mask = 4294967040, nl_attached_routers = routers\<rparr>)\<rparr>"

definition sample_transit :: "ipv4 \<Rightarrow> int \<Rightarrow> router_link" where
  "sample_transit dr_ip metric = \<lparr>rl_link_id = dr_ip, rl_link_data = dr_ip, rl_type = 2, rl_num_tos = 0,
     rl_metric = metric, rl_tos_metrics = []\<rparr>"

definition sample_segment :: "ipv4 \<Rightarrow> lsdb" where
  \<comment> \<open>routers \<open>rid\<close>, the DR with address 10.0.0.1, and 10.9.9.9 on one Ethernet segment\<close>
  "sample_segment rid = (empty_lsdb rid)\<lparr>ld_areas := [(0, map (\<lambda>l. (lsa_key l, mark_installed 0 l))
     [sample_router_lsa rid [sample_transit 167772161 10],
      sample_router_lsa 168364297 [sample_transit 167772161 20],
      sample_network_lsa 167772161 rid [rid, 168364297]])]\<rparr>"

definition segment_world :: "ipv4 \<Rightarrow> world" where
  "segment_world rid = \<lparr>w_router_id = rid, w_options = 2, w_is_asbr = False, w_spf_delay = 1, w_spf_hold = 5,
     w_lsdb = sample_segment rid, w_areas = [(0, area_create 0 False 1)], w_intfs = [], w_last_origination = [],
     w_router_lsa_pending = [], w_network_lsa_pending = [], w_spf_pending = False, w_spf_due = None,
     w_last_spf_time = 0, w_now = 10, w_entropy = (\<lambda>_. 100), w_draws = 0, w_md5 = (\<lambda>_. []), w_trace = []\<rparr>"

theorem spf_returns_tree_witness:
  "\<exists>tree v. spf_calculate (segment_world 16843009) 0 = Some tree \<and> map_of tree 168364297 = Some v
     \<and> node_lsa (sample_segment 16843009) 10 0 (sv_type v, 168364297) = Some (sv_lsa v) \<and> sv_type v = 1"
proof -
  let ?w = "segment_world 16843009"
  obtain tree where tree: "spf_calculate ?w 0 = Some tree"
    and ok: "\<forall>i v. map_of tree i = Some v \<longrightarrow>
      sv_id v = i \<and> node_lsa (w_lsdb ?w) (w_now ?w) 0 (sv_type v, i) = Some (sv_lsa v)"
    using spf_returns_tree [of ?w 0] by blast
  have "map_option (map (\<lambda>(i, v). (i, sv_type v))) (spf_calculate ?w 0)
      = Some [(16843009, 1), (167772161, 2), (168364297, 1)]" by code_simp
  then obtain v where v: "map_of tree 168364297 = Some v" "sv_type v = 1"
    using tree by (auto simp: map_eq_Cons_conv)
  have "node_lsa (w_lsdb ?w) (w_now ?w) 0 (sv_type v, 168364297) = Some (sv_lsa v)" using ok v(1) by blast
  then have "node_lsa (sample_segment 16843009) 10 0 (sv_type v, 168364297) = Some (sv_lsa v)"
    by (simp add: segment_world_def)
  then show ?thesis using v tree by blast
qed

lemma sample_segment_tree:
  "map_option (map (\<lambda>(i, v). (i, sv_type v, sv_distance v))) (spf_calculate (segment_world 16843009) 0)
     = Some [(16843009, 1, 0), (167772161, 2, 10), (168364297, 1, 10)]"
  by code_simp

text \<open>
  C8. When the area's metrics are not negative, no router id is also a network's identifier and the
  router's own LSA is live, the tree holds the shortest paths: the distance of each vertex is the
  length of a walk from this router, and whatever walk the database describes, the node it leads
  to is in the tree at no greater distance.
\<close>
theorem spf_distances_shortest:
  assumes "metrics_ok area (w_lsdb w)" and "ids_disjoint area (w_lsdb w)"
    and "live_lsa (w_now w) (lsdb_lookup area (1, w_router_id w, w_router_id w) (w_lsdb w)) = Some l"
  shows "\<exists>tree. spf_calculate w area = Some tree
    \<and> (\<forall>i v. map_of tree i = Some v \<longrightarrow>
         walk (area_edges (w_lsdb w) (w_now w) area) (spf_vertex_router, w_router_id w)
           (sv_type v, i) (sv_distance v))
    \<and> (\<forall>ty i k. walk (area_edges (w_lsdb w) (w_now w) area) (spf_vertex_router, w_router_id w) (ty, i) k \<longrightarrow>
         (\<exists>v. map_of tree i = Some v \<and> sv_type v = ty \<and> sv_distance v \<le> k))"
  using spf_calculate_search_ok [OF assms] tree_walks [OF assms(1)] tree_covers_walks [OF assms(1)] by blast

theorem spf_distances_shortest_witness:
  "\<exists>tree. spf_calculate (segment_world 16843009) 0 = Some tree
     \<and> walk (area_edges (sample_segment 16843009) 10 0) (spf_vertex_router, 16843009) (1, 168364297) 10
     \<and> map_option sv_distance (map_of tree 168364297) = Some 10"
proof -
  let ?w = "segment_world 16843009"
  have m: "metrics_ok 0 (w_lsdb ?w)" "ids_disjoint 0 (w_lsdb ?w)" by code_simp+
  have "live_lsa (w_now ?w) (lsdb_lookup 0 (1, w_router_id ?w, w_router_id ?w) (w_lsdb ?w)) \<noteq> None" by code_simp
  then obtain l where "live_lsa (w_now ?w) (lsdb_lookup 0 (1, w_router_id ?w, w_router_id ?w) (w_lsdb ?w)) = Some l"
    by auto
  from spf_distances_shortest [OF m this] obtain tree where tree: "spf_calculate ?w 0 = Some tree"
    and walks: "\<forall>i v. map_of tree i = Some v \<longrightarrow> walk (area_edges (w_lsdb ?w) (w_now ?w) 0)
      (spf_vertex_router, w_router_id ?w) (sv_type v, i) (sv_distance v)" by blast
  have "map (\<lambda>(i, v). (i, sv_type v, sv_distance v)) tree
      = [(16843009, 1, 0), (167772161, 2, 10), (168364297, 1, 10)]"
    using sample_segment_tree tree by simp
  then obtain v where "map_of tree 168364297 = Some v" "sv_type v = 1" "sv_distance v = 10"
    by (auto simp: map_eq_Cons_conv)
  then show ?thesis using walks tree by (force simp: segment_world_def)
qed

text \<open>
  C32. A router whose id is the address of its interface loses the segment it is DR for: the Network
  LSA's identifier is then its own router id, under which the tree already holds the root. In any
  database, the segment of that identifier is no vertex, every vertex is one that can be reached
  without it, at the length of such a walk, and when the router's links lead to no other node its
  tree is the root alone, whatever lies behind the segment.
\<close>
theorem router_id_hides_own_segment:
  assumes own: "live_lsa (w_now w) (lsdb_lookup area (1, w_router_id w, w_router_id w) (w_lsdb w)) = Some l"
  defines "edges \<equiv> without_node (spf_vertex_network, w_router_id w) (area_edges (w_lsdb w) (w_now w) area)"
  shows "\<exists>tree. spf_calculate w area = Some tree
    \<and> map_of tree (w_router_id w) = Some (Spf_Vertex (w_router_id w) spf_vertex_router l 0 None [])
    \<and> (\<forall>i v. map_of tree i = Some v \<longrightarrow> (sv_type v, i) \<noteq> (spf_vertex_network, w_router_id w)
         \<and> walk edges (spf_vertex_router, w_router_id w) (sv_type v, i) (sv_distance v))
    \<and> (edges (spf_vertex_router, w_router_id w) = [] \<longrightarrow> map fst tree = [w_router_id w])"
proof -
  obtain tree where t: "spf_calculate w area = Some tree" "search_inv w area tree []"
      "map_of tree (w_router_id w) = Some (spf_root w l)"
    using spf_calculate_root [OF own] by blast
  have walks: "(sv_type v, i) \<noteq> (spf_vertex_network, w_router_id w)
      \<and> walk edges (spf_vertex_router, w_router_id w) (sv_type v, i) (sv_distance v)" if "map_of tree i = Some v" for i v
    using root_shadows_network [OF t(2,3) that] search_inv_tree(2) [OF t(2) that] by (simp add: node_of_def edges_def)
  have "map fst tree = [w_router_id w]" if stuck: "edges (spf_vertex_router, w_router_id w) = []"
  proof -
    have same: "i = w_router_id w" if i: "i \<in> set (map fst tree)" for i
    proof -
      obtain v where "map_of tree i = Some v" using i by (cases "map_of tree i") (auto simp: map_of_eq_None_iff)
      then have "(sv_type v, i) = (spf_vertex_router, w_router_id w)" using walks walk_stuck stuck by metis
      then show ?thesis by simp
    qed
    have "w_router_id w \<in> set (map fst tree)" using t(3) by (force dest: map_of_SomeD)
    from distinct_same [OF search_inv_tree(1) [OF t(2)] same this] show ?thesis by simp
  qed
  then show ?thesis using t(1,3) walks by (auto simp: spf_root_def)
qed

theorem router_id_hides_own_segment_witness:
  \<comment> \<open>on the segment of routers 10.0.0.1 and 10.9.9.9 the other router is lost; with the router id
      1.1.1.1 it is found, at the length of the walk that both databases have\<close>
  "(\<exists>tree. spf_calculate (segment_world 167772161) 0 = Some tree \<and> map fst tree = [167772161])
   \<and> walk (area_edges (sample_segment 167772161) 10 0) (spf_vertex_router, 167772161) (1, 168364297) 10
   \<and> map_option (map fst) (spf_calculate (segment_world 16843009) 0) = Some [16843009, 167772161, 168364297]"
proof (intro conjI)
  let ?edges = "area_edges (sample_segment 167772161) 10 0" and ?w = "segment_world 167772161"
  have "live_lsa (w_now ?w) (lsdb_lookup 0 (1, w_router_id ?w, w_router_id ?w) (w_lsdb ?w)) \<noteq> None" by code_simp
  then obtain l where l: "live_lsa (w_now ?w) (lsdb_lookup 0 (1, w_router_id ?w, w_router_id ?w) (w_lsdb ?w)) = Some l"
    by auto
  have "without_node (spf_vertex_network, w_router_id ?w) (area_edges (w_lsdb ?w) (w_now ?w) 0)
      (spf_vertex_router, w_router_id ?w) = []" "w_router_id ?w = 167772161" by code_simp+
  then show "\<exists>tree. spf_calculate ?w 0 = Some tree \<and> map fst tree = [167772161]"
    using router_id_hides_own_segment [OF l] by metis
  have "((2, 167772161), 10) \<in> set (?edges (spf_vertex_router, 167772161))"
    "((1, 168364297), 0) \<in> set (?edges (2, 167772161))" by code_simp+
  then show "walk ?edges (spf_vertex_router, 167772161) (1, 168364297) 10"
    using walk_step [of ?edges _ "(2, 167772161)" 10 _ 0] walk_step [of ?edges _ "(spf_vertex_router, 167772161)" 0 _ 10]
      walk_start by fastforce
qed code_simp

end
