(* ===== verification/Routes_Correct.thy ===== *)
theory Routes_Correct
  imports Routes Spf_Correct
begin

text \<open>
  What the routing table holds: for each destination the best of the candidate routes with the next
  hops of all equally good ones; the kernel requests turn the forwarding table of the old routing
  table into that of the new one; and in an area the table's cost is that of the shortest path.
\<close>

section \<open>The order of routes\<close>

definition route_rank :: "ospf_route \<Rightarrow> int \<times> int \<times> int" where
  "route_rank r = (ro_path_type r, if ro_path_type r = path_type2_external then ro_type2_cost r else 0, ro_cost r)"

lemma better_rank: "is_better_than r s \<longleftrightarrow> route_rank r < route_rank s"
  by (auto simp: is_better_than_def route_rank_def less_prod_def less_eq_prod_def)

lemma rank_path_type: "route_rank r = route_rank s \<Longrightarrow> ro_path_type r = ro_path_type s"
  by (simp add: route_rank_def)

definition hop_ids :: "ospf_route \<Rightarrow> (string \<times> ipv4) set" where
  "hop_ids r = nh_id ` set (ro_nexthops r)"

lemma nh_add_ids: "nh_id ` set (nh_add n s) = insert (nh_id n) (nh_id ` set s)"
  by (auto simp: nh_add_def)

lemma nh_update_ids: "nh_id ` set (nh_update s t) = nh_id ` set s \<union> nh_id ` set t"
proof (induction t arbitrary: s)
  case (Cons n t)
  have "nh_update s (n # t) = nh_update (nh_add n s) t" by (simp add: nh_update_def)
  then show ?case using Cons [of "nh_add n s"] nh_add_ids [of n s] by auto
qed (simp add: nh_update_def)

section \<open>The table holds the best routes\<close>

definition peers :: "ospf_route list \<Rightarrow> ospf_route \<Rightarrow> ospf_route set" where
  \<comment> \<open>the candidates for the same destination that are as good\<close>
  "peers rs b = {r \<in> set rs. ro_destination r = ro_destination b \<and> route_rank r = route_rank b}"

definition best_among :: "ospf_route list \<Rightarrow> ospf_route \<Rightarrow> bool" where
  "best_among rs b \<longleftrightarrow>
     (\<forall>r\<in>set rs. ro_destination r = ro_destination b \<longrightarrow> route_rank b \<le> route_rank r)
     \<and> peers rs b \<noteq> {} \<and> hop_ids b = \<Union> (hop_ids ` peers rs b)"

definition table_ok_for :: "ospf_route list \<Rightarrow> route_table \<Rightarrow> bool" where
  "table_ok_for rs t \<longleftrightarrow> distinct (map fst t)
     \<and> (\<forall>dest. map_of t dest = None \<longleftrightarrow> (\<forall>r\<in>set rs. ro_destination r \<noteq> dest))
     \<and> (\<forall>dest b. map_of t dest = Some b \<longrightarrow> ro_destination b = dest \<and> best_among rs b)"

lemma table_none: "table_ok_for rs t \<Longrightarrow> map_of t dest = None \<longleftrightarrow> (\<forall>r\<in>set rs. ro_destination r \<noteq> dest)"
  unfolding table_ok_for_def by blast

lemma table_some:
  assumes "table_ok_for rs t" and "map_of t dest = Some b"
  shows "ro_destination b = dest" and "best_among rs b"
  using assms unfolding table_ok_for_def by blast+

lemma best_among_other:
  assumes "best_among rs b" and "ro_destination r \<noteq> ro_destination b"
  shows "best_among (rs @ [r]) b"
proof -
  have "peers (rs @ [r]) b = peers rs b" using assms(2) by (auto simp: peers_def)
  then show ?thesis using assms by (simp add: best_among_def)
qed

lemma best_among_worse:
  assumes "best_among rs b" and "route_rank b < route_rank r"
  shows "best_among (rs @ [r]) b"
proof -
  have "peers (rs @ [r]) b = peers rs b" using assms(2) by (auto simp: peers_def)
  then show ?thesis using assms by (simp add: best_among_def less_imp_le)
qed

lemma best_among_better:
  assumes "best_among rs b" and "ro_destination r = ro_destination b" and "route_rank r < route_rank b"
  shows "best_among (rs @ [r]) r"
proof -
  have less: "route_rank r < route_rank s" if "s \<in> set rs" "ro_destination s = ro_destination r" for s
    using assms that by (auto simp: best_among_def intro: less_le_trans)
  then have "peers (rs @ [r]) r = {r}" by (fastforce simp: peers_def)
  then show ?thesis using less by (auto simp: best_among_def less_imp_le)
qed

lemma best_among_equal:
  assumes b: "best_among rs b" and "ro_destination r = ro_destination b" and "route_rank r = route_rank b"
  shows "best_among (rs @ [r]) (b\<lparr>ro_nexthops := nh_update (ro_nexthops b) (ro_nexthops r)\<rparr>)" (is "best_among _ ?b")
proof -
  have same: "ro_destination ?b = ro_destination b" "route_rank ?b = route_rank b"
    by (simp_all add: route_rank_def)
  then have "peers (rs @ [r]) ?b = insert r (peers rs b)" using assms(2,3) by (auto simp: peers_def)
  moreover have "hop_ids ?b = hop_ids b \<union> hop_ids r" by (simp add: hop_ids_def nh_update_ids)
  ultimately show ?thesis using b same assms(3) by (auto simp: best_among_def)
qed

lemma best_among_first:
  assumes "\<forall>s\<in>set rs. ro_destination s \<noteq> ro_destination r"
  shows "best_among (rs @ [r]) r"
proof -
  have "peers (rs @ [r]) r = {r}" using assms by (auto simp: peers_def)
  then show ?thesis using assms by (auto simp: best_among_def)
qed

lemma table_ok_for_update:
  assumes "table_ok_for rs t" and "ro_destination b = ro_destination r" and "best_among (rs @ [r]) b"
  shows "table_ok_for (rs @ [r]) (AList.update (ro_destination r) b t)"
proof -
  have "map_of (AList.update (ro_destination r) b t) dest = None
      \<longleftrightarrow> (\<forall>s\<in>set (rs @ [r]). ro_destination s \<noteq> dest)" for dest
    using table_none [OF assms(1), of dest] by (auto simp: update_conv')
  moreover have "ro_destination c = dest \<and> best_among (rs @ [r]) c"
    if c: "map_of (AList.update (ro_destination r) b t) dest = Some c" for dest c
  proof (cases "dest = ro_destination r")
    case True
    then show ?thesis using c assms(2,3) by (simp add: update_conv')
  next
    case False
    then have "ro_destination c = dest \<and> best_among rs c"
      using c table_some [OF assms(1)] by (simp add: update_conv')
    then show ?thesis using False best_among_other [of rs c r] by auto
  qed
  moreover have "distinct (map fst (AList.update (ro_destination r) b t))"
    using assms(1) by (simp add: table_ok_for_def distinct_update)
  ultimately show ?thesis unfolding table_ok_for_def by blast
qed

lemma table_ok_for_skip:
  assumes "table_ok_for rs t" and e: "map_of t (ro_destination r) = Some e" and "route_rank e < route_rank r"
  shows "table_ok_for (rs @ [r]) t"
proof -
  have "best_among (rs @ [r]) c" if c: "map_of t dest = Some c" for dest c
  proof (cases "dest = ro_destination r")
    case True
    then have "c = e" using c e by simp
    then show ?thesis using table_some(2) [OF assms(1) e] assms(3) best_among_worse by blast
  next
    case False
    then have "ro_destination c = dest \<and> best_among rs c" using c table_some [OF assms(1)] by simp
    then show ?thesis using False best_among_other [of rs c r] by auto
  qed
  moreover have "map_of t dest = None \<longleftrightarrow> (\<forall>s\<in>set (rs @ [r]). ro_destination s \<noteq> dest)" for dest
    using table_none [OF assms(1), of dest] e by (cases "dest = ro_destination r") auto
  moreover have "distinct (map fst t)" using assms(1) by (simp add: table_ok_for_def)
  moreover have "\<And>dest c. map_of t dest = Some c \<Longrightarrow> ro_destination c = dest"
    using table_some(1) [OF assms(1)] .
  ultimately show ?thesis unfolding table_ok_for_def by blast
qed

lemma add_route_ok:
  assumes t: "table_ok_for rs t"
  shows "table_ok_for (rs @ [r]) (add_route r t)"
proof (cases "map_of t (ro_destination r)")
  case None
  then have "\<forall>s\<in>set rs. ro_destination s \<noteq> ro_destination r" using table_none [OF t] by blast
  then show ?thesis using None table_ok_for_update [OF t _ best_among_first] by (simp add: add_route_def)
next
  case (Some e)
  then have e: "ro_destination e = ro_destination r" "best_among rs e"
    using table_some [OF t Some] by simp_all
  consider "route_rank r < route_rank e" | "route_rank r = route_rank e" | "route_rank e < route_rank r"
    by (rule linorder_cases)
  then show ?thesis
  proof cases
    case 1
    then have "best_among (rs @ [r]) r" using e best_among_better by simp
    then show ?thesis using 1 Some table_ok_for_update [OF t] by (simp add: add_route_def better_rank)
  next
    case 2
    then have "best_among (rs @ [r]) (e\<lparr>ro_nexthops := nh_update (ro_nexthops e) (ro_nexthops r)\<rparr>)"
      using e best_among_equal by simp
    then show ?thesis
      using 2 Some e(1) table_ok_for_update [OF t] rank_path_type [OF 2] by (simp add: add_route_def better_rank)
  next
    case 3
    moreover from this have "\<not> route_rank r < route_rank e" by simp
    ultimately show ?thesis using Some table_ok_for_skip [OF t Some 3] by (simp add: add_route_def better_rank)
  qed
qed

lemma build_table_ok: "table_ok_for rs (build_table rs)"
proof (induction rs rule: rev_induct)
  case Nil
  then show ?case by (simp add: build_table_def table_ok_for_def)
next
  case (snoc r rs)
  then show ?case using add_route_ok by (simp add: build_table_def)
qed

section \<open>The changes of the table and the requests they make\<close>

definition keyed :: "route_table \<Rightarrow> bool" where
  "keyed t \<longleftrightarrow> distinct (map fst t) \<and> list_all (\<lambda>(dest, r). ro_destination r = dest) t"

lemma build_table_keyed: "keyed (build_table rs)"
proof -
  have d: "distinct (map fst (build_table rs))" using build_table_ok by (simp add: table_ok_for_def)
  moreover have "ro_destination r = dest" if "(dest, r) \<in> set (build_table rs)" for dest r
    using table_some(1) [OF build_table_ok] map_of_is_SomeI [OF d that] by blast
  ultimately show ?thesis by (auto simp: keyed_def list_all_iff)
qed

lemma keyed_map_of: "keyed t \<Longrightarrow> map_of t dest = Some r \<Longrightarrow> ro_destination r = dest"
  by (auto simp: keyed_def list_all_iff dest!: map_of_SomeD)

lemma keyed_in: "keyed t \<Longrightarrow> (dest, r) \<in> set t \<longleftrightarrow> map_of t dest = Some r"
  by (simp add: keyed_def)

lemma keyed_filter:
  assumes "keyed t"
  shows "r \<in> set (map snd (filter (\<lambda>(dest, r). P dest r) t))
    \<longleftrightarrow> map_of t (ro_destination r) = Some r \<and> P (ro_destination r) r"
proof
  assume "r \<in> set (map snd (filter (\<lambda>(dest, r). P dest r) t))"
  then obtain dest where "(dest, r) \<in> set t" "P dest r" by auto
  moreover from this(1) have "map_of t dest = Some r" using keyed_in [OF assms] by blast
  moreover from this have "ro_destination r = dest" using keyed_map_of [OF assms] by blast
  ultimately show "map_of t (ro_destination r) = Some r \<and> P (ro_destination r) r" by simp
next
  assume "map_of t (ro_destination r) = Some r \<and> P (ro_destination r) r"
  then show "r \<in> set (map snd (filter (\<lambda>(dest, r). P dest r) t))" by (force dest: map_of_SomeD)
qed

lemma set_changes:
  assumes "keyed old" and "keyed new"
  shows "r \<in> set (added_routes old new) \<longleftrightarrow> map_of new (ro_destination r) = Some r \<and> map_of old (ro_destination r) = None"
    and "r \<in> set (changed_routes old new) \<longleftrightarrow> map_of new (ro_destination r) = Some r
      \<and> (\<exists>o'. map_of old (ro_destination r) = Some o' \<and> route_changed o' r)"
    and "r \<in> set (removed_routes old new) \<longleftrightarrow> map_of old (ro_destination r) = Some r
      \<and> map_of new (ro_destination r) = None"
  unfolding added_routes_def changed_routes_def removed_routes_def
    keyed_filter [OF assms(1)] keyed_filter [OF assms(2)]
  by (auto split: option.splits)

lemma removed_destinations:
  assumes "keyed old" and "keyed new"
  shows "dest \<in> ro_destination ` set (removed_routes old new) \<longleftrightarrow> map_of old dest \<noteq> None \<and> map_of new dest = None"
proof
  assume "map_of old dest \<noteq> None \<and> map_of new dest = None"
  then obtain r where "map_of old dest = Some r" "map_of new dest = None" by auto
  moreover from this have "ro_destination r = dest" using keyed_map_of [OF assms(1)] by blast
  ultimately have "r \<in> set (removed_routes old new)" by (simp add: set_changes(3) [OF assms])
  then show "dest \<in> ro_destination ` set (removed_routes old new)" using \<open>ro_destination r = dest\<close> by blast
next
  assume "dest \<in> ro_destination ` set (removed_routes old new)"
  then show "map_of old dest \<noteq> None \<and> map_of new dest = None"
    using set_changes(3) [OF assms] by auto
qed

definition to_install :: "route_table \<Rightarrow> route_table \<Rightarrow> ospf_route list" where
  "to_install old new = filter (\<lambda>r. convert_nexthops r \<noteq> []) (added_routes old new @ changed_routes old new)"

lemma to_install_distinct:
  assumes "keyed old" and "keyed new"
  shows "distinct (map ro_destination (to_install old new))"
proof -
  have dests: "map ro_destination (map snd (filter (\<lambda>(dest, r). P dest r) new))
      = map fst (filter (\<lambda>(dest, r). P dest r) new)" for P
    using assms(2) by (auto simp: keyed_def list_all_iff)
  have "distinct (map fst (filter Q new))" for Q using assms(2) by (simp add: keyed_def distinct_map_filter)
  then have "distinct (map ro_destination (added_routes old new))" "distinct (map ro_destination (changed_routes old new))"
    unfolding added_routes_def changed_routes_def dests by blast+
  moreover have "ro_destination ` set (added_routes old new) \<inter> ro_destination ` set (changed_routes old new) = {}"
    using set_changes(1,2) [OF assms] by auto
  ultimately have "distinct (map ro_destination (added_routes old new @ changed_routes old new))" by simp
  then show ?thesis unfolding to_install_def by (rule distinct_map_filter)
qed

lemma no_Some: "(\<And>y. x \<noteq> Some y) \<Longrightarrow> x = None"
  by (cases x) blast+

lemma find_installed:
  assumes "keyed old" and "keyed new"
  shows "find (\<lambda>r. ro_destination r = dest) (to_install old new) =
    (case map_of new dest of
       None \<Rightarrow> None
     | Some r \<Rightarrow> if convert_nexthops r \<noteq> []
           \<and> (case map_of old dest of None \<Rightarrow> True | Some o' \<Rightarrow> route_changed o' r) then Some r else None)"
    (is "?find = ?spec")
proof -
  have mem: "r \<in> set (to_install old new) \<and> ro_destination r = dest \<longleftrightarrow> ?spec = Some r" for r
    using set_changes(1,2) [OF assms, of r] keyed_map_of [OF assms(2), of dest r]
    unfolding to_install_def by (auto split: option.splits)
  show ?thesis
  proof (cases ?find)
    case None
    then have "\<nexists>r. r \<in> set (to_install old new) \<and> ro_destination r = dest" by (auto simp: find_None_iff)
    then have "?spec \<noteq> Some r" for r using mem [of r] by blast
    then have "?spec = None" by (rule no_Some)
    then show ?thesis using None by simp
  next
    case (Some r)
    then have "r \<in> set (to_install old new) \<and> ro_destination r = dest" by (auto simp: find_Some_iff)
    then have "?spec = Some r" using mem [of r] by blast
    then show ?thesis using Some by simp
  qed
qed

lemma filter_distinct:
  assumes "distinct (map f xs)"
  shows "filter (\<lambda>x. f x = d) xs = (case find (\<lambda>x. f x = d) xs of None \<Rightarrow> [] | Some x \<Rightarrow> [x])"
  using assms
proof (induction xs)
  case (Cons x xs)
  show ?case
  proof (cases "f x = d")
    case True
    then have "filter (\<lambda>x. f x = d) xs = []" using Cons.prems by (auto simp: filter_empty_conv) (metis image_eqI)
    then show ?thesis using True by simp
  next
    case False
    then show ?thesis using Cons by simp
  qed
qed simp

lemma find_mem: "(case find (\<lambda>x. f x = d) xs of None \<Rightarrow> e | Some x \<Rightarrow> g) = (if d \<in> f ` set xs then g else e)"
  by (induction xs) auto

lemma removed_distinct:
  assumes "keyed old"
  shows "distinct (map ro_destination (removed_routes old new))"
proof -
  have "map ro_destination (removed_routes old new) = map fst (filter (\<lambda>(dest, _). map_of new dest = None) old)"
    using assms by (auto simp: removed_routes_def keyed_def list_all_iff)
  then show ?thesis using assms by (simp add: keyed_def distinct_map_filter)
qed

fun request_destination :: "kernel_request \<Rightarrow> network" where
  "request_destination (Route_Replace dest _ _) = dest"
| "request_destination (Route_Del dest) = dest"
| "request_destination (Sr_Replace dest _ _) = dest"

lemma request_destinations [simp]:
  "request_destination (install_route dest hops metric) = dest"
  "request_destination (remove_route dest) = dest"
  by (simp_all add: install_route_def remove_route_def)

lemma mapped_find:
  assumes "\<And>r. ro_destination r = dest \<Longrightarrow> g r = h r"
  shows "map g (case find (\<lambda>r. ro_destination r = dest) rs of None \<Rightarrow> [] | Some r \<Rightarrow> [r])
    = (case find (\<lambda>r. ro_destination r = dest) rs of None \<Rightarrow> [] | Some r \<Rightarrow> [h r])"
  using assms by (induction rs) auto

lemma sync_requests:
  assumes "keyed old" and "keyed new"
  shows "filter (\<lambda>q. request_destination q = dest)
      (sync_to_kernel (added_routes old new) (changed_routes old new) (removed_routes old new)) =
    (if map_of old dest \<noteq> None \<and> map_of new dest = None then [remove_route dest] else [])
    @ (case find (\<lambda>r. ro_destination r = dest) (to_install old new) of
         None \<Rightarrow> [] | Some r \<Rightarrow> [install_route dest (convert_nexthops r) (ro_cost r)])"
proof -
  let ?rm = "removed_routes old new"
  have "filter (\<lambda>q. request_destination q = dest) (map (remove_route \<circ> ro_destination) ?rm)
      = map (remove_route \<circ> ro_destination) (filter (\<lambda>r. ro_destination r = dest) ?rm)"
    by (simp add: filter_map comp_def)
  also have "\<dots> = (case find (\<lambda>r. ro_destination r = dest) ?rm of None \<Rightarrow> [] | Some r \<Rightarrow> [remove_route dest])"
    unfolding filter_distinct [OF removed_distinct [OF assms(1)]] by (rule mapped_find) (simp add: comp_def)
  also have "\<dots> = (if dest \<in> ro_destination ` set ?rm then [remove_route dest] else [])"
    by (simp add: find_mem)
  finally have dels: "filter (\<lambda>q. request_destination q = dest) (map (remove_route \<circ> ro_destination) ?rm)
      = (if map_of old dest \<noteq> None \<and> map_of new dest = None then [remove_route dest] else [])"
    by (simp only: removed_destinations [OF assms])
  let ?inst = "\<lambda>r. install_route (ro_destination r) (convert_nexthops r) (ro_cost r)"
  have "filter (\<lambda>q. request_destination q = dest) (map ?inst (to_install old new))
      = map ?inst (filter (\<lambda>r. ro_destination r = dest) (to_install old new))"
    by (simp add: filter_map comp_def)
  also have "\<dots> = (case find (\<lambda>r. ro_destination r = dest) (to_install old new) of
         None \<Rightarrow> [] | Some r \<Rightarrow> [install_route dest (convert_nexthops r) (ro_cost r)])"
    unfolding filter_distinct [OF to_install_distinct [OF assms]] by (rule mapped_find) simp
  finally show ?thesis unfolding sync_to_kernel_def to_install_def [symmetric] by (simp add: dels)
qed

section \<open>The run of the calculation\<close>

lemma calculate_trees_returns:
  "\<exists>trees. calculate_trees w areas = Some trees \<and> map fst trees = areas
     \<and> (\<forall>(area, tree)\<in>set trees. spf_calculate w area = Some tree)"
proof (induction areas)
  case (Cons area areas)
  obtain tree where "spf_calculate w area = Some tree" using spf_calculate_returns by blast
  then show ?case using Cons by auto
qed simp

lemma run_spf_routes_cases:
  obtains trees external costs where "calculate_trees w (map fst (w_areas w)) = Some trees"
    and "map fst trees = map fst (w_areas w)"
    and "\<forall>(area, tree)\<in>set trees. spf_calculate w area = Some tree"
    and "external = calculate_external_routes (w_lsdb w) (w_now w) trees costs
      (all_intra_routes trees) (all_inter_routes (w_lsdb w) (w_now w) trees)"
    and "run_spf_routes w = Some (all_intra_routes trees, all_inter_routes (w_lsdb w) (w_now w) trees, external)"
proof -
  obtain trees where "calculate_trees w (map fst (w_areas w)) = Some trees" "map fst trees = map fst (w_areas w)"
    "\<forall>(area, tree)\<in>set trees. spf_calculate w area = Some tree"
    using calculate_trees_returns by blast
  then show ?thesis using that by (simp add: run_spf_routes_def Let_def)
qed

lemma summary_route_type:
  assumes "summary_route d now tree area intras l = Some r"
  shows "ro_path_type r = 2"
proof (cases "live_summary now l")
  case (Some b)
  then show ?thesis using assms
    by (cases "map_of tree (lh_advertising_router (l_header l))")
      (auto simp: summary_route_def path_inter_area_def Let_def split: if_splits)
qed (use assms in \<open>simp add: summary_route_def\<close>)

lemma external_route_type:
  assumes "external_route now trees costs routes l = Some r"
  shows "3 \<le> ro_path_type r"
proof -
  obtain e where e: "l_body l = Some (External_Body e)"
    using assms by (auto simp: external_route_def split: if_splits option.splits lsa_body.splits)
  obtain reach where "asbr_reach trees costs (lh_advertising_router (l_header l)) = Some reach"
    using assms e by (cases "asbr_reach trees costs (lh_advertising_router (l_header l))")
      (auto simp: external_route_def split: if_splits)
  then show ?thesis using assms e
    by (auto simp: external_route_def path_type1_external_def path_type2_external_def Let_def
        split: if_splits prod.splits)
qed

lemma stub_transit_type:
  "ro_path_type (stub_route area v link) = 1" "ro_path_type (transit_route area v body) = 1"
  by (simp_all add: stub_route_def transit_route_def path_intra_area_def)

lemma vertex_route_type:
  assumes "r \<in> set (vertex_routes area v)"
  shows "ro_path_type r = 1"
proof (cases "\<exists>body. l_body (sv_lsa v) = Some body")
  case True
  then obtain body where b: "l_body (sv_lsa v) = Some body" by blast
  show ?thesis
  proof (cases "sv_type v = spf_vertex_router")
    case True
    then show ?thesis using assms b by (cases body) (auto simp: vertex_routes_def stub_transit_type)
  next
    case router: False
    show ?thesis
    proof (cases "sv_type v = spf_vertex_network")
      case True
      then show ?thesis using assms b router by (cases body) (simp_all add: vertex_routes_def stub_transit_type)
    qed (use assms router in \<open>simp add: vertex_routes_def\<close>)
  qed
next
  case False
  then have "vertex_routes area v = []" unfolding vertex_routes_def by (simp cong: if_cong)
  then show ?thesis using assms by simp
qed

lemma external_path_type:
  "r \<in> set (calculate_external_routes d now trees costs intras inters) \<Longrightarrow> 3 \<le> ro_path_type r"
  using external_route_type by (auto simp: calculate_external_routes_def set_map_filter)

lemma inter_path_type: "r \<in> set (all_inter_routes d now trees) \<Longrightarrow> ro_path_type r = 2"
  using summary_route_type by (auto simp: all_inter_routes_def calculate_inter_area_routes_def set_map_filter)

lemma intra_path_type: "r \<in> set (all_intra_routes trees) \<Longrightarrow> ro_path_type r = 1"
  using vertex_route_type by (auto simp: all_intra_routes_def calculate_intra_area_routes_def)

lemma run_spf_cases:
  assumes "run_spf (w, t) = Some ((w', t'), reqs)"
  obtains intras inters external where "run_spf_routes w = Some (intras, inters, external)"
    and "t' = build_table (intras @ inters @ external)"
    and "reqs = sync_to_kernel (added_routes t t') (changed_routes t t') (removed_routes t t')"
  using assms by (auto simp: run_spf_def table_update_def Let_def)

lemma run_spf_keyed: "run_spf (w, t) = Some ((w', t'), reqs) \<Longrightarrow> keyed t'"
  by (rule run_spf_cases, assumption) (simp add: build_table_keyed)

section \<open>Networks an area's database offers\<close>

definition net_offers :: "lsdb \<Rightarrow> time \<Rightarrow> ipv4 \<Rightarrow> spf_node \<Rightarrow> (network \<times> int) list" where
  \<comment> \<open>the networks the live LSA of a node names, with the cost from that node\<close>
  "net_offers d now area node =
     (case map_option l_body (node_lsa d now area node) of
        Some (Some (Router_Body r)) \<Rightarrow>
          if fst node = spf_vertex_router then
            map (\<lambda>lk. (lenient_network (rl_link_id lk) (mask_to_prefix_len (rl_link_data lk)), rl_metric lk))
              (filter (\<lambda>lk. rl_type lk = 3) (rt_links r))
          else []
      | Some (Some (Network_Body n)) \<Rightarrow>
          if fst node = spf_vertex_network then
            [(lenient_network (snd node AND nl_network_mask n) (mask_to_prefix_len (nl_network_mask n)), 0)]
          else []
      | _ \<Rightarrow> [])"

definition intra_cost :: "world \<Rightarrow> network \<Rightarrow> int \<Rightarrow> bool" where
  \<comment> \<open>in one of the router's areas a walk leads to a node that names the network, at this cost in all\<close>
  "intra_cost w dest k \<longleftrightarrow> (\<exists>area\<in>fst ` set (w_areas w). \<exists>node j c.
     walk (area_edges (w_lsdb w) (w_now w) area) (spf_vertex_router, w_router_id w) node j
     \<and> (dest, c) \<in> set (net_offers (w_lsdb w) (w_now w) area node) \<and> k = j + c)"

lemma vertex_route_offers:
  assumes "node_lsa d now area (sv_type v, sv_id v) = Some (sv_lsa v)"
  shows "map (\<lambda>r. (ro_destination r, ro_cost r)) (vertex_routes area v)
    = map (\<lambda>(dest, c). (dest, sv_distance v + c)) (net_offers d now area (sv_type v, sv_id v))"
proof (cases "l_body (sv_lsa v)")
  case None
  then have "vertex_routes area v = []" unfolding vertex_routes_def by (simp cong: if_cong)
  then show ?thesis using None assms by (simp add: net_offers_def)
next
  case (Some body)
  have "sv_type v = spf_vertex_router \<or> sv_type v = spf_vertex_network"
    using assms by (simp add: node_lsa_def split: if_splits)
  then show ?thesis
  proof
    assume "sv_type v = spf_vertex_router"
    then show ?thesis using Some assms
      by (cases body) (simp_all add: vertex_routes_def net_offers_def stub_route_def vertex_types comp_def)
  next
    assume "sv_type v = spf_vertex_network"
    then show ?thesis using Some assms
      by (cases body) (simp_all add: vertex_routes_def net_offers_def transit_route_def vertex_types)
  qed
qed

lemma tree_vertex:
  assumes "search_inv w area tree []" and "map_of tree i = Some v"
  shows "sv_id v = i" and "node_lsa (w_lsdb w) (w_now w) area (sv_type v, sv_id v) = Some (sv_lsa v)"
  using search_inv_tree(2,3) [OF assms(1) assms(2)] by (simp_all add: vertex_ok_def node_of_def)

lemma calculate_tree_ok:
  assumes "metrics_ok area (w_lsdb w)" and "ids_disjoint area (w_lsdb w)" and "spf_calculate w area = Some tree"
  shows "tree = [] \<and> node_lsa (w_lsdb w) (w_now w) area (spf_vertex_router, w_router_id w) = None
    \<or> area_search_ok w area tree []"
proof (cases "live_lsa (w_now w) (lsdb_lookup area (1, w_router_id w, w_router_id w) (w_lsdb w))")
  case None
  then show ?thesis using assms(3) by (simp add: spf_calculate_def node_lsa_def)
next
  case (Some l)
  then show ?thesis using spf_calculate_search_ok [OF assms(1,2) Some] assms(3) by simp
qed

lemma tree_routes_sound:
  assumes "metrics_ok area (w_lsdb w)" and "area_search_ok w area tree []"
    and "r \<in> set (calculate_intra_area_routes tree area)"
  shows "\<exists>node j c. walk (area_edges (w_lsdb w) (w_now w) area) (spf_vertex_router, w_router_id w) node j
    \<and> (ro_destination r, c) \<in> set (net_offers (w_lsdb w) (w_now w) area node) \<and> ro_cost r = j + c"
proof -
  have inv: "search_inv w area tree []" by (rule finished_search(1) [OF assms(1,2)])
  obtain i v where "(i, v) \<in> set tree" and r: "r \<in> set (vertex_routes area v)"
    using assms(3) by (auto simp: calculate_intra_area_routes_def)
  then have m: "map_of tree i = Some v" using search_inv_tree(1) [OF inv] by simp
  have v: "sv_id v = i" "node_lsa (w_lsdb w) (w_now w) area (sv_type v, sv_id v) = Some (sv_lsa v)"
    using tree_vertex [OF inv m] by simp_all
  have "(ro_destination r, ro_cost r) \<in> set (map (\<lambda>r. (ro_destination r, ro_cost r)) (vertex_routes area v))"
    using r by simp
  then have "(ro_destination r, ro_cost r) \<in> set (map (\<lambda>(dest, c). (dest, sv_distance v + c))
      (net_offers (w_lsdb w) (w_now w) area (sv_type v, sv_id v)))"
    unfolding vertex_route_offers [OF v(2)] .
  then obtain c where "(ro_destination r, c) \<in> set (net_offers (w_lsdb w) (w_now w) area (sv_type v, i))"
    "ro_cost r = sv_distance v + c" using v(1) by auto
  then show ?thesis using tree_walks [OF assms(1,2) m] by blast
qed

lemma tree_routes_complete:
  assumes "metrics_ok area (w_lsdb w)" and "area_search_ok w area tree []"
    and "walk (area_edges (w_lsdb w) (w_now w) area) (spf_vertex_router, w_router_id w) node j"
    and "(dest, c) \<in> set (net_offers (w_lsdb w) (w_now w) area node)"
  shows "\<exists>r\<in>set (calculate_intra_area_routes tree area). ro_destination r = dest \<and> ro_cost r \<le> j + c"
proof -
  have inv: "search_inv w area tree []" by (rule finished_search(1) [OF assms(1,2)])
  obtain ty i where node: "node = (ty, i)" by fastforce
  obtain v where m: "map_of tree i = Some v" and ty: "sv_type v = ty" and le: "sv_distance v \<le> j"
    using tree_covers_walks [OF assms(1,2)] assms(3) node by blast
  have v: "sv_id v = i" "node_lsa (w_lsdb w) (w_now w) area (sv_type v, sv_id v) = Some (sv_lsa v)"
    using tree_vertex [OF inv m] by simp_all
  have "(dest, sv_distance v + c) \<in> set (map (\<lambda>(dest, c). (dest, sv_distance v + c))
      (net_offers (w_lsdb w) (w_now w) area (sv_type v, sv_id v)))"
    using assms(4) node ty v(1) by force
  then have "(dest, sv_distance v + c) \<in> set (map (\<lambda>r. (ro_destination r, ro_cost r)) (vertex_routes area v))"
    unfolding vertex_route_offers [OF v(2)] .
  then obtain r where "r \<in> set (vertex_routes area v)" "ro_destination r = dest" "ro_cost r = sv_distance v + c" by auto
  moreover have "(i, v) \<in> set tree" using m by (rule map_of_SomeD)
  ultimately show ?thesis using le by (force simp: calculate_intra_area_routes_def)
qed

definition areas_ok :: "world \<Rightarrow> bool" where
  "areas_ok w \<longleftrightarrow> list_all (\<lambda>(area, _). metrics_ok area (w_lsdb w) \<and> ids_disjoint area (w_lsdb w)) (w_areas w)"

lemma lone_root:
  assumes "walk (area_edges d now area) src node j" and "node_lsa d now area src = None"
  shows "node = src"
  using assms by (induction) (simp_all add: area_edges_def)

lemma intra_routes_cost:
  assumes "areas_ok w" and "map fst trees = map fst (w_areas w)"
    and "\<forall>(area, tree)\<in>set trees. spf_calculate w area = Some tree"
  shows "r \<in> set (all_intra_routes trees) \<Longrightarrow> intra_cost w (ro_destination r) (ro_cost r)"
    and "intra_cost w dest k \<Longrightarrow> \<exists>r\<in>set (all_intra_routes trees). ro_destination r = dest \<and> ro_cost r \<le> k"
proof -
  have ok: "area \<in> fst ` set (w_areas w) \<and> metrics_ok area (w_lsdb w)
      \<and> (tree = [] \<and> node_lsa (w_lsdb w) (w_now w) area (spf_vertex_router, w_router_id w) = None
         \<or> area_search_ok w area tree [])" if at: "(area, tree) \<in> set trees" for area tree
  proof -
    have "area \<in> fst ` set trees" using at by force
    then have area: "area \<in> fst ` set (w_areas w)" using assms(2) by (metis set_map)
    then have m: "metrics_ok area (w_lsdb w)" "ids_disjoint area (w_lsdb w)"
      using assms(1) by (auto simp: areas_ok_def list_all_iff)
    have "case (area, tree) of (area, tree) \<Rightarrow> spf_calculate w area = Some tree" using assms(3) at by (rule bspec)
    then have "spf_calculate w area = Some tree" by simp
    then show ?thesis by (intro conjI area m(1) calculate_tree_ok [OF m])
  qed
  show "intra_cost w (ro_destination r) (ro_cost r)" if r: "r \<in> set (all_intra_routes trees)"
  proof -
    obtain area tree where at: "(area, tree) \<in> set trees" "r \<in> set (calculate_intra_area_routes tree area)"
      using r by (auto simp: all_intra_routes_def)
    moreover from this(2) have "tree \<noteq> []" by (auto simp: calculate_intra_area_routes_def)
    ultimately show ?thesis using ok [OF at(1)] tree_routes_sound [of area w tree r] unfolding intra_cost_def by blast
  qed
  show "\<exists>r\<in>set (all_intra_routes trees). ro_destination r = dest \<and> ro_cost r \<le> k" if cost: "intra_cost w dest k"
  proof -
    obtain area node j c where area: "area \<in> fst ` set (w_areas w)"
      and wk: "walk (area_edges (w_lsdb w) (w_now w) area) (spf_vertex_router, w_router_id w) node j"
      and off: "(dest, c) \<in> set (net_offers (w_lsdb w) (w_now w) area node)" and k: "k = j + c"
      using cost unfolding intra_cost_def by blast
    have "area \<in> fst ` set trees" using area arg_cong [OF assms(2), of set] by simp
    then obtain tree where at: "(area, tree) \<in> set trees" by (rule imageE) (metis prod.collapse)
    have some: "node_lsa (w_lsdb w) (w_now w) area (spf_vertex_router, w_router_id w) \<noteq> None"
    proof
      assume none: "node_lsa (w_lsdb w) (w_now w) area (spf_vertex_router, w_router_id w) = None"
      from lone_root [OF wk this] show False using off none by (simp add: net_offers_def)
    qed
    have "area_search_ok w area tree []"
      using ok [OF at, THEN conjunct2, THEN conjunct2]
    proof
      assume "tree = [] \<and> node_lsa (w_lsdb w) (w_now w) area (spf_vertex_router, w_router_id w) = None"
      then show ?thesis using some by (metis (no_types))
    qed
    then obtain r where "r \<in> set (calculate_intra_area_routes tree area)" "ro_destination r = dest" "ro_cost r \<le> j + c"
      using tree_routes_complete [OF _ _ wk off] ok [OF at] by blast
    then show ?thesis using at k by (force simp: all_intra_routes_def)
  qed
qed

lemma run_spf_table:
  assumes "run_spf (w, t) = Some ((w', t'), reqs)"
  obtains trees others where "map fst trees = map fst (w_areas w)"
    and "\<forall>(area, tree)\<in>set trees. spf_calculate w area = Some tree"
    and "table_ok_for (all_intra_routes trees @ others) t'" and "\<forall>r\<in>set others. 2 \<le> ro_path_type r"
proof -
  obtain intras inters external where routes: "run_spf_routes w = Some (intras, inters, external)"
    and t': "t' = build_table (intras @ inters @ external)" using assms by (rule run_spf_cases)
  obtain trees costs where trees: "map fst trees = map fst (w_areas w)"
      "\<forall>(area, tree)\<in>set trees. spf_calculate w area = Some tree"
    and eq: "run_spf_routes w = Some (all_intra_routes trees, all_inter_routes (w_lsdb w) (w_now w) trees,
      calculate_external_routes (w_lsdb w) (w_now w) trees costs (all_intra_routes trees)
        (all_inter_routes (w_lsdb w) (w_now w) trees))"
    by (rule run_spf_routes_cases [of w]) blast
  have "table_ok_for (all_intra_routes trees @ inters @ external) t'"
    using build_table_ok [of "intras @ inters @ external"] routes eq t' by simp
  moreover have "\<forall>r\<in>set (inters @ external). 2 \<le> ro_path_type r"
    using routes eq inter_path_type external_path_type by (fastforce dest!: sym [of "Some _"])
  ultimately show ?thesis using trees that by blast
qed

lemma table_intra_cost:
  assumes "areas_ok w" and "run_spf (w, t) = Some ((w', t'), reqs)"
    and "map_of t' dest = Some b" and "ro_path_type b = path_intra_area"
  shows "intra_cost w dest (ro_cost b)"
proof -
  obtain trees others where trees: "map fst trees = map fst (w_areas w)"
      "\<forall>(area, tree)\<in>set trees. spf_calculate w area = Some tree"
    and ok: "table_ok_for (all_intra_routes trees @ others) t'" and others: "\<forall>r\<in>set others. 2 \<le> ro_path_type r"
    using assms(2) by (rule run_spf_table)
  have "peers (all_intra_routes trees @ others) b \<noteq> {}" and dest: "ro_destination b = dest"
    using table_some [OF ok assms(3)] by (simp_all add: best_among_def)
  then obtain r where r: "r \<in> set (all_intra_routes trees @ others)" "ro_destination r = dest" "route_rank r = route_rank b"
    by (auto simp: peers_def)
  then have "ro_path_type r = 1" "ro_cost r = ro_cost b"
    using assms(4) by (simp_all add: route_rank_def path_intra_area_def)
  then have "r \<in> set (all_intra_routes trees)" using r(1) others by fastforce
  then show ?thesis using intra_routes_cost(1) [OF assms(1) trees] r(2) \<open>ro_cost r = ro_cost b\<close> by metis
qed

lemma table_intra_least:
  assumes "areas_ok w" and "run_spf (w, t) = Some ((w', t'), reqs)" and "intra_cost w dest k"
  shows "\<exists>b. map_of t' dest = Some b \<and> ro_path_type b = path_intra_area \<and> ro_cost b \<le> k"
proof -
  obtain trees others where trees: "map fst trees = map fst (w_areas w)"
      "\<forall>(area, tree)\<in>set trees. spf_calculate w area = Some tree"
    and ok: "table_ok_for (all_intra_routes trees @ others) t'" and others: "\<forall>r\<in>set others. 2 \<le> ro_path_type r"
    using assms(2) by (rule run_spf_table)
  obtain r where r: "r \<in> set (all_intra_routes trees)" "ro_destination r = dest" "ro_cost r \<le> k"
    using intra_routes_cost(2) [OF assms(1) trees assms(3)] by blast
  then obtain b where b: "map_of t' dest = Some b"
    using table_none [OF ok, of dest] by (cases "map_of t' dest") auto
  have "ro_destination b = dest" "best_among (all_intra_routes trees @ others) b" using table_some [OF ok b] by simp_all
  then have le: "route_rank b \<le> route_rank r" and p: "peers (all_intra_routes trees @ others) b \<noteq> {}"
    using r by (auto simp: best_among_def)
  have "1 \<le> ro_path_type b"
  proof -
    obtain s where "s \<in> set (all_intra_routes trees @ others)" "route_rank s = route_rank b"
      using p by (auto simp: peers_def)
    then show ?thesis using others intra_path_type by (fastforce simp: route_rank_def)
  qed
  then have "ro_path_type b = path_intra_area" "ro_cost b \<le> ro_cost r"
    using le intra_path_type [OF r(1)]
    by (auto simp: route_rank_def path_intra_area_def path_type2_external_def less_eq_prod_def)
  then show ?thesis using b r(3) by auto
qed

section \<open>A sample\<close>

definition sample_link :: "int \<Rightarrow> ipv4 \<Rightarrow> ipv4 \<Rightarrow> int \<Rightarrow> router_link" where
  "sample_link ty link_id link_data metric = \<lparr>rl_link_id = link_id, rl_link_data = link_data, rl_type = ty,
     rl_num_tos = 0, rl_metric = metric, rl_tos_metrics = []\<rparr>"

definition p2p_world :: "int \<Rightarrow> world" where
  \<comment> \<open>routers 1.1.1.1 and 2.2.2.2 on a link of the given metric; 2.2.2.2 names 192.168.0.0/24\<close>
  "p2p_world metric = (segment_world 16843009)\<lparr>
     w_lsdb := (empty_lsdb 16843009)\<lparr>ld_areas := [(0, map (\<lambda>l. (lsa_key l, mark_installed 0 l))
       [sample_router_lsa 16843009 [sample_link 1 33686018 167772161 metric],
        sample_router_lsa 33686018 [sample_link 1 16843009 167772162 metric,
          sample_link 3 3232235520 4294967040 5]])]\<rparr>,
     w_areas := [(0, area_add_interface 0 (area_create 0 False 1))],
     w_intfs := [(interface_create sample_intf 0)\<lparr>is_neighbors :=
       [(33686018, (neighbor_create 33686018 167772162 sample_intf)\<lparr>nb_state := Nbr_Full\<rparr>)]\<rparr>]\<rparr>"

definition lan_network :: network where
  \<comment> \<open>192.168.0.0/24\<close>
  "lan_network = (3232235520, 24)"

lemma p2p_run: "map_option (\<lambda>((w, t), reqs). (map (\<lambda>(dest, r). (dest, ro_path_type r, ro_cost r)) t, reqs))
    (run_spf (p2p_world 10, []))
  = Some ([(lan_network, 1, 15)], [Route_Replace lan_network
      [(167772162, 2)] (Some 15)])"
  by code_simp

lemma p2p_run_obtain:
  obtains w' b where "run_spf (p2p_world 10, []) = Some ((w', [(lan_network, b)]), [Route_Replace lan_network
      [(167772162, 2)] (Some 15)])"
    and "ro_path_type b = 1" and "ro_cost b = 15"
  using p2p_run by (auto simp: map_eq_Cons_conv)

lemma run_requests:
  assumes "keyed old" and "run_spf (w, old) = Some ((w', new), reqs)"
  shows "filter (\<lambda>q. request_destination q = dest) reqs =
    (case map_of new dest of
       None \<Rightarrow> (if map_of old dest = None then [] else [remove_route dest])
     | Some r \<Rightarrow> if convert_nexthops r \<noteq> []
           \<and> (case map_of old dest of None \<Rightarrow> True | Some o' \<Rightarrow> route_changed o' r)
         then [install_route dest (convert_nexthops r) (ro_cost r)] else [])"
proof -
  have new: "keyed new" by (rule run_spf_keyed [OF assms(2)])
  have reqs: "reqs = sync_to_kernel (added_routes old new) (changed_routes old new) (removed_routes old new)"
    using assms(2) by (rule run_spf_cases) simp
  show ?thesis unfolding reqs sync_requests [OF assms(1) new] find_installed [OF assms(1) new]
    by (auto split: option.splits)
qed

section \<open>Properties\<close>

text \<open>
  C26. Each run of the calculation returns: the shortest path search of every area ends, and the run
  leaves the SPF timer free and the time of the run recorded.
\<close>
theorem run_spf_returns:
  "\<exists>w' t' reqs. run_spf (w, t) = Some ((w', t'), reqs) \<and> \<not> w_spf_pending w' \<and> w_last_spf_time w' = w_now w"
proof -
  obtain intras inters external where "run_spf_routes w = Some (intras, inters, external)"
    by (rule run_spf_routes_cases)
  then show ?thesis by (auto simp: run_spf_def table_update_def Let_def)
qed

text \<open>
  C9. For every destination the new table holds a best route: it has a route exactly for the
  destinations of the candidates; no candidate for the destination has a smaller rank, which is path
  type, then for type 2 externals the external cost, then the cost; and its next hops are those of
  all the candidates of that rank together.
\<close>
theorem table_holds_best_routes:
  assumes "table_update intras inters external old = (delta, new)"
  shows "(map_of new dest = None \<longleftrightarrow> (\<forall>r\<in>set (intras @ inters @ external). ro_destination r \<noteq> dest))
    \<and> (\<forall>b. map_of new dest = Some b \<longrightarrow> ro_destination b = dest
        \<and> (\<forall>r\<in>set (intras @ inters @ external). ro_destination r = dest \<longrightarrow> route_rank b \<le> route_rank r)
        \<and> hop_ids b = \<Union> (hop_ids ` {r \<in> set (intras @ inters @ external).
            ro_destination r = dest \<and> route_rank r = route_rank b}))"
proof -
  let ?rs = "intras @ inters @ external"
  have new: "new = build_table ?rs" using assms by (simp add: table_update_def Let_def)
  have ok: "table_ok_for ?rs new" unfolding new by (rule build_table_ok)
  have "ro_destination b = dest \<and> (\<forall>r\<in>set ?rs. ro_destination r = dest \<longrightarrow> route_rank b \<le> route_rank r)
      \<and> hop_ids b = \<Union> (hop_ids ` {r \<in> set ?rs. ro_destination r = dest \<and> route_rank r = route_rank b})"
    if "map_of new dest = Some b" for b
    using table_some [OF ok that] by (auto simp: best_among_def peers_def)
  then show ?thesis using table_none [OF ok, of dest] by blast
qed

definition sample_hop :: "string \<Rightarrow> ipv4 \<Rightarrow> spf_nexthop" where
  "sample_hop name ip = \<lparr>nh_interface_name = name, nh_next_hop_ip = ip, nh_interface_index = 2\<rparr>"

definition sample_route :: "int \<Rightarrow> int \<Rightarrow> spf_nexthop list \<Rightarrow> ospf_route" where
  "sample_route ty cost hops = \<lparr>ro_destination = (3232235776, 24), ro_path_type = ty, ro_cost = cost,
     ro_type2_cost = 0, ro_area_id = 0, ro_nexthops = hops, ro_advertising_router = 1\<rparr>"

definition sample_candidates :: "ospf_route list" where
  "sample_candidates = [sample_route 1 20 [sample_hop ''eth0'' 3], sample_route 1 10 [sample_hop ''eth1'' 4],
     sample_route 1 10 [sample_hop ''eth2'' 5]]"

theorem table_holds_best_routes_witness:
  "\<exists>b. map_of (snd (table_update sample_candidates [sample_route 2 1 []] [] [])) (3232235776, 24) = Some b
     \<and> ro_cost b = 10 \<and> hop_ids b = {(''eth1'', 4), (''eth2'', 5)}"
proof -
  let ?rs = "sample_candidates @ [sample_route 2 1 []]"
  let ?u = "table_update sample_candidates [sample_route 2 1 []] [] []"
  have u: "?u = (fst ?u, snd ?u)" by simp
  have "map_option ro_cost (map_of (snd ?u) (3232235776, 24)) = Some 10" by code_simp
  then obtain b where b: "map_of (snd ?u) (3232235776, 24) = Some b" "ro_cost b = 10" by auto
  have rank: "map_option route_rank (map_of (snd ?u) (3232235776, 24)) = Some (1, 0, 10)" by code_simp
  have "hop_ids b = \<Union> (hop_ids ` {r \<in> set ?rs. ro_destination r = (3232235776, 24) \<and> route_rank r = route_rank b})"
    using table_holds_best_routes [OF u, of "(3232235776, 24)"] b(1) by simp
  moreover have "{r \<in> set ?rs. ro_destination r = (3232235776, 24) \<and> route_rank r = route_rank b}
      = {sample_route 1 10 [sample_hop ''eth1'' 4], sample_route 1 10 [sample_hop ''eth2'' 5]}"
    using rank b(1) by (auto simp: sample_candidates_def sample_route_def route_rank_def path_type2_external_def)
  ultimately show ?thesis using b by (auto simp: hop_ids_def sample_route_def sample_hop_def nh_id_def)
qed

text \<open>
  C11. The requests a run makes of the kernel, destination by destination: a destination that left the
  table is deleted, once; one that is new in the table, or whose route changed in cost, type or next
  hops, is replaced, once, by the new route's gateways and cost, provided it has a gateway; and for
  every other destination there is no request.
\<close>
theorem requests_per_destination:
  assumes "keyed old" and "run_spf (w, old) = Some ((w', new), reqs)"
  shows "filter (\<lambda>q. request_destination q = dest) reqs =
    (case map_of new dest of
       None \<Rightarrow> (if map_of old dest = None then [] else [remove_route dest])
     | Some r \<Rightarrow> if convert_nexthops r \<noteq> []
           \<and> (case map_of old dest of None \<Rightarrow> True | Some o' \<Rightarrow> route_changed o' r)
         then [install_route dest (convert_nexthops r) (ro_cost r)] else [])"
  by (rule run_requests [OF assms])

text \<open>
  C1. The routing table's intra-area routes are those of the areas' databases: after a run the table
  has an intra-area route for a network exactly when a walk through the live LSAs of one of the
  router's areas leads to a node that names the network, and the route's cost is the least that such
  a walk and the node's metric add up to. The metrics must not be negative, and no router id may be
  a network's identifier.
\<close>
theorem intra_area_table:
  assumes "areas_ok w" and "run_spf (w, t) = Some ((w', t'), reqs)"
  shows "(case map_of t' dest of
      Some b \<Rightarrow> if ro_path_type b = path_intra_area
        then intra_cost w dest (ro_cost b) \<and> (\<forall>k. intra_cost w dest k \<longrightarrow> ro_cost b \<le> k)
        else (\<nexists>k. intra_cost w dest k)
    | None \<Rightarrow> (\<nexists>k. intra_cost w dest k))"
  using table_intra_cost [OF assms, of dest] table_intra_least [OF assms, of dest]
  by (fastforce split: option.split)

theorem intra_area_table_witness:
  "intra_cost (p2p_world 10) lan_network 15 \<and> \<not> intra_cost (p2p_world 10) lan_network 14
     \<and> (\<nexists>k. intra_cost (p2p_world 10) (0, 0) k)"
proof -
  obtain w' b reqs where run: "run_spf (p2p_world 10, []) = Some ((w', [(lan_network, b)]), reqs)"
    and b: "ro_path_type b = 1" "ro_cost b = 15" by (rule p2p_run_obtain)
  have "areas_ok (p2p_world 10)" by code_simp
  note table = intra_area_table [OF this run]
  have "intra_cost (p2p_world 10) lan_network 15 \<and> (\<forall>k. intra_cost (p2p_world 10) lan_network k \<longrightarrow> 15 \<le> k)"
    using table [of lan_network] b by (simp add: path_intra_area_def)
  moreover have "\<nexists>k. intra_cost (p2p_world 10) (0, 0) k" using table [of "(0, 0)"] by (simp add: lan_network_def)
  ultimately show ?thesis by auto
qed

theorem requests_per_destination_witness:
  "\<exists>w' new reqs. run_spf (p2p_world 10, []) = Some ((w', new), reqs)
     \<and> filter (\<lambda>q. request_destination q = lan_network) reqs = [Route_Replace lan_network
         [(167772162, 2)] (Some 15)]
     \<and> filter (\<lambda>q. request_destination q = (0, 0)) reqs = []"
proof -
  obtain w' b reqs where run: "run_spf (p2p_world 10, []) = Some ((w', [(lan_network, b)]), reqs)"
    and reqs: "reqs = [Route_Replace lan_network
         [(167772162, 2)] (Some 15)]"
    by (rule p2p_run_obtain) blast
  have "keyed []" by code_simp
  from requests_per_destination [OF this run, of "(0, 0)"] have "filter (\<lambda>q. request_destination q = (0, 0)) reqs = []"
    by (simp add: lan_network_def)
  then show ?thesis using run reqs by (auto simp: lan_network_def)
qed

section \<open>The kernel's table\<close>

text \<open>
  The kernel keeps its routes by destination and priority, no priority being 0. All that is used of it
  is what a request leaves alone: \<^verbatim>\<open>replace\<close> concerns the one entry of its destination and priority, \<^verbatim>\<open>del\<close>
  entries of its destination.
\<close>

type_synonym 'e kernel_table = "network \<times> int \<Rightarrow> 'e option"

fun request_touches :: "kernel_request \<Rightarrow> network \<times> int \<Rightarrow> bool" where
  "request_touches (Route_Replace dest _ prio) key \<longleftrightarrow> key = (dest, case prio of None \<Rightarrow> 0 | Some n \<Rightarrow> n)"
| "request_touches (Route_Del dest) key \<longleftrightarrow> fst key = dest"
| "request_touches (Sr_Replace dest _ _) key \<longleftrightarrow> fst key = dest"

definition kernel_frame :: "(kernel_request \<Rightarrow> 'e kernel_table \<Rightarrow> 'e kernel_table) \<Rightarrow> bool" where
  "kernel_frame kern \<longleftrightarrow> (\<forall>q k key. \<not> request_touches q key \<longrightarrow> kern q k key = k key)"

lemma kernel_frame_fold:
  assumes "kernel_frame kern" and "list_all (\<lambda>q. \<not> request_touches q key) reqs"
  shows "fold kern reqs k key = k key"
  using assms(2)
proof (induction reqs arbitrary: k)
  case (Cons q reqs)
  then have "\<not> request_touches q key" by simp
  then have "kern q k key = k key" using assms(1) unfolding kernel_frame_def by blast
  then show ?case using Cons by simp
qed simp

lemma touches_destination: "request_touches q key \<Longrightarrow> fst key = request_destination q"
  by (cases q) auto

text \<open>
  C31. Routes the kernel keeps that the table no longer has: when a run replaces a destination's route
  by one of another cost, or by one without a gateway (a destination that became directly connected),
  the requests it makes leave the kernel's entry for the old route as it was. For the first there is
  one request, the new route under the new priority, for the second none. The kernel is any function
  of requests and tables in which a request only touches the entries it is about.
\<close>
theorem stale_kernel_routes:
  assumes frame: "kernel_frame kern"
    and run: "keyed old" "run_spf (w, old) = Some ((w', new), reqs)"
    and routes: "map_of old dest = Some o'" "map_of new dest = Some r"
    and differ: "ro_cost r \<noteq> ro_cost o' \<or> convert_nexthops r = []"
  shows "fold kern reqs k (dest, ro_cost o') = k (dest, ro_cost o')
    \<and> filter (\<lambda>q. request_destination q = dest) reqs
        = (if convert_nexthops r = [] then [] else [install_route dest (convert_nexthops r) (ro_cost r)])"
proof -
  have reqs: "filter (\<lambda>q. request_destination q = dest) reqs
      = (if convert_nexthops r = [] then [] else [install_route dest (convert_nexthops r) (ro_cost r)])"
    using run_requests [OF run, of dest] routes differ by (auto simp: route_changed_def)
  have "\<not> request_touches q (dest, ro_cost o')" if "q \<in> set reqs" for q
  proof
    assume q: "request_touches q (dest, ro_cost o')"
    then have "q \<in> set (filter (\<lambda>q. request_destination q = dest) reqs)" using touches_destination that by fastforce
    then have "q = install_route dest (convert_nexthops r) (ro_cost r)" "ro_cost r \<noteq> ro_cost o'"
      using reqs differ by (auto split: if_splits)
    then show False using q by (simp add: install_route_def split: if_splits)
  qed
  then have "list_all (\<lambda>q. \<not> request_touches q (dest, ro_cost o')) reqs" by (simp add: list_all_iff)
  then show ?thesis using kernel_frame_fold [OF frame] reqs by blast
qed

definition sample_table :: "ospf_route \<Rightarrow> route_table" where
  "sample_table r = [(ro_destination r, r)]"

fun sample_kernel :: "kernel_request \<Rightarrow> (ipv4 \<times> int) list kernel_table \<Rightarrow> (ipv4 \<times> int) list kernel_table" where
  "sample_kernel (Route_Replace dest hops prio) k = k((dest, case prio of None \<Rightarrow> 0 | Some n \<Rightarrow> n) \<mapsto> hops)"
| "sample_kernel (Route_Del dest) k = (\<lambda>key. if fst key = dest then None else k key)"
| "sample_kernel (Sr_Replace dest gateway _) k = k((dest, 0) \<mapsto> [(gateway, 0)])"

theorem stale_kernel_routes_witness:
  \<comment> \<open>a route of cost 20 gives way to one of cost 15: afterwards the kernel has both\<close>
  "\<exists>w' new reqs. run_spf (p2p_world 10, sample_table (sample_route 1 20 [sample_hop ''eth0'' 3]\<lparr>ro_destination := lan_network\<rparr>))
        = Some ((w', new), reqs)
     \<and> fold sample_kernel reqs [(lan_network, 20) \<mapsto> [(3, 2)]] (lan_network, 20) = Some [(3, 2)]
     \<and> fold sample_kernel reqs [(lan_network, 20) \<mapsto> [(3, 2)]] (lan_network, 15) = Some [(167772162, 2)]"
proof -
  let ?r = "sample_route 1 20 [sample_hop ''eth0'' 3]\<lparr>ro_destination := lan_network\<rparr>"
  obtain w' b reqs where "run_spf (p2p_world 10, []) = Some ((w', [(lan_network, b)]), reqs)"
    and b: "ro_cost b = 15" by (rule p2p_run_obtain)
  then obtain reqs' where run: "run_spf (p2p_world 10, sample_table ?r) = Some ((w', [(lan_network, b)]), reqs')"
    by (auto simp: run_spf_def table_update_def Let_def)
  have "map_option snd (run_spf (p2p_world 10, sample_table ?r)) = Some [Route_Replace lan_network [(167772162, 2)] (Some 15)]"
    by code_simp
  then have reqs: "reqs' = [Route_Replace lan_network [(167772162, 2)] (Some 15)]" using run by simp
  have "kernel_frame sample_kernel"
    unfolding kernel_frame_def by (intro allI) (case_tac q; auto)
  moreover have "keyed (sample_table ?r)" by code_simp
  moreover have "map_of (sample_table ?r) lan_network = Some ?r" "ro_cost ?r = 20"
    by (simp_all add: sample_table_def sample_route_def)
  ultimately have "fold sample_kernel reqs' [(lan_network, 20) \<mapsto> [(3, 2)]] (lan_network, 20)
      = [(lan_network, 20) \<mapsto> [(3, 2)]] (lan_network, 20)"
    using stale_kernel_routes [OF _ _ run, of sample_kernel lan_network ?r b] b by simp
  then show ?thesis using run reqs by auto
qed

end
