(* ===== verification/Instance_Correct.thy ===== *)
theory Instance_Correct
  imports Sample_Daemon Flooding_Correct Routes_Correct
begin

text \<open>
  What holds in every state of a running daemon: the start establishes the invariants of the
  neighbour tables, the interfaces and the database, and every step keeps them.
\<close>

section \<open>The invariant\<close>

definition state_ok :: "world \<Rightarrow> bool" where
  "state_ok w \<longleftrightarrow> world_ok w \<and> db_ok w"

abbreviation keeps_state :: "'a M \<Rightarrow> bool" where
  "keeps_state \<equiv> keeps state_ok"

named_theorems state_intros \<open>computations that keep the invariant\<close>

lemma state_of: "keeps_ok m \<Longrightarrow> keeps_db m \<Longrightarrow> keeps_state m"
  by (simp add: keeps_def state_ok_def)

lemma state_mod:
  assumes "\<And>w. w_intfs (f w) = w_intfs w" and "\<And>w. lsdb_ok (w_lsdb w) \<Longrightarrow> lsdb_ok (w_lsdb (f w))"
  shows "keeps_state (modM f)"
  using assms by (intro keeps_mod) (simp add: state_ok_def world_ok_def db_ok_def)

lemma new_interface_ok: "intf_ok ((interface_create attrs clock)\<lparr>is_socket := s\<rparr>)"
  by (simp add: intf_ok_def interface_create_def intf_attrs.extend_def ospf_interface.defs)

lemma state_append: "keeps_state (modM (\<lambda>w. w\<lparr>w_intfs := w_intfs w @ [(interface_create attrs clock)\<lparr>is_socket := s\<rparr>]\<rparr>))"
  using new_interface_ok by (intro keeps_mod) (simp add: state_ok_def world_ok_def db_ok_def)

lemma state_handlers [state_intros]:
  "keeps_state (process_hello i hello src rid)" "keeps_state (process_dd i r dd)"
  "keeps_state (process_ls_request i r items)" "keeps_state (process_ls_ack i r hs)"
  "keeps_state (receive_lsu i r lsas)" "keeps_state (intf_event i e)" "keeps_state (interface_shutdown i)"
  by (intro state_of process_hello_ok process_dd_ok process_ls_request_ok process_ls_ack_ok ok_receive_lsu
      intf_event_ok interface_shutdown_ok db_intros)+

lemma state_timers [state_intros]:
  "keeps_state (fire_wait_timer i)" "keeps_state (fire_hello_timer i)" "keeps_state (fire_ack_timer i)"
  "keeps_state (fire_inactivity_timer i r)" "keeps_state (fire_rxmt_timer i r)" "keeps_state (fire_dd_rxmt_timer i r)"
  by (intro state_of fire_interface_timers_ok fire_neighbor_timers_ok db_intros)+

lemma state_lsas [state_intros]:
  "keeps_state (originate_router_lsa area)" "keeps_state (run_router_lsa_timer area)"
  "keeps_state (run_network_lsa_timer i)" "keeps_state check_ages" "keeps_state (installM area l)"
  "keeps_state (flood_lsa area key recv)"
  by (intro state_of keeps_intros db_intros)+

lemma state_ignore [state_intros]: "keeps_state m \<Longrightarrow> keeps_state (ignoreM m)"
  unfolding ignoreM_def by (intro keeps_intros)

lemma state_if_neighbor [state_intros]: "keeps_state m \<Longrightarrow> keeps_state (if_neighbor i r m)"
  unfolding if_neighbor_def by (intro keeps_intros)

lemma state_receive [state_intros]: "keeps_state (receive_packet i datagram src)"
  unfolding receive_packet_def dispatch_def
  by (intro keeps_intros state_intros keeps_case_option keeps_case_prod)

section \<open>Starting\<close>

lemma state_setup_interface [state_intros]: "keeps_state (setup_interface env c a)"
  unfolding setup_interface_def Let_def
  by (intro keeps_intros keeps_case_option state_append) (auto split: list.split intro!: keeps_intros state_append)

lemma state_setup_interfaces [state_intros]: "keeps_state (setup_interfaces env cs a)"
  by (induction cs arbitrary: a) (auto intro!: keeps_intros state_intros)

lemma state_setup_area [state_intros]: "keeps_state (setup_area env c)"
  unfolding setup_area_def Let_def
  by (intro keeps_intros state_intros state_mod) (simp_all add: lsdb_ok_ensure_area)

lemma state_originate_opaque [state_intros]: "keeps_state (originate_opaque area i body)"
  unfolding originate_opaque_def by (intro keeps_intros state_intros keeps_case_prod)

lemma state_originate_sr [state_intros]:
  "keeps_state (originate_ri_lsa srgb area)" "keeps_state (originate_prefix_sid_lsa area net n)"
  unfolding originate_ri_lsa_def originate_prefix_sid_lsa_def by (intro keeps_intros state_intros)+

lemma state_start_sr [state_intros]: "keeps_state (start_sr c areas)"
  unfolding start_sr_def originate_node_sid_def by (intro keeps_intros state_intros)

lemma state_start: "keeps_state (start env cfg)"
  unfolding start_def
  by (intro keeps_intros state_intros state_mod) (simp_all add: lsdb_ok_def empty_lsdb_def table_ok_def)

lemma new_instance_ok: "state_ok (new_instance cfg now entropy md5)"
  by (simp add: new_instance_def state_ok_def world_ok_def db_ok_def lsdb_ok_def empty_lsdb_def table_ok_def)

section \<open>Every reachable state\<close>

definition daemon_ok :: "daemon \<Rightarrow> bool" where
  "daemon_ok d \<longleftrightarrow> state_ok (dm_world d) \<and> keyed (dm_table d)"

lemma boot_ok: "boot env cfg now entropy md5 = Some d \<Longrightarrow> daemon_ok d"
proof -
  assume b: "boot env cfg now entropy md5 = Some d"
  have "state_ok (snd (start env cfg (new_instance cfg now entropy md5)))"
    by (rule keeps_run [OF state_start new_instance_ok])
  then show "daemon_ok d" using b by (auto simp: boot_def daemon_ok_def keyed_def split: prod.splits sum.splits)
qed

lemma handle_ok: "keeps_state (handle x)"
  by (cases x) (simp_all add: state_intros)

lemma run_spf_world:
  assumes "run_spf (w, t) = Some ((w', t'), reqs)"
  shows "w' = w\<lparr>w_spf_pending := False, w_spf_due := None, w_last_spf_time := w_now w\<rparr>"
  using assms by (auto simp: run_spf_def table_update_def Let_def)

lemma fire_spf_cases:
  assumes "fire_spf d = Some d'"
  obtains w t reqs where "run_spf (dm_world d, dm_table d) = Some ((w, t), reqs)" and "dm_world d' = w" and "dm_table d' = t"
  using assms by (auto simp: fire_spf_def split: option.splits prod.splits)

lemma daemon_step_ok:
  assumes "daemon_step d d'" and "daemon_ok d"
  shows "daemon_ok d'"
  using assms
proof (induction rule: daemon_step.induct)
  case (handles x d y w)
  then show ?case using keepsD [OF handle_ok] by (auto simp: daemon_ok_def)
next
  case (spf d d')
  obtain w t reqs where run: "run_spf (dm_world d, dm_table d) = Some ((w, t), reqs)" "dm_world d' = w" "dm_table d' = t"
    using spf.hyps by (rule fire_spf_cases)
  then show ?case using spf.prems run_spf_world [OF run(1)] run_spf_keyed [OF run(1)]
    by (simp add: daemon_ok_def state_ok_def world_ok_def db_ok_def)
next
  case (waits t d)
  then show ?case by (simp add: daemon_ok_def state_ok_def world_ok_def db_ok_def)
qed

definition running :: "sys_env \<Rightarrow> ospf_config \<Rightarrow> daemon \<Rightarrow> bool" where
  \<comment> \<open>reached by a daemon started with this configuration on this system\<close>
  "running env cfg d \<longleftrightarrow> (\<exists>now entropy md5 d0. boot env cfg now entropy md5 = Some d0 \<and> daemon_step\<^sup>*\<^sup>* d0 d)"

lemma running_ok: "running env cfg d \<Longrightarrow> daemon_ok d"
proof -
  have "daemon_step\<^sup>*\<^sup>* d0 d \<Longrightarrow> daemon_ok d0 \<Longrightarrow> daemon_ok d" for d0
    by (induction rule: rtranclp_induct) (auto intro: daemon_step_ok)
  then show "running env cfg d \<Longrightarrow> daemon_ok d" using boot_ok by (auto simp: running_def)
qed

lemma handled_steps: "daemon_step\<^sup>*\<^sup>* d (fold (\<lambda>x d. d\<lparr>dm_world := snd (handle x (dm_world d))\<rparr>) xs d)"
proof (induction xs arbitrary: d)
  case (Cons x xs)
  let ?d = "d\<lparr>dm_world := snd (handle x (dm_world d))\<rparr>"
  have "daemon_step d ?d" by (rule daemon_step.handles [of x d "fst (handle x (dm_world d))"]) simp
  then show ?case using Cons [of ?d] by (simp add: converse_rtranclp_into_rtranclp)
qed simp

section \<open>The sample runs\<close>

lemma running_inputs:
  "boot env cfg now entropy md5 = Some d \<Longrightarrow> running env cfg (run_inputs xs d)"
  unfolding running_def run_inputs_def using handled_steps by blast

lemma sample_running:
  "sample_daemon intf_type \<noteq> None \<Longrightarrow> running sample_system (sample_config 1 intf_type) (sample_run intf_type xs)"
  using running_inputs by (fastforce simp: sample_daemon_def sample_run_def split: option.split)

lemma table_ok_header:
  "table_ok ext db \<longleftrightarrow> distinct (map fst db) \<and> length db \<le> 10000
     \<and> list_all (\<lambda>(k, l). k = (lh_ls_type (l_header l), lh_link_state_id (l_header l),
          lh_advertising_router (l_header l)) \<and> is_external_type (lh_ls_type (l_header l)) = ext) db"
  by (auto simp: table_ok_def list_all_iff lsa_key_def lsa_header_key_def)

section \<open>Properties\<close>

text \<open>
  C4. Whatever packets arrive, timers fire and interface events happen after a start, in any order,
  and whatever of it raises: on every interface the neighbour table has distinct keys and at most 128
  entries, each neighbour stands under its own router id, a neighbour below Exchange has empty summary,
  request and retransmission lists, a Full neighbour has nothing left to request, a neighbour below
  ExStart remembers no database description of an earlier exchange, and no retransmission list
  exceeds its 1000 entries.
\<close>
theorem neighbor_tables_consistent:
  assumes "running env cfg d" and "i < length (w_intfs (dm_world d))"
  shows "distinct (map fst (is_neighbors (intf_at (dm_world d) i)))
    \<and> length (is_neighbors (intf_at (dm_world d) i)) \<le> 128
    \<and> list_all (\<lambda>(r, n). nb_router_id n = r
        \<and> (nb_state n < Nbr_Exchange \<longrightarrow> nb_db_summary_list n = [] \<and> nb_ls_request_list n = []
             \<and> nb_ls_retransmission_list n = [])
        \<and> (nb_state n = Nbr_Full \<longrightarrow> nb_ls_request_list n = [])
        \<and> (nb_state n < Nbr_ExStart \<longrightarrow> nb_last_received_dd n = None)
        \<and> length (nb_ls_retransmission_list n) \<le> 1000) (is_neighbors (intf_at (dm_world d) i))"
proof -
  have "intf_ok (intf_at (dm_world d) i)"
    using running_ok [OF assms(1)] assms(2) by (simp add: daemon_ok_def state_ok_def world_ok_intf)
  then show ?thesis by (simp add: intf_ok_def nbr_ok_def)
qed

theorem neighbor_tables_consistent_witness:
  "map nb_state (map snd (is_neighbors (intf_at (dm_world (sample_run 1 [Datagram_In 0 hello_datagram 167772162])) 0)))
      = [Nbr_ExStart]
   \<and> distinct (map fst (is_neighbors (intf_at (dm_world (sample_run 1 [Datagram_In 0 hello_datagram 167772162])) 0)))
   \<and> list_all (\<lambda>(r, n). nb_db_summary_list n = [])
       (is_neighbors (intf_at (dm_world (sample_run 1 [Datagram_In 0 hello_datagram 167772162])) 0))"
proof -
  let ?d = "sample_run 1 [Datagram_In 0 hello_datagram 167772162]"
  have "sample_daemon 1 \<noteq> None" by code_simp
  moreover have "sample_view ?d = (If_P2P, [Nbr_ExStart], 167772161, 1, [0], 1)" by code_simp
  ultimately show ?thesis
    using neighbor_tables_consistent [OF sample_running, of 1 0 "[Datagram_In 0 hello_datagram 167772162]"]
    by (auto simp: list_all_iff nbr_order sample_view_def Let_def)
qed

text \<open>
  C27. An interface in state DR or Backup of a running daemon is the one its own view of the
  segment names: in state DR its DR address is its own, in state Backup its backup address is its
  own and another router is DR.
\<close>
theorem interface_state_names_itself:
  assumes "running env cfg d" and "i < length (w_intfs (dm_world d))"
  shows "(is_state (intf_at (dm_world d) i) = If_DR \<longrightarrow> is_dr (intf_at (dm_world d) i) = if_ip_addr (intf_at (dm_world d) i))
    \<and> (is_state (intf_at (dm_world d) i) = If_Backup \<longrightarrow> is_bdr (intf_at (dm_world d) i) = if_ip_addr (intf_at (dm_world d) i)
         \<and> is_dr (intf_at (dm_world d) i) \<noteq> if_ip_addr (intf_at (dm_world d) i))"
proof -
  have "intf_ok (intf_at (dm_world d) i)"
    using running_ok [OF assms(1)] assms(2) by (simp add: daemon_ok_def state_ok_def world_ok_intf)
  then show ?thesis by (simp add: intf_ok_def)
qed

theorem interface_state_names_itself_witness:
  "is_state (intf_at (dm_world (sample_run 2 [Wait_Fires 0])) 0) = If_DR
   \<and> is_dr (intf_at (dm_world (sample_run 2 [Wait_Fires 0])) 0) = 167772161"
proof -
  let ?d = "sample_run 2 [Wait_Fires 0]"
  have "sample_daemon 2 \<noteq> None" by code_simp
  moreover have "sample_view ?d = (If_DR, [], 167772161, 1, [0], 1)" by code_simp
  ultimately show ?thesis
    using interface_state_names_itself [OF sample_running, of 2 0 "[Wait_Fires 0]"]
    by (auto simp: sample_view_def Let_def)
qed

text \<open>
  C14. The stored data of a running daemon is well formed: the database has one table for each area and
  one for the AS, of at most 10000 entries with distinct keys, each LSA under the type, link state id
  and advertising router of its own header, AS-external ones in the AS table and no others there; every
  route of the routing table stands under its own destination.
\<close>
theorem stored_data_well_formed:
  assumes "running env cfg d"
  shows "distinct (map fst (ld_areas (w_lsdb (dm_world d))))
    \<and> list_all (\<lambda>(area, db). distinct (map fst db) \<and> length db \<le> 10000
        \<and> list_all (\<lambda>(k, l). k = (lh_ls_type (l_header l), lh_link_state_id (l_header l),
             lh_advertising_router (l_header l)) \<and> \<not> is_external_type (lh_ls_type (l_header l))) db)
        (ld_areas (w_lsdb (dm_world d)))
    \<and> distinct (map fst (ld_external (w_lsdb (dm_world d)))) \<and> length (ld_external (w_lsdb (dm_world d))) \<le> 10000
    \<and> list_all (\<lambda>(k, l). k = (lh_ls_type (l_header l), lh_link_state_id (l_header l),
         lh_advertising_router (l_header l)) \<and> is_external_type (lh_ls_type (l_header l)))
        (ld_external (w_lsdb (dm_world d)))
    \<and> list_all (\<lambda>(dest, r). ro_destination r = dest) (dm_table d)"
  using running_ok [OF assms]
  by (simp add: daemon_ok_def state_ok_def db_ok_def lsdb_ok_def table_ok_header keyed_def)

theorem stored_data_well_formed_witness:
  "map fst (ld_areas (w_lsdb (dm_world (sample_run 1 [])))) = [0]
   \<and> length (area_db 0 (w_lsdb (dm_world (sample_run 1 [])))) = 1
   \<and> distinct (map fst (ld_external (w_lsdb (dm_world (sample_run 1 [])))))"
proof -
  have "sample_daemon 1 \<noteq> None" by code_simp
  moreover have "sample_view (sample_run 1 []) = (If_P2P, [], 167772161, 1, [0], 1)" by code_simp
  ultimately show ?thesis
    using stored_data_well_formed [OF sample_running, of 1 "[]"] by (simp add: sample_view_def Let_def)
qed

end
