(* ===== verification/World_Frame.thy ===== *)
theory World_Frame
  imports Instance_Correct
begin

text \<open>
  What no handler of the daemon touches: its areas with the list of interfaces of each, its router id
  and the parameters it was started with. So the interfaces that the shutdown goes through are always
  there, and the shutdown cannot fail.
\<close>

section \<open>What the handlers are made of\<close>

text \<open>
  Receiving, flooding, origination, ageing and segment routing reach interfaces and neighbours only
  through the computations named here: a predicate they keep, and that does not look at the database,
  is kept by every input of the daemon.
\<close>

locale handler_frame =
  fixes P :: "world \<Rightarrow> bool"
  assumes keeps_schedule: "\<And>a. keeps P (schedule_router_lsa a)" "\<And>i. keeps P (schedule_network_lsa i)"
      "keeps P schedule_spf"
    and keeps_send: "\<And>i t b dest. keeps P (send_packet i t b dest)"
    and keeps_events: "\<And>i r. keeps P (nbr_event i r Kill_Nbr)" "\<And>i r. keeps P (nbr_event i r Bad_Ls_Req)"
      "\<And>i e. keeps P (intf_event i e)"
    and keeps_retransmission: "\<And>i r f. keeps P (set_nbr i r (nb_ls_retransmission_list_update f))"
    and keeps_acks: "\<And>i h. keeps P (queue_delayed_ack i h)"
    and keeps_packets: "\<And>i hello src rid. keeps P (process_hello i hello src rid)"
      "\<And>i r dd. keeps P (process_dd i r dd)" "\<And>i r keys. keeps P (process_ls_update i r keys)"
      "\<And>i r hs. keeps P (process_ls_ack i r hs)"
    and keeps_timers: "\<And>i. keeps P (fire_wait_timer i)" "\<And>i. keeps P (fire_hello_timer i)"
      "\<And>i. keeps P (fire_ack_timer i)" "\<And>i r. keeps P (fire_inactivity_timer i r)"
      "\<And>i r. keeps P (fire_rxmt_timer i r)" "\<And>i r. keeps P (fire_dd_rxmt_timer i r)"
    and keeps_shutdown: "\<And>i. keeps P (interface_shutdown i)"
    and respects_pending: "\<And>f w. P w \<Longrightarrow> P (w_router_lsa_pending_update f w)"
      "\<And>f w. P w \<Longrightarrow> P (w_network_lsa_pending_update f w)"
    and respects_lsdb: "\<And>f w. P w \<Longrightarrow> P (w_lsdb_update f w)"
    and respects_last_origination: "\<And>f w. P w \<Longrightarrow> P (w_last_origination_update f w)"
begin

lemmas handler_intros = keeps_intros keeps_schedule keeps_send keeps_events keeps_retransmission keeps_acks
  keeps_packets keeps_timers keeps_shutdown

lemma handles_serialize:
  "keeps P (serialize_stored_lsas area ls)" "keeps P (serialize_flooded area key)"
proof -
  show "keeps P (serialize_stored_lsas area ls)" for ls
    unfolding serialize_stored_lsas_def by (intro keeps_intros keeps_case_prod keeps_mod respects_lsdb)
  then show "keeps P (serialize_flooded area key)"
    unfolding serialize_flooded_def by (intro keeps_intros)
qed

lemma handles_installM: "keeps P (installM area l)"
proof -
  have "w_lsdb_update (\<lambda>_. d) w = w\<lparr>w_lsdb := d\<rparr>" for d w by simp
  then show ?thesis using respects_lsdb by (auto simp: keeps_def installM_def split: prod.split)
qed

lemma handles_update:
  "keeps P (send_ls_update area i r ls)" "keeps P (process_ls_request i r items)"
  unfolding process_ls_request_def send_ls_update_def
  by (intro handler_intros handles_serialize keeps_case_option)+

lemma handles_enlist: "keeps P (enlist area key i rs)" "keeps P (acknowledge h i r)"
proof -
  show "keeps P (enlist area key i rs)"
    by (induction rs) (simp_all only: enlist.simps, (intro handler_intros | assumption)+)
  show "keeps P (acknowledge h i r)"
    unfolding acknowledge_def send_direct_ack_def by (intro handler_intros)
qed

lemma handles_flood:
  "keeps P (flood_to_interface area key i)" "keeps P (flood_back_to_source area key i)"
  "keeps P (flood_lsa area key recv)"
  unfolding flood_lsa_def flood_to_interface_def flood_back_to_source_def Let_def
  by (intro handler_intros handles_serialize handles_enlist)+

lemmas lsa_intros = handler_intros handles_serialize handles_installM handles_update handles_enlist handles_flood

lemma handles_originate: "keeps P (originate area ty i b s)"
  unfolding originate_def Let_def
  by (intro lsa_intros keeps_case_option keeps_case_prod keeps_mod respects_last_origination)

lemma handles_originate_lsas:
  "keeps P (originate_router_lsa area)" "keeps P (originate_network_lsa i)" "keeps P (refresh_lsa area l)"
  unfolding originate_router_lsa_def originate_network_lsa_def refresh_lsa_def Let_def
  by (intro keeps_intros handles_originate keeps_case_option)+

lemma handles_lsa_timers: "keeps P (run_router_lsa_timer area)" "keeps P (run_network_lsa_timer i)"
  unfolding run_router_lsa_timer_def run_network_lsa_timer_def
  by (intro keeps_intros handles_originate_lsas keeps_mod, erule respects_pending)+

lemma handles_receive_lsu:
  "keeps P (process_received_lsa l i r area)" "keeps P (receive_lsu i r lsas)"
proof -
  show "keeps P (process_received_lsa l i r area)" for l area
    unfolding process_received_lsa_def Let_def
    by (intro lsa_intros handles_originate_lsas keeps_case_option keeps_mod respects_lsdb)
  then show "keeps P (receive_lsu i r lsas)"
    unfolding receive_lsu_def by (intro handler_intros)
qed

lemma handles_ageing: "keeps P (flush_maxage_lsa l area)" "keeps P check_ages"
proof -
  show flush: "keeps P (flush_maxage_lsa l area)" for l area
    unfolding flush_maxage_lsa_def by (intro lsa_intros keeps_case_option keeps_mod respects_lsdb)
  show "keeps P check_ages" unfolding check_ages_def by (intro keeps_intros handles_originate_lsas flush)
qed

lemma handles_receive: "keeps P (receive_packet i datagram src)"
  unfolding receive_packet_def dispatch_def if_neighbor_def
  by (intro lsa_intros handles_receive_lsu keeps_case_option keeps_case_prod)

lemma handles_input: "keeps P (handle x)"
  by (cases x) (simp_all only: handle.simps ignoreM_def,
    (intro handler_intros handles_receive handles_lsa_timers handles_ageing)+)

lemma handles_start_sr: "keeps P (start_sr c areas)"
  unfolding start_sr_def originate_node_sid_def originate_ri_lsa_def originate_prefix_sid_lsa_def
    originate_opaque_def ignoreM_def
  by (intro lsa_intros keeps_case_prod)

end

text \<open>A predicate that respects all writes to interfaces is one of these.\<close>

locale world_frame = interface_frame +
  assumes frame_lsdb: "\<And>f w. P w \<Longrightarrow> P (w_lsdb_update f w)"
    and frame_last_origination: "\<And>f w. P w \<Longrightarrow> P (w_last_origination_update f w)"

sublocale world_frame \<subseteq> handler_frame
  by unfold_locales (intro leaves_intros frame_lsa_pending frame_lsdb frame_last_origination, assumption?)+

section \<open>The areas list interfaces that exist\<close>

definition lists_valid :: "world \<Rightarrow> ospf_area \<Rightarrow> bool" where
  "lists_valid w a \<longleftrightarrow> list_all (\<lambda>i. i < length (w_intfs w)) (ar_interfaces a)"

definition areas_ok :: "world \<Rightarrow> bool" where
  "areas_ok w \<longleftrightarrow> list_all (\<lambda>(_, a). lists_valid w a) (w_areas w)"

lemma areas_ok_cong:
  "areas_ok w \<Longrightarrow> w_areas w' = w_areas w \<Longrightarrow> length (w_intfs w') = length (w_intfs w) \<Longrightarrow> areas_ok w'"
  by (simp add: areas_ok_def lists_valid_def)

interpretation areas: world_frame areas_ok
  by unfold_locales (erule areas_ok_cong; simp add: upd_intf_def)+

lemma lists_valid_more: "lists_valid w a \<Longrightarrow> length (w_intfs w) \<le> length (w_intfs w') \<Longrightarrow> lists_valid w' a"
  by (auto simp: lists_valid_def list_all_iff)

lemma areas_ok_update:
  assumes "areas_ok w" and "lists_valid w a" and "w_intfs w' = w_intfs w" and "w_areas w' = AList.update k a (w_areas w)"
  shows "areas_ok w'"
proof -
  have "set (AList.update k a l) \<subseteq> insert (k, a) (set l)" for l :: "(ipv4 \<times> ospf_area) list"
    by (induction l) auto
  then show ?thesis using assms by (fastforce simp: areas_ok_def lists_valid_def list_all_iff)
qed

lemma setup_interface_lists:
  assumes "areas_ok w" and "lists_valid w a" and "setup_interface env c a w = (x, w')"
  shows "areas_ok w' \<and> (\<forall>a'. x = Inr a' \<longrightarrow> lists_valid w' a')"
proof -
  have grown: "areas_ok (w\<lparr>w_intfs := w_intfs w @ [it]\<rparr>)" "lists_valid (w\<lparr>w_intfs := w_intfs w @ [it]\<rparr>)
      (area_add_interface (length (w_intfs w)) a)" for it
    using assms(1,2) by (fastforce simp: areas_ok_def lists_valid_def area_add_interface_def list_all_iff)+
  show ?thesis
    using assms grown
    by (auto simp: setup_interface_def monad_defs Let_def split: option.splits list.splits prod.splits sum.splits if_splits)
qed

lemma setup_interfaces_lists:
  assumes "areas_ok w" and "lists_valid w a" and "setup_interfaces env cs a w = (x, w')"
  shows "areas_ok w' \<and> (\<forall>a'. x = Inr a' \<longrightarrow> lists_valid w' a')"
  using assms
proof (induction cs arbitrary: w a)
  case (Cons c cs)
  obtain y w1 where s: "setup_interface env c a w = (y, w1)" by fastforce
  note one = setup_interface_lists [OF Cons.prems(1,2) s]
  show ?case
  proof (cases y)
    case (Inl e)
    then have "x = Inl e" "w' = w1" using s Cons.prems(3) by (simp_all add: bindM_def)
    then show ?thesis using one by simp
  next
    case (Inr a1)
    then show ?thesis using one s Cons.prems(3) Cons.IH [of w1 a1] by (simp add: bindM_def)
  qed
qed (auto simp: retM_def)

lemma setup_area_areas: "keeps areas_ok (setup_area env c)"
  unfolding keeps_def
proof (intro allI impI)
  fix w assume ok: "areas_ok w"
  let ?a = "area_from_config c"
  let ?w = "w\<lparr>w_areas := AList.update (ar_area_id ?a) ?a (w_areas w), w_lsdb := ensure_area (ar_area_id ?a) (w_lsdb w)\<rparr>"
  have a: "lists_valid v ?a" for v by (simp add: lists_valid_def area_from_config_def area_create_def)
  have w: "areas_ok ?w" by (rule areas_ok_update [OF ok a, where k = "ar_area_id ?a"]) simp_all
  obtain x w' where s: "setup_interfaces env (acf_interfaces c) ?a ?w = (x, w')" by fastforce
  note lists = setup_interfaces_lists [OF w a s]
  have "areas_ok (w'\<lparr>w_areas := AList.update (ar_area_id a') a' (w_areas w')\<rparr>)" if "x = Inr a'" for a'
    using lists that by (auto intro: areas_ok_update [of w' a' _ "ar_area_id a'"])
  then show "areas_ok (snd (setup_area env c w))"
    unfolding setup_area_def Let_def seq_modM bindM_def [of "setup_interfaces _ _ _"] s
    using lists by (cases x) (simp_all add: modM_def)
qed

lemma start_areas: "keeps areas_ok (start env cfg)"
  unfolding start_def ignoreM_def
  by (intro keeps_intros areas.handler_intros setup_area_areas areas.handles_originate_lsas areas.handles_start_sr keeps_mod)
    (erule areas_ok_cong; simp)

section \<open>Every reachable state\<close>

lemma areas_step: "daemon_step d1 d2 \<Longrightarrow> areas_ok (dm_world d1) \<Longrightarrow> areas_ok (dm_world d2)"
proof (induction rule: daemon_step.induct)
  case (handles x d y w)
  then show ?case using keepsD [OF areas.handles_input] by simp
next
  case (spf d d')
  obtain w t reqs where run: "run_spf (dm_world d, dm_table d) = Some ((w, t), reqs)" "dm_world d' = w"
    using spf.hyps by (rule fire_spf_cases)
  show ?case by (rule areas_ok_cong [OF spf.prems]) (simp_all add: run(2) run_spf_world [OF run(1)])
next
  case (waits t d)
  show ?case by (rule areas_ok_cong [OF waits.prems]) simp_all
qed

lemma areas_steps: "daemon_step\<^sup>*\<^sup>* d0 d \<Longrightarrow> areas_ok (dm_world d0) \<Longrightarrow> areas_ok (dm_world d)"
  by (induction rule: rtranclp_induct) (auto intro: areas_step)

section \<open>The shutdown completes\<close>

definition close_interface :: "ospf_interface \<Rightarrow> ospf_interface" where
  \<comment> \<open>what a shutdown makes of an interface\<close>
  "close_interface it = it\<lparr>is_hello_timer := pt_stop (is_hello_timer it),
     is_wait_timer := os_cancel (is_wait_timer it), is_ack_timer := pt_stop (is_ack_timer it),
     is_neighbors := [], is_socket := None\<rparr>"

lemma upd_intf_twice:
  "upd_intf i f (upd_intf i g w) = upd_intf i (\<lambda>it. f (g it)) w"
  by (cases "i < length (w_intfs w)") (simp_all add: upd_intf_def list_update_beyond)

lemma upd_intf_length: "length (w_intfs (upd_intf i f w)) = length (w_intfs w)"
  by (simp add: upd_intf_def)

lemma forM_set_nbr:
  "\<exists>g. forM rs (\<lambda>r. set_nbr i r f) w = (Inr (), upd_intf i (\<lambda>it. it\<lparr>is_neighbors := g (is_neighbors it)\<rparr>) w)"
proof (induction rs arbitrary: w)
  case Nil
  have "upd_intf i (\<lambda>it. it\<lparr>is_neighbors := is_neighbors it\<rparr>) w = w" by (simp add: upd_intf_def)
  then show ?case by (intro exI [of _ "\<lambda>ns. ns"]) (simp add: retM_def)
next
  case (Cons r rs)
  obtain g where "forM rs (\<lambda>r. set_nbr i r f) (upd_nbr i r f w)
      = (Inr (), upd_intf i (\<lambda>it. it\<lparr>is_neighbors := g (is_neighbors it)\<rparr>) (upd_nbr i r f w))" using Cons by blast
  then show ?case
    by (intro exI [of _ "g \<circ> AList.map_entry r f"]) (simp add: set_nbr_def seq_modM upd_nbr_def upd_intf_twice)
qed

lemma interface_shutdown_closes:
  assumes "i < length (w_intfs w)"
  shows "interface_shutdown i w = (Inr (), upd_intf i close_interface w)"
proof -
  let ?stop = "\<lambda>it. it\<lparr>is_hello_timer := pt_stop (is_hello_timer it),
     is_wait_timer := os_cancel (is_wait_timer it), is_ack_timer := pt_stop (is_ack_timer it)\<rparr>"
  let ?w = "upd_intf i ?stop w"
  obtain g where g: "forM (map fst (is_neighbors (intf_at ?w i))) (\<lambda>r. set_nbr i r nbr_destroy) ?w
      = (Inr (), upd_intf i (\<lambda>it. it\<lparr>is_neighbors := g (is_neighbors it)\<rparr>) ?w)" using forM_set_nbr by blast
  have "interface_shutdown i w = (Inr (), upd_intf i (\<lambda>it. it\<lparr>is_neighbors := [], is_socket := None\<rparr>)
      (upd_intf i (\<lambda>it. it\<lparr>is_neighbors := g (is_neighbors it)\<rparr>) ?w))"
    using assms g unfolding interface_shutdown_def stop_all_def set_intf_def seq_modM
    by (simp add: seqM_def bindM_def get_intf_def upd_intf_length) (simp add: modM_def)
  then show ?thesis by (simp add: upd_intf_twice close_interface_def [abs_def])
qed

lemma shutdown_interfaces:
  "list_all (\<lambda>i. i < length (w_intfs w)) is \<Longrightarrow>
     forM is interface_shutdown w = (Inr (), fold (\<lambda>i. upd_intf i close_interface) is w)"
  by (induction "is" arbitrary: w)
    (auto simp: retM_def seqM_def bindM_def interface_shutdown_closes upd_intf_length)

lemma fold_closed:
  "intf_at (fold (\<lambda>i. upd_intf i close_interface) is w) j
     = (if j \<in> set is \<and> j < length (w_intfs w) then close_interface (intf_at w j) else intf_at w j)"
proof (induction "is" arbitrary: w)
  case (Cons i "is")
  have twice: "close_interface (close_interface it) = close_interface it" for it
    by (simp add: close_interface_def pt_stop_def os_cancel_def)
  have "intf_at (upd_intf i close_interface w) j
      = (if i = j \<and> j < length (w_intfs w) then close_interface (intf_at w j) else intf_at w j)"
    by (cases "i = j") (auto simp: intf_at_def upd_intf_def list_update_beyond)
  then show ?case using Cons [of "upd_intf i close_interface w"] by (auto simp: upd_intf_length twice)
qed simp

lemma shutdown_areas:
  assumes "list_all (lists_valid w) as"
  shows "forM as area_shutdown w
    = (Inr (), fold (\<lambda>i. upd_intf i close_interface) (concat (map ar_interfaces as)) w)"
  using assms
proof (induction as arbitrary: w)
  case (Cons a as)
  let ?w = "fold (\<lambda>i. upd_intf i close_interface) (ar_interfaces a) w"
  have len: "length (w_intfs (fold (\<lambda>i. upd_intf i close_interface) is v)) = length (w_intfs v)" for "is" v
    by (induction "is" arbitrary: v) (simp_all add: upd_intf_length)
  have "area_shutdown a w = (Inr (), ?w)"
    using Cons.prems by (simp add: area_shutdown_def lists_valid_def shutdown_interfaces)
  moreover have "list_all (lists_valid ?w) as" using Cons.prems by (simp add: lists_valid_def [abs_def] len)
  ultimately show ?case using Cons.IH [of ?w] by (simp add: seqM_def bindM_def)
qed (simp add: retM_def)

lemma shutdown_completes:
  assumes "areas_ok (dm_world d)"
  obtains d' where "shutdown routes d = (Inr (), d')"
    and "dm_requests d' = dm_requests d @ flush_ospf_routes routes"
    and "w_spf_due (dm_world d') = None" "w_router_lsa_pending (dm_world d') = []" "w_network_lsa_pending (dm_world d') = []"
    and "\<And>area a i. (area, a) \<in> set (w_areas (dm_world d)) \<Longrightarrow> i \<in> set (ar_interfaces a) \<Longrightarrow>
      intf_at (dm_world d') i = close_interface (intf_at (dm_world d) i)"
proof -
  let ?w = "(dm_world d)\<lparr>w_spf_due := None, w_router_lsa_pending := [], w_network_lsa_pending := []\<rparr>"
  let ?as = "map snd (w_areas (dm_world d))"
  let ?is = "concat (map ar_interfaces ?as)"
  let ?v = "fold (\<lambda>i. upd_intf i close_interface) ?is ?w"
  have valid: "list_all (lists_valid ?w) ?as"
    using assms by (auto simp: areas_ok_def lists_valid_def list_all_iff)
  have fields: "w_spf_due (fold (\<lambda>i. upd_intf i close_interface) is v) = w_spf_due v"
    "w_router_lsa_pending (fold (\<lambda>i. upd_intf i close_interface) is v) = w_router_lsa_pending v"
    "w_network_lsa_pending (fold (\<lambda>i. upd_intf i close_interface) is v) = w_network_lsa_pending v" for "is" v
    by (induction "is" arbitrary: v) (simp_all add: upd_intf_def)
  show ?thesis
  proof (rule that)
    show "shutdown routes d = (Inr (), d\<lparr>dm_world := ?v, dm_requests := dm_requests d @ flush_ospf_routes routes\<rparr>)"
      by (simp add: shutdown_def seq_modM shutdown_areas [OF valid])
    fix area a i assume a: "(area, a) \<in> set (w_areas (dm_world d))" and i: "i \<in> set (ar_interfaces a)"
    then have "i \<in> set ?is" "i < length (w_intfs ?w)"
      using valid by (force simp: lists_valid_def list_all_iff)+
    then show "intf_at (dm_world (d\<lparr>dm_world := ?v, dm_requests := dm_requests d @ flush_ospf_routes routes\<rparr>)) i
        = close_interface (intf_at (dm_world d) i)"
      by (simp add: fold_closed) (simp add: intf_at_def)
  qed (simp_all add: fields)
qed

end
