(* ===== verification/Nbr_Invariant.thy ===== *)
theory Nbr_Invariant
  imports World_Frame
begin

text \<open>
  What is known of every neighbour of a running daemon: who is the master of the exchange, that a
  neighbour which is not Down is watched by its inactivity timer, and where the timer that repeats
  database descriptions runs. The invariant is kept by every handler, whatever arrives and whatever
  raises.
\<close>

section \<open>What the cascade of events is made of\<close>

text \<open>
  The state machines of neighbours and interfaces call each other. A predicate that the sending, the
  writes to interfaces, the fall of a neighbour and the actions of the allowed events keep, is kept by
  the whole cascade.
\<close>

locale cascade_frame =
  fixes P :: "world \<Rightarrow> bool" and allowed :: "nat \<Rightarrow> ipv4 \<Rightarrow> nbr_evt \<Rightarrow> bool"
  assumes sending: "\<And>a. keeps P (schedule_router_lsa a)" "\<And>i. keeps P (schedule_network_lsa i)"
      "\<And>i. keeps P (start_hello i)" "\<And>i. keeps P (stop_all i)"
    and interfaces: "\<And>i f. (\<And>it. (is_neighbors (f it) = is_neighbors it \<or> is_neighbors (f it) = []) \<and> if_dead_interval (f it) = if_dead_interval it) \<Longrightarrow> keeps P (set_intf i f)"
    and falling: "\<And>i r. keeps P (set_nbr i r go_down_reset)"
    and action: "\<And>w i r e n a. P w \<Longrightarrow> nbr_at w i r = Some n \<Longrightarrow> nbr_fsm (nb_state n) e = Some a \<Longrightarrow> allowed i r e
      \<Longrightarrow> P (snd (run_nbr_action i r a w))"
    and allowed: "allowed i r Kill_Nbr" "allowed i r Adj_Ok"
begin

definition permitted :: "call \<Rightarrow> bool" where
  "permitted c = (case c of Neighbor_Event i r e \<Rightarrow> allowed i r e | _ \<Rightarrow> True)"

lemma permitted_simps [simp]: "permitted (Neighbor_Event i r e) = allowed i r e"
  "permitted (Neighbor_State_Changed i r old)" "permitted (Interface_Event i e')" "permitted (Run_Dr_Election i)"
  by (simp_all add: permitted_def)

lemma event_on_neighbor:
  assumes k: "\<And>j s old. keeps P (k (Neighbor_State_Changed j s old))" and ok: "P w"
    and act: "\<And>n a. nbr_at w i r = Some n \<Longrightarrow> nbr_fsm (nb_state n) e = Some a \<Longrightarrow> P (snd (run_nbr_action i r a w))"
  shows "P (snd (neighbor_event k i r e w))"
proof (cases "nbr_at w i r")
  case None
  then show ?thesis using ok by (simp add: neighbor_event_def bindM_def get_nbr_def)
next
  case n: (Some n)
  let ?first = "case nbr_fsm (nb_state n) e of
          Some a \<Rightarrow> run_nbr_action i r a
        | None \<Rightarrow>
            if e = Kill_Nbr \<or> e = LL_Down \<or> e = Inactivity_Timer
            then seqM (set_nbr i r go_down_reset)
              (whenM (nb_state n \<noteq> Nbr_Down) (k (Neighbor_State_Changed i r (nb_state n))))
            else retM ()"
  let ?rest = "bindM (get_nbr i r) (\<lambda>n'.
          whenM (nb_state n' \<noteq> nb_state n) (k (Neighbor_State_Changed i r (nb_state n))))"
  have first: "P (snd (?first w))"
  proof (cases "nbr_fsm (nb_state n) e")
    case None
    show ?thesis unfolding None option.case
      by (rule keeps_run [where P = P, OF _ ok]) (intro keeps_intros falling k)
  next
    case (Some a)
    then show ?thesis using act [OF n] by simp
  qed
  have rest: "keeps P ?rest" by (intro keeps_intros k)
  have "neighbor_event k i r e w = seqM ?first ?rest w"
    using n by (simp add: neighbor_event_def bind_get_nbr Let_def)
  then show ?thesis
    using first keeps_run [OF rest] by (cases "?first w") (auto simp: seqM_def bindM_def split: sum.split)
qed

lemma calls:
  assumes k: "\<And>c. permitted c \<Longrightarrow> keeps P (k c)"
  shows "permitted c \<Longrightarrow> keeps P (run_call k c)"
proof -
  have sub: "keeps P (k (Run_Dr_Election i))" "keeps P (k (Neighbor_Event i r Kill_Nbr))" "keeps P (k (Neighbor_Event i r Adj_Ok))"
    "keeps P (k (Interface_Event i e))" "keeps P (k (Neighbor_State_Changed i r old))" for i r e old
    by (simp_all add: k allowed)
  have "keeps P (run_intf_action k i a)" for i a
    by (cases a) (simp_all only: run_intf_action.simps if_up_action_def if_down_action_def set_intf_state_def,
      (intro keeps_intros sending sub interfaces; simp add: join_group_def)+)
  then have "keeps P (case intf_fsm s e of None \<Rightarrow> retM () | Some a \<Rightarrow> run_intf_action k i a)" for s e i
    by (intro keeps_case_option keeps_intros)
  then have intf: "keeps P (interface_event k i e)" for i e
    unfolding interface_event_def intf_state_changed_def Let_def by (intro keeps_intros sending)
  have "is_neighbors (apply_election rid it) = is_neighbors it \<and> if_dead_interval (apply_election rid it) = if_dead_interval it" for rid it
    by (simp add: apply_election_def join_group_def leave_group_def Let_def split: prod.split)
  then have elect: "keeps P (run_dr_election k i)" for i
    unfolding run_dr_election_def by (intro keeps_intros sub interfaces) simp_all
  have changed: "keeps P (neighbor_state_changed k i r old)" for i r old
    unfolding neighbor_state_changed_def by (intro keeps_intros sending sub)
  assume c: "permitted c"
  show "keeps P (run_call k c)"
  proof (cases c)
    case (Neighbor_Event i r e)
    then show ?thesis using c
      by (auto simp: keeps_def intro!: event_on_neighbor [of k, OF sub(5)] intro: action)
  qed (simp_all add: intf elect changed)
qed

lemma cascading: "permitted c \<Longrightarrow> keeps P (cascade f c)"
proof (induction f arbitrary: c)
  case 0
  show ?case by (simp add: keeps_intros)
next
  case (Suc f)
  show ?case unfolding cascade.simps(2) by (rule calls [OF Suc.IH Suc.prems])
qed

lemma events: "allowed i r e \<Longrightarrow> keeps P (nbr_event i r e)" "keeps P (intf_event i e')"
  unfolding nbr_event_def intf_event_def by (rule cascading; simp)+

end

section \<open>The invariant\<close>

definition nbr_inv :: "ipv4 \<Rightarrow> time \<Rightarrow> int \<Rightarrow> ipv4 \<Rightarrow> neighbor \<Rightarrow> bool" where
  \<comment> \<open>of the neighbour with key \<open>r\<close> of the router with id \<open>rid\<close>, on an interface with that dead interval\<close>
  "nbr_inv rid now dead r n \<longleftrightarrow> nb_router_id n = r
     \<and> (Nbr_Exchange \<le> nb_state n \<longrightarrow> nb_is_master n = (r < rid))
     \<and> (nb_state n \<noteq> Nbr_Down \<longrightarrow> os_is_running (nb_inactivity_timer n))
     \<and> os_timeout (nb_inactivity_timer n) = of_int dead
     \<and> (\<forall>t. os_due (nb_inactivity_timer n) = Some t \<longrightarrow> t \<le> now + of_int dead)
     \<and> (pt_running (nb_dd_rxmt_timer n) \<longrightarrow> nb_state n = Nbr_ExStart)"

abbreviation nbr_fine :: "world \<Rightarrow> nat \<Rightarrow> ipv4 \<Rightarrow> neighbor \<Rightarrow> bool" where
  "nbr_fine w i \<equiv> nbr_inv (w_router_id w) (w_now w) (if_dead_interval (intf_at w i))"

definition nbrs_inv :: "world \<Rightarrow> bool" where
  "nbrs_inv w \<longleftrightarrow> (\<forall>i r n. nbr_at w i r = Some n \<longrightarrow> nbr_fine w i r n)"

abbreviation keeps_inv :: "'a M \<Rightarrow> bool" where
  "keeps_inv \<equiv> keeps nbrs_inv"

named_theorems inv_intros \<open>computations that keep the invariant of the neighbours\<close>

lemma nbrs_inv_cong:
  assumes "nbrs_inv w" and "w_intfs w' = w_intfs w" and "w_router_id w' = w_router_id w" and "w_now w \<le> w_now w'"
  shows "nbrs_inv w'"
proof -
  have "nbr_inv rid (w_now w') dead r n" if "nbr_inv rid (w_now w) dead r n" for rid dead r n
    using that assms(4) by (fastforce simp: nbr_inv_def)
  moreover have "intf_at w' = intf_at w" using assms(2) by (simp add: intf_at_def fun_eq_iff)
  ultimately show ?thesis using assms(1,3) nbr_at_cong [OF assms(2)] by (simp add: nbrs_inv_def)
qed

lemma inv_mod: "(\<And>w. w_intfs (f w) = w_intfs w \<and> w_router_id (f w) = w_router_id w \<and> w_now (f w) = w_now w)
    \<Longrightarrow> keeps_inv (modM f)"
  by (intro keeps_mod) (erule nbrs_inv_cong; simp)

lemma upd_nbr_id [simp]: "w_router_id (upd_nbr i r f w) = w_router_id w" "w_router_id (upd_intf i g w) = w_router_id w"
  "w_now (upd_nbr i r f w) = w_now w" "w_now (upd_intf i g w) = w_now w"
  "if_dead_interval (intf_at (upd_nbr i r f w) j) = if_dead_interval (intf_at w j)"
  by (cases "i < length (w_intfs w)"; cases "i = j";
      simp add: upd_nbr_def upd_intf_def intf_at_def list_update_beyond)+

lemma inv_upd_nbr:
  assumes "nbrs_inv w" and "\<And>n. nbr_at w i r = Some n \<Longrightarrow> nbr_fine w i r n \<Longrightarrow> nbr_fine w i r (f n)"
  shows "nbrs_inv (upd_nbr i r f w)"
  using assms by (auto simp: nbrs_inv_def)

lemma inv_set_nbr: "(\<And>rid now dead n. nbr_inv rid now dead r n \<Longrightarrow> nbr_inv rid now dead r (f n)) \<Longrightarrow> keeps_inv (set_nbr i r f)"
  by (simp add: keeps_def set_nbr_def modM_def inv_upd_nbr)

lemma nbr_at_upd_intf:
  "is_neighbors (f (intf_at w i)) = ns \<Longrightarrow> nbr_at (upd_intf i f w) j r
     = (if j = i then (if i < length (w_intfs w) then map_of ns r else None) else nbr_at w j r)"
  by (auto simp: nbr_at_def upd_intf_def intf_at_def)

lemma inv_upd_intf:
  assumes "nbrs_inv w" and "\<And>r n. i < length (w_intfs w) \<Longrightarrow> map_of (is_neighbors (f (intf_at w i))) r = Some n \<Longrightarrow>
    nbr_at w i r = Some n \<or> nbr_fine w i r n"
    and "if_dead_interval (f (intf_at w i)) = if_dead_interval (intf_at w i)"
  shows "nbrs_inv (upd_intf i f w)"
proof -
  have "if_dead_interval (intf_at (upd_intf i f w) j) = if_dead_interval (intf_at w j)" for j
    using assms(3) by (cases "i < length (w_intfs w)") (auto simp: upd_intf_def intf_at_def nth_list_update list_update_beyond)
  then show ?thesis
    unfolding nbrs_inv_def nbr_at_upd_intf [OF refl]
    using assms(1,2) by (fastforce simp: nbrs_inv_def split: if_splits)
qed

lemma inv_set_intf:
  "(\<And>it. (is_neighbors (f it) = is_neighbors it \<or> is_neighbors (f it) = []) \<and> if_dead_interval (f it) = if_dead_interval it) \<Longrightarrow> keeps_inv (set_intf i f)"
  unfolding keeps_def set_intf_def modM_def
proof (intro allI impI)
  fix w assume f: "\<And>it. (is_neighbors (f it) = is_neighbors it \<or> is_neighbors (f it) = []) \<and> if_dead_interval (f it) = if_dead_interval it" and w: "nbrs_inv w"
  show "nbrs_inv (snd (Inr (), upd_intf i f w))"
    unfolding snd_conv using f [of "intf_at w i"] by (intro inv_upd_intf [OF w]) (auto simp: nbr_at_def)
qed

lemmas nbr_inv_simps = nbr_inv_def clear_lists_def stop_dd_timers_def set_nbr_state_def go_down_reset_def
  os_is_running_def os_start_def os_reset_def os_cancel_def pt_stop_def pt_start_def pt_schedule_def

section \<open>Sending keeps it\<close>

lemma inv_schedule [inv_intros]:
  "keeps_inv (schedule_router_lsa a)" "keeps_inv (schedule_network_lsa i)" "keeps_inv schedule_spf"
  unfolding schedule_router_lsa_def schedule_network_lsa_def schedule_spf_def
  by (auto intro!: inv_mod simp: Let_def)

lemma inv_draw [inv_intros]: "keeps_inv draw" "keeps_inv draw_fraction"
  unfolding draw_fraction_def
  by (auto intro!: keeps_intros) (auto simp: keeps_def draw_def elim!: nbrs_inv_cong)

lemma inv_send_packet [inv_intros]: "keeps_inv (send_packet i t b d)"
  unfolding send_packet_def by (intro keeps_intros inv_set_intf inv_mod) simp_all

lemma inv_hello_sending [inv_intros]: "keeps_inv (send_hello i)" "keeps_inv (start_hello i)" "keeps_inv (stop_all i)"
proof -
  show send: "keeps_inv (send_hello i)" unfolding send_hello_def Let_def by (intro keeps_intros inv_intros)
  show "keeps_inv (start_hello i)"
    unfolding start_hello_def by (intro keeps_intros inv_intros send inv_set_intf) simp_all
  show "keeps_inv (stop_all i)" unfolding stop_all_def by (intro inv_set_intf) simp
qed

lemma inv_dd_sending [inv_intros]:
  "keeps_inv (send_dd i r fl hs)" "keeps_inv (pop_headers i r)" "keeps_inv (send_ls_request i r)"
  unfolding send_dd_def pop_headers_def send_ls_request_def Let_def
  by (intro keeps_intros inv_intros inv_set_nbr, simp add: nbr_inv_def)+

lemma inv_dd_batches [inv_intros]:
  "keeps_inv (send_dd_master i r)" "keeps_inv (send_dd_slave i r)" "keeps_inv (retransmit_last_dd i r)"
  unfolding send_dd_master_def send_dd_slave_def retransmit_last_dd_def Let_def
  by (intro keeps_intros inv_intros keeps_case_option)+

section \<open>The cascade keeps it\<close>

definition in_exstart :: "nat \<Rightarrow> ipv4 \<Rightarrow> world \<Rightarrow> bool" where
  "in_exstart i r w \<longleftrightarrow> nbrs_inv w \<and> (\<forall>n. nbr_at w i r = Some n \<longrightarrow> nb_state n = Nbr_ExStart)"

lemma exstart_quiet: "keeps_inv m \<Longrightarrow> quiet m \<Longrightarrow> keeps (in_exstart i r) m"
  unfolding in_exstart_def [abs_def] by (rule keeps_quiet_state)

lemma exstart_set_nbr:
  assumes "\<And>rid now dead n. nb_state n = Nbr_ExStart \<Longrightarrow> nbr_inv rid now dead r n \<Longrightarrow>
    nbr_inv rid now dead r (f n) \<and> nb_state (f n) = Nbr_ExStart"
  shows "keeps (in_exstart i r) (set_nbr i r f)"
  unfolding keeps_def
proof (intro allI impI)
  fix w assume w: "in_exstart i r w"
  have f: "nbr_fine w i r (f n) \<and> nb_state (f n) = Nbr_ExStart" if "nbr_at w i r = Some n" for n
    using that w by (intro assms) (auto simp: in_exstart_def nbrs_inv_def)
  have "nbrs_inv (upd_nbr i r f w)"
    using w f by (intro inv_upd_nbr) (auto simp: in_exstart_def)
  then show "in_exstart i r (snd (set_nbr i r f w))"
    using f by (auto simp: in_exstart_def set_nbr_def modM_def)
qed

lemma start_dd_exchange_exstart: "keeps (in_exstart i r) (start_dd_exchange i r)"
proof -
  have "keeps (in_exstart i r) draw" "keeps (in_exstart i r) (send_dd i r fl hs)" for fl hs
    by (intro exstart_quiet inv_intros quiet_intros)+
  then show ?thesis
    unfolding start_dd_exchange_def
    by (intro keeps_intros exstart_set_nbr) (auto simp: nbr_inv_simps nbr_order)
qed

lemma enter_exstart:
  assumes w: "nbrs_inv w"
    and f: "\<And>n. nbr_at w i r = Some n \<Longrightarrow> nbr_fine w i r n \<Longrightarrow>
      nbr_fine w i r (f n) \<and> nb_state (f n) = Nbr_ExStart"
  shows "nbrs_inv (snd (seqM (set_nbr i r f) (start_dd_exchange i r) w))"
proof -
  have "nbrs_inv (upd_nbr i r f w)" using f by (intro inv_upd_nbr [OF w]) blast
  then have "in_exstart i r (upd_nbr i r f w)"
    using w f by (auto simp: in_exstart_def nbrs_inv_def)
  from keeps_run [OF start_dd_exchange_exstart this] show ?thesis
    by (simp add: set_nbr_def seq_modM in_exstart_def)
qed

lemma inv_form_adjacency:
  assumes "nbrs_inv w" and "nbr_at w i r = Some n" and "nb_state n \<noteq> Nbr_Down"
  shows "nbrs_inv (snd (form_adjacency i r w))"
  unfolding form_adjacency_def
  by (rule enter_exstart [OF assms(1)]) (use assms(2,3) in \<open>auto simp: nbr_inv_simps nbr_order\<close>)

lemma inv_seq_num_mismatch:
  assumes "nbrs_inv w" and "nbr_at w i r = Some n" and "nb_state n \<noteq> Nbr_Down"
  shows "nbrs_inv (snd (seq_num_mismatch i r w))"
  unfolding seq_num_mismatch_def
  by (rule enter_exstart [OF assms(1)]) (use assms(2,3) in \<open>auto simp: nbr_inv_simps nbr_order\<close>)

lemma fsm_source:
  "nbr_fsm s e = Some Hello_Received_Down \<Longrightarrow> s = Nbr_Down"
  "nbr_fsm s e = Some Hello_Received_Any \<Longrightarrow> Nbr_Init \<le> s"
  "nbr_fsm s e = Some Start_Action \<Longrightarrow> s = Nbr_Down"
  "nbr_fsm s e = Some Two_Way_Action \<Longrightarrow> s = Nbr_Init"
  "nbr_fsm s e = Some Adj_Ok_2Way \<Longrightarrow> s = Nbr_2Way"
  "nbr_fsm s e = Some Adj_Ok_Adjformed \<Longrightarrow> Nbr_ExStart \<le> s"
  "nbr_fsm s e = Some Negotiation_Done_Action \<Longrightarrow> s = Nbr_ExStart \<and> e = Negotiation_Done"
  "nbr_fsm s e = Some Exchange_Done_Action \<Longrightarrow> s = Nbr_Exchange"
  "nbr_fsm s e = Some Loading_Done_Action \<Longrightarrow> s = Nbr_Loading"
  "nbr_fsm s e = Some Seq_Num_Mismatch_Action \<Longrightarrow> Nbr_ExStart \<le> s"
  "nbr_fsm s e = Some Bad_Ls_Req_Action \<Longrightarrow> Nbr_ExStart \<le> s"
  "nbr_fsm s e = Some One_Way_Action \<Longrightarrow> Nbr_2Way \<le> s"
  by (auto simp: nbr_fsm_def nbr_order split: nbr_state.splits nbr_evt.splits)

lemma inv_action:
  assumes ok: "nbrs_inv w" and n: "nbr_at w i r = Some n" and a: "nbr_fsm (nb_state n) e = Some a"
    and g: "e = Negotiation_Done \<Longrightarrow> nb_is_master n = (r < w_router_id w) \<and> \<not> pt_running (nb_dd_rxmt_timer n)"
  shows "nbrs_inv (snd (run_nbr_action i r a w))"
proof -
  have lt: "i < length (w_intfs w)" using n by (auto simp: nbr_at_def split: if_splits)
  note run = bind_getM bind_get_intf [OF lt] bind_get_nbr [OF n] set_nbr_def modM_def retM_def
  note upd = inv_upd_nbr [OF ok]
  note enter = inv_form_adjacency [OF ok n] inv_seq_num_mismatch [OF ok n]
  show ?thesis
  proof (cases a)
    case Exchange_Done_Action
    then have s: "nb_state n = Nbr_Exchange" using a fsm_source(8) by blast
    have "nbrs_inv (upd_nbr i r (set_nbr_state Nbr_Loading) w)"
      using s n by (intro upd) (auto simp: nbr_inv_simps nbr_order)
    then have "nbrs_inv (snd (seqM (set_nbr i r (set_nbr_state Nbr_Loading)) (send_ls_request i r) w))"
      using keeps_run [OF inv_dd_sending(3)] by (simp add: set_nbr_def seq_modM)
    then show ?thesis using Exchange_Done_Action n s
      by (auto simp: run nbr_inv_simps nbr_order intro!: upd)
  qed (use a n ok g fsm_source [of "nb_state n" e] in
      \<open>auto simp: run nbr_inv_simps nbr_order
        intro!: upd enter\<close>)
qed

lemma inv_go_down: "keeps_inv (set_nbr i r go_down_reset)"
  by (intro inv_set_nbr) (simp add: nbr_inv_simps nbr_order)

interpretation inv: cascade_frame nbrs_inv "\<lambda>i r e. e \<noteq> Negotiation_Done"
proof unfold_locales
  fix w :: world and i r e n a
  assume "nbrs_inv w" "nbr_at w i r = Some n" "nbr_fsm (nb_state n) e = Some a" "e \<noteq> Negotiation_Done"
  then show "nbrs_inv (snd (run_nbr_action i r a w))" using inv_action by blast
qed (intro inv_intros inv_go_down inv_set_intf | assumption | simp)+

lemma inv_events [inv_intros]: "e \<noteq> Negotiation_Done \<Longrightarrow> keeps_inv (nbr_event i r e)" "keeps_inv (intf_event i e')"
  by (rule inv.events; simp)+

lemma negotiation_done_inv:
  assumes "nbrs_inv w" and "\<And>n. nbr_at w i r = Some n \<Longrightarrow> nb_is_master n = (r < w_router_id w) \<and> \<not> pt_running (nb_dd_rxmt_timer n)"
  shows "nbrs_inv (snd (nbr_event i r Negotiation_Done w))"
proof -
  have "nbr_event i r Negotiation_Done = neighbor_event (cascade 7) i r Negotiation_Done"
    using cascade.simps(2) [of 7 "Neighbor_Event i r Negotiation_Done"] by (simp add: nbr_event_def del: cascade.simps)
  then show ?thesis
    using assms inv.cascading
    by (auto intro!: inv.event_on_neighbor inv_action)
qed

section \<open>Handlers\<close>

lemma inv_hello [inv_intros]: "keeps_inv (process_hello i hello src rid)"
  unfolding keeps_def
proof (intro allI impI)
  fix w assume w: "nbrs_inv w"
  show "nbrs_inv (snd (process_hello i hello src rid w))"
  proof (rule process_hello_keeps [where P = nbrs_inv, OF w])
    show "nbrs_inv (upd_intf i (is_neighbors_update (AList.update rid (neighbor_create rid src (intf_at w i)))) w)"
      by (intro inv_upd_intf [OF w])
        (auto simp: update_conv' nbr_inv_simps nbr_order neighbor_create_def pt_create_def os_create_def nbr_at_def
          split: if_splits)
    show "keeps_inv (set_nbr i rid (update_hello_fields hello src))"
      by (intro inv_set_nbr) (simp add: update_hello_fields_def nbr_inv_def)
  qed (auto intro: inv_intros)
qed

lemma inv_negotiate:
  assumes w: "nbrs_inv w" and n: "nbr_at w i r = Some n" and s: "nb_state n = Nbr_ExStart"
    and m: "nb_is_master (f n) = (r < w_router_id w)" "\<not> pt_running (nb_dd_rxmt_timer (f n))"
      "nb_state (f n) = nb_state n" "nb_router_id (f n) = nb_router_id n" "nb_inactivity_timer (f n) = nb_inactivity_timer n"
    and rest: "keeps_inv rest"
  shows "nbrs_inv (snd (seqM (set_nbr i r f) (seqM (nbr_event i r Negotiation_Done) rest) w))"
proof -
  have "nbr_fine w i r n" using w n by (simp add: nbrs_inv_def)
  then have "nbrs_inv (upd_nbr i r f w)"
    using n s m by (intro inv_upd_nbr [OF w]) (auto simp: nbr_inv_def nbr_order)
  then have ev: "nbrs_inv (snd (nbr_event i r Negotiation_Done (upd_nbr i r f w)))"
    by (rule negotiation_done_inv) (use n m in auto)
  show ?thesis
    using ev keeps_run [OF rest]
    by (cases "nbr_event i r Negotiation_Done (upd_nbr i r f w)")
      (auto simp: set_nbr_def seq_modM, auto simp: seqM_def bindM_def split: sum.split)
qed

lemma inv_exstart:
  assumes w: "nbrs_inv w" and n: "nbr_at w i r = Some n" and s: "nb_state n = Nbr_ExStart"
  shows "nbrs_inv (snd (process_dd_exstart i r dd w))"
proof -
  have id: "nb_router_id n = r" using w n by (simp add: nbrs_inv_def nbr_inv_def)
  have headers: "keeps_inv (process_dd_headers i r dd)"
    unfolding process_dd_headers_def by (intro keeps_intros inv_set_nbr) (simp add: nbr_inv_def add_requests_def)
  have last: "keeps_inv (set_nbr i r (\<lambda>n. n\<lparr>nb_last_received_dd := Some dd, nb_dd_seq_number := nb_dd_seq_number n + 1\<rparr>))"
    by (intro inv_set_nbr) (simp add: nbr_inv_def)
  have follow: "keeps_inv (seqM (process_dd_headers i r dd)
       (seqM (set_nbr i r (\<lambda>n. n\<lparr>nb_last_received_dd := Some dd, nb_dd_seq_number := nb_dd_seq_number n + 1\<rparr>))
         (send_dd_master i r)))" by (intro keeps_intros headers last inv_intros)
  have "keeps_inv (send_dd_slave i r)" by (intro inv_intros)
  then show ?thesis
    unfolding process_dd_exstart_def bind_get_nbr [OF n] bind_getM id whenM_def
    using inv_negotiate [OF w n s _ _ _ _ _ follow] inv_negotiate [OF w n s _ _ _ _ _ \<open>keeps_inv (send_dd_slave i r)\<close>] w
    by (auto simp: retM_def pt_stop_def)
qed

lemma inv_headers [inv_intros]: "keeps_inv (process_dd_headers i r dd)"
  unfolding process_dd_headers_def by (intro keeps_intros inv_set_nbr) (simp add: nbr_inv_def add_requests_def)

lemma inv_exchange [inv_intros]: "keeps_inv (process_dd_exchange i r dd)"
  unfolding process_dd_exchange_def by (intro keeps_intros inv_intros inv_set_nbr; simp add: nbr_inv_def)

lemma inv_dd [inv_intros]: "keeps_inv (process_dd i r dd)"
  unfolding keeps_def
proof (intro allI impI)
  fix w assume w: "nbrs_inv w"
  let ?rest = "\<lambda>n. bindM (get_nbr i r) (\<lambda>n'.
       if nb_state n = Nbr_Init \<and> nb_state n' \<noteq> Nbr_ExStart then retM ()
       else if nb_state n' = Nbr_ExStart then process_dd_exstart i r dd
       else if nb_state n' = Nbr_Exchange then process_dd_exchange i r dd
       else if nb_state n' = Nbr_Loading \<or> nb_state n' = Nbr_Full then
         (if is_duplicate_dd n' dd then whenM (\<not> nb_is_master n') (retransmit_last_dd i r)
          else nbr_event i r Seq_Num_Mismatch)
       else retM ())"
  have cases: "keeps_inv (if s = Nbr_Init \<and> s' \<noteq> Nbr_ExStart then retM ()
       else if s' = Nbr_Exchange then process_dd_exchange i r dd
       else if s' = Nbr_Loading \<or> s' = Nbr_Full then
         (if b then whenM c (retransmit_last_dd i r) else nbr_event i r Seq_Num_Mismatch)
       else retM ())" for s s' b c
    by (intro keeps_intros inv_intros) simp_all
  have rest: "keeps_inv (?rest n)" for n
    unfolding keeps_def
  proof (intro allI impI)
    fix v assume v: "nbrs_inv v"
    show "nbrs_inv (snd (?rest n v))"
    proof (cases "nbr_at v i r")
      case None
      then show ?thesis using v by (simp add: bindM_def get_nbr_def)
    next
      case (Some m)
      then show ?thesis
        using inv_exstart [OF v Some] keeps_run [OF cases v, of "nb_state n" "nb_state m" "is_duplicate_dd m dd" "\<not> nb_is_master m"]
        by (cases "nb_state m = Nbr_ExStart") (simp_all only: bind_get_nbr [OF Some] if_True if_False simp_thms)
    qed
  qed
  have "keeps_inv (process_dd i r dd)"
    unfolding process_dd_def by (intro keeps_intros inv_intros rest) simp_all
  then show "nbrs_inv (snd (process_dd i r dd w))" using w by (rule keeps_run)
qed

lemma inv_lists [inv_intros]:
  "keeps_inv (process_ls_update i r keys)" "keeps_inv (process_ls_ack i r hs)"
  "keeps_inv (set_nbr i r (nb_ls_retransmission_list_update f))" "keeps_inv (queue_delayed_ack i h)"
proof -
  show "keeps_inv (process_ls_update i r keys)"
    unfolding process_ls_update_def by (intro keeps_intros inv_intros inv_set_nbr) (simp_all add: nbr_inv_def)
  show "keeps_inv (set_nbr i r (nb_ls_retransmission_list_update f))" for f
    by (intro inv_set_nbr) (simp add: nbr_inv_def)
  then show "keeps_inv (process_ls_ack i r hs)" unfolding process_ls_ack_def .
  show "keeps_inv (queue_delayed_ack i h)"
    unfolding queue_delayed_ack_def by (intro inv_set_intf) simp
qed

section \<open>Timers and the shutdown of an interface\<close>

lemma inv_timers:
  "keeps_inv (fire_wait_timer i)" "keeps_inv (fire_hello_timer i)" "keeps_inv (fire_ack_timer i)"
  "keeps_inv (fire_rxmt_timer i r)" "keeps_inv (fire_dd_rxmt_timer i r)"
proof -
  show "keeps_inv (fire_wait_timer i)" "keeps_inv (fire_hello_timer i)"
    unfolding fire_wait_timer_def fire_hello_timer_def
    by (intro keeps_intros inv_intros inv_set_intf; simp)+
  show "keeps_inv (fire_ack_timer i)"
    unfolding fire_ack_timer_def flush_delayed_acks_def Let_def by (intro keeps_intros inv_intros inv_set_intf; simp)
  show "keeps_inv (fire_rxmt_timer i r)" "keeps_inv (fire_dd_rxmt_timer i r)"
    unfolding fire_rxmt_timer_def fire_dd_rxmt_timer_def
    by (intro keeps_intros inv_intros inv_set_nbr; simp add: nbr_inv_def pt_schedule_def)+
qed

lemma upd_nbr_twice: "upd_nbr i r f (upd_nbr i r g w) = upd_nbr i r (\<lambda>n. f (g n)) w"
proof -
  have "AList.map_entry r f (AList.map_entry r g ns) = AList.map_entry r (\<lambda>n. f (g n)) ns" for ns
    by (induction ns) auto
  then show ?thesis by (simp add: upd_nbr_def upd_intf_twice)
qed

lemma upd_nbr_absent: "nbr_at w i r = None \<Longrightarrow> upd_nbr i r f w = w"
proof -
  have "map_of ns r = None \<Longrightarrow> AList.map_entry r f ns = ns" for ns
    by (induction ns) (auto split: if_splits)
  then show "nbr_at w i r = None \<Longrightarrow> upd_nbr i r f w = w"
    by (auto simp: upd_nbr_def upd_intf_def nbr_at_def intf_at_def list_update_beyond split: if_splits)
qed

lemma inactivity_fires:
  assumes "nbr_at w i r = Some n"
  shows "fire_inactivity_timer i r w = catchM (seqM (set_nbr i r go_down_reset)
      (seqM (whenM (nb_state n \<noteq> Nbr_Down) (cascade 7 (Neighbor_State_Changed i r (nb_state n))))
        (bindM (get_nbr i r) (\<lambda>n'. whenM (nb_state n' \<noteq> nb_state n)
          (cascade 7 (Neighbor_State_Changed i r (nb_state n)))))))
      (upd_nbr i r (nb_inactivity_timer_update os_cancel) w)"
proof -
  have fsm: "nbr_fsm s Inactivity_Timer = None" for s
    by (cases s) (simp_all add: nbr_fsm_def)
  have assoc: "seqM (seqM a b) c = seqM a (seqM b c)" for a b c :: "unit M"
    by (rule ext) (simp add: seqM_def bindM_def split: prod.split sum.split)
  show ?thesis
    using assms cascade.simps(2) [of 7 "Neighbor_Event i r Inactivity_Timer"]
    by (simp add: fire_inactivity_timer_def set_nbr_def [of i r "nb_inactivity_timer_update os_cancel"] seq_modM
        catchM_def nbr_event_def neighbor_event_def bind_get_nbr Let_def fsm assoc del: cascade.simps)
qed

lemma inv_inactivity: "keeps_inv (fire_inactivity_timer i r)"
  unfolding keeps_def
proof (intro allI impI)
  fix w assume w: "nbrs_inv w"
  show "nbrs_inv (snd (fire_inactivity_timer i r w))"
  proof (cases "nbr_at w i r")
    case None
    then show ?thesis using w
      by (simp add: fire_inactivity_timer_def set_nbr_def seq_modM upd_nbr_absent catchM_def absent_event)
  next
    case (Some n)
    have "nbrs_inv (upd_nbr i r (\<lambda>n. go_down_reset (nb_inactivity_timer_update os_cancel n)) w)"
      by (intro inv_upd_nbr [OF w]) (simp add: nbr_inv_simps nbr_order)
    moreover have "keeps_inv (seqM (whenM (nb_state n \<noteq> Nbr_Down) (cascade 7 (Neighbor_State_Changed i r (nb_state n))))
        (bindM (get_nbr i r) (\<lambda>n'. whenM (nb_state n' \<noteq> nb_state n) (cascade 7 (Neighbor_State_Changed i r (nb_state n))))))"
      by (intro keeps_intros inv.cascading inv.permitted_simps)
    ultimately show ?thesis
      unfolding inactivity_fires [OF Some] set_nbr_def seq_modM catchM_def upd_nbr_twice by (simp add: keeps_run)
  qed
qed

lemma inv_interface_shutdown: "keeps_inv (interface_shutdown i)"
  unfolding keeps_def
proof (intro allI impI)
  fix w assume w: "nbrs_inv w"
  show "nbrs_inv (snd (interface_shutdown i w))"
  proof (cases "i < length (w_intfs w)")
    case True
    have "nbrs_inv (upd_intf i close_interface w)"
      by (intro inv_upd_intf [OF w]) (simp_all add: close_interface_def)
    then show ?thesis using True by (simp add: interface_shutdown_closes)
  next
    case False
    then have "upd_intf i f w = w" for f by (simp add: upd_intf_def list_update_beyond)
    then show ?thesis using False w
      by (simp add: interface_shutdown_def stop_all_def set_intf_def modM_def seqM_def bindM_def get_intf_def)
  qed
qed

interpretation inv: handler_frame nbrs_inv
  by unfold_locales
    (intro inv_intros inv_timers inv_inactivity inv_interface_shutdown | simp
      | (erule nbrs_inv_cong; simp))+

section \<open>Every reachable state\<close>

lemma no_neighbors_inv: "w_intfs w = [] \<Longrightarrow> nbrs_inv w"
  by (simp add: nbrs_inv_def nbr_at_def)

lemma inv_new_interface: "keeps_inv (modM (\<lambda>w. w\<lparr>w_intfs := w_intfs w @ [(interface_create attrs clock)\<lparr>is_socket := s\<rparr>]\<rparr>))"
proof (intro keeps_mod)
  fix w assume w: "nbrs_inv w"
  have "is_neighbors (interface_create attrs clock) = []"
    by (simp add: interface_create_def intf_attrs.extend_def ospf_interface.defs)
  then have "nbr_at (w\<lparr>w_intfs := w_intfs w @ [(interface_create attrs clock)\<lparr>is_socket := s\<rparr>]\<rparr>) i r = nbr_at w i r" for i r
    by (auto simp: nbr_at_def intf_at_def nth_append)
  moreover have "intf_at (w\<lparr>w_intfs := w_intfs w @ [it]\<rparr>) i = intf_at w i" if "nbr_at w i r = Some n" for it i r n
    using that by (auto simp: nbr_at_def intf_at_def nth_append split: if_splits)
  ultimately show "nbrs_inv (w\<lparr>w_intfs := w_intfs w @ [(interface_create attrs clock)\<lparr>is_socket := s\<rparr>]\<rparr>)"
    using w by (simp add: nbrs_inv_def)
qed

lemma inv_setup_area: "keeps_inv (setup_area env c)"
proof -
  have one: "keeps_inv (setup_interface env c a)" for c a
    unfolding setup_interface_def Let_def
    by (intro keeps_intros keeps_case_option inv_new_interface) (auto split: list.split intro!: keeps_intros inv_new_interface)
  have "keeps_inv (setup_interfaces env cs a)" for cs a
    by (induction cs arbitrary: a) (auto intro!: keeps_intros one)
  then show ?thesis
    unfolding setup_area_def Let_def by (intro keeps_intros inv_mod) simp_all
qed

lemma bind_result: "bindM (liftM (Inl e)) f w = (Inl e, w)" "bindM (liftM (Inr x)) f w = f x w"
  by (simp_all add: bindM_def liftM_def)

lemma skip_seqM: "seqM (whenM False m) n = n" "seqM (raiseM e) n w = (Inl e, w)"
  by (auto simp: seqM_def whenM_def bindM_def retM_def raiseM_def)

lemma inv_start: "w_intfs w = [] \<Longrightarrow> nbrs_inv (snd (start env cfg w))"
proof -
  assume w: "w_intfs w = []"
  have body: "keeps_inv (seqM (forM (cf_areas cfg) (setup_area env))
     (bindM (getM (\<lambda>w. length (w_intfs w))) (\<lambda>n.
     seqM (forM [0..<n] (\<lambda>i. intf_event i If_Up_Evt))
     (bindM (getM (\<lambda>w. map fst (w_areas w))) (\<lambda>areas.
     seqM (forM areas (\<lambda>area. ignoreM (originate_router_lsa area)))
       (whenM (truthy (src_enabled (cf_sr cfg))) (start_sr (cf_sr cfg) areas)))))))"
    unfolding ignoreM_def
    by (intro keeps_intros inv_setup_area inv_events inv.handles_originate_lsas inv.handles_start_sr)
  show ?thesis
  proof (cases "finite_delays cfg")
    case True
    then show ?thesis
      unfolding start_def using w keeps_run [OF body no_neighbors_inv]
      by (cases "select_router_id (cf_router_id cfg) (map (\<lambda>s. (ii_name s, ii_addresses s)) (se_interfaces env))")
        (simp_all add: skip_seqM bind_result seq_modM no_neighbors_inv)
  next
    case False
    then show ?thesis using w by (simp add: start_def whenM_def skip_seqM no_neighbors_inv)
  qed
qed

lemma inv_step: "daemon_step d1 d2 \<Longrightarrow> nbrs_inv (dm_world d1) \<Longrightarrow> nbrs_inv (dm_world d2)"
proof (induction rule: daemon_step.induct)
  case (handles x d y w)
  then show ?case using keepsD [OF inv.handles_input] by simp
next
  case (spf d d')
  obtain w t reqs where run: "run_spf (dm_world d, dm_table d) = Some ((w, t), reqs)" "dm_world d' = w"
    using spf.hyps by (rule fire_spf_cases)
  show ?case by (rule nbrs_inv_cong [OF spf.prems]) (simp_all add: run(2) run_spf_world [OF run(1)])
next
  case (waits t d)
  show ?case by (rule nbrs_inv_cong [OF waits.prems]) (simp_all add: waits.hyps)
qed

lemma running_inv: "running env cfg d \<Longrightarrow> nbrs_inv (dm_world d)"
proof -
  have steps: "daemon_step\<^sup>*\<^sup>* d0 d \<Longrightarrow> nbrs_inv (dm_world d0) \<Longrightarrow> nbrs_inv (dm_world d)" for d0
    by (induction rule: rtranclp_induct) (auto intro: inv_step)
  have "nbrs_inv (dm_world d0)" if "boot env cfg now entropy md5 = Some d0" for now entropy md5 d0
    using that inv_start [of "new_instance cfg now entropy md5" env cfg]
    by (auto simp: boot_def new_instance_def split: prod.splits sum.splits)
  then show "running env cfg d \<Longrightarrow> nbrs_inv (dm_world d)" using steps by (auto simp: running_def)
qed

end
