(* ===== verification/Exchange.thy ===== *)
theory Exchange
  imports Instance_Correct
begin

text \<open>
  Two daemons on one link: what one sends the other handles, an LSA that is asked for arrives in the
  other's database, and a neighbour whose requests are answered becomes Full.
\<close>

section \<open>Delivery\<close>

definition shares_link :: "ospf_interface \<Rightarrow> ospf_interface \<Rightarrow> ipv4 \<Rightarrow> bool" where
  \<comment> \<open>same area and null or simple authentication with the same key; \<open>src\<close> is on the receiver's subnet\<close>
  "shares_link it it' src \<longleftrightarrow> (if_auth_type it = 0 \<or> if_auth_type it = 1)
     \<and> if_auth_type it' = if_auth_type it \<and> if_auth_key it' = if_auth_key it \<and> if_area_id it' = if_area_id it
     \<and> (if_type it' = 2 \<longrightarrow> src AND if_ip_mask it' = if_ip_addr it' AND if_ip_mask it')"

lemma strip_ip_datagram: "strip_ip_header (ip_datagram packet) = Inr packet"
proof -
  have "uint (0x45 AND 0x0F :: byte) = 5" by simp
  then have "nat ((uint (0x45 :: byte) AND 0x0F) * 4) = 20" by simp
  then show ?thesis by (simp add: strip_ip_header_def byte_at_def ip_datagram_def)
qed

lemma bind_liftM: "bindM (liftM (Inr x)) f w = f x w"
  by (simp add: bindM_def liftM_def)

lemma send_packet_frames:
  assumes i: "i < length (w_intfs w)" and "is_socket (intf_at w i) \<noteq> None" and "u8 pkt_type"
    and "24 + length body < 65536" and auth: "if_auth_type (intf_at w i) = 0 \<or> if_auth_type (intf_at w i) = 1"
  obtains sq packet where "frame_packet (w_md5 w) (w_router_id w) (intf_at w i) sq pkt_type body = Inr packet"
    and "send_packet i pkt_type body dest w
      = (Inr (), (upd_intf i (is_crypt_seq_update (\<lambda>s. (s + 1) AND 0xFFFFFFFF)) w)
           \<lparr>w_trace := w_trace w @ [Sent i packet dest]\<rparr>)"
proof -
  let ?it = "intf_at w i" and ?f = "is_crypt_seq_update (\<lambda>s. (s + 1) AND 0xFFFFFFFF)"
  let ?sq = "is_crypt_seq (?f ?it)"
  obtain packet where packet: "frame_packet (w_md5 w) (w_router_id w) ?it ?sq pkt_type body = Inr packet"
    using frame_packet_form [OF assms(3,4) auth] by blast
  then obtain raw where raw: "checksummed_packet (w_router_id w) ?it pkt_type body = Inr raw"
    and "apply_auth (w_md5 w) raw (if_auth_type ?it) (if_auth_key ?it) (if_auth_key_id ?it) ?sq = Inr packet"
    by (auto simp: frame_packet_def)
  moreover have "intf_at (upd_intf i ?f w) i = ?f ?it" "i < length (w_intfs (upd_intf i ?f w))"
    using i by (simp_all add: intf_at_def upd_intf_def)
  moreover obtain groups where "is_socket ?it = Some groups" using assms(2) by auto
  ultimately have "send_packet i pkt_type body dest w
      = (Inr (), (upd_intf i ?f w)\<lparr>w_trace := w_trace w @ [Sent i packet dest]\<rparr>)"
    using i by (simp add: send_packet_def bind_get_intf bind_getM bind_liftM set_intf_def seq_modM)
      (simp add: bind_liftM modM_def upd_intf_def)
  then show ?thesis by (rule that [OF packet])
qed

lemma framed_packet_received:
  assumes "frame_packet (w_md5 w') rid it sq pkt_type body = Inr packet"
    and "u8 pkt_type" and "24 + length body < 65536" and "shares_link it (intf_at w' j) src"
    and "j < length (w_intfs w')" and "w_router_id w' \<noteq> rid"
  shows "receive_packet j (ip_datagram packet) src w' = catchM (dispatch j pkt_type rid body src) w'"
proof -
  obtain h where "accept_packet (w_md5 w') (w_router_id w') (intf_at w' j) packet src = Some (h, body)"
    "oh_type h = pkt_type" "oh_router_id h = rid"
    using accept_framed [OF assms(1-3), of "intf_at w' j" "w_router_id w'" src] assms(4,6)
    by (auto simp: shares_link_def)
  then show ?thesis
    by (simp add: receive_packet_def strip_ip_datagram bind_liftM bind_get_intf [OF assms(5)] bind_getM)
qed

section \<open>An LSA that is asked for\<close>

lemma serialized_lsu:
  assumes "lsa_serialize now True e = Inr (bs, e')" and "body_matches (lh_ls_type (l_header e)) (l_body e)"
  obtains body where "lsu_serialize now [e] = Inr (body, [e'])" and "length body = 4 + length bs"
    and "lsu_deserialize body 0 = Inr [unmarked e']"
proof -
  obtain d where d: "struct_pack [FI] [VInt 1] = Inr d" "length d = 4"
    using struct_pack_length [of "[FI]" "[VInt 1]"] by (auto simp: pack_int_def)
  have ser: "lsu_serialize now [e] = Inr (d @ bs, [e'])" using d(1) assms(1) by (simp add: lsu_serialize_def)
  have "lsu_deserialize (d @ bs) 0 = Inr [unmarked e']"
    using lsu_roundtrip [OF ser, of "[]" "[]"] assms(2) by simp
  then show ?thesis using that [OF ser] d(2) by simp
qed

definition can_answer :: "nat \<Rightarrow> ipv4 \<Rightarrow> lsa \<Rightarrow> world \<Rightarrow> bool" where
  \<comment> \<open>the LSA is in the area of an open interface, its neighbour is at least in Exchange, and an update
      with the LSA fits into one packet\<close>
  "can_answer i r l w \<longleftrightarrow> i < length (w_intfs w) \<and> is_socket (intf_at w i) \<noteq> None
     \<and> (case nbr_at w i r of None \<Rightarrow> False | Some n \<Rightarrow> nb_state n \<ge> Nbr_Exchange)
     \<and> lsdb_lookup (if_area_id (intf_at w i)) (lsa_key l) (w_lsdb w) = Some l
     \<and> body_matches (lh_ls_type (l_header l)) (l_body l)
     \<and> (case lsa_serialize (w_now w) True l of Inl _ \<Rightarrow> False | Inr (bs, _) \<Rightarrow> int (length bs) < 65508)"

definition lacks :: "ipv4 \<Rightarrow> lsa \<Rightarrow> world \<Rightarrow> bool" where
  \<comment> \<open>no instance and room for one, or an instance with a smaller sequence number a second ago\<close>
  "lacks area l w \<longleftrightarrow>
     (case lsdb_lookup area (lsa_key l) (w_lsdb w) of
        None \<Rightarrow> length (partition_db area (lh_ls_type (l_header l)) (w_lsdb w)) < 10000
      | Some old \<Rightarrow> signed32 (lh_ls_sequence_number (l_header l)) > signed32 (lh_ls_sequence_number (l_header old))
          \<and> 1 \<le> w_now w - (case map_of (ld_last_arrival (w_lsdb w)) (lsa_key l) of None \<Rightarrow> 0 | Some t \<Rightarrow> t))"

definition can_take :: "nat \<Rightarrow> ipv4 \<Rightarrow> lsa \<Rightarrow> world \<Rightarrow> bool" where
  \<comment> \<open>the sender is a known neighbour, the LSA is another router's, of a known type and wanted\<close>
  "can_take j r l w \<longleftrightarrow> j < length (w_intfs w) \<and> nbr_at w j r \<noteq> None \<and> db_ok w
     \<and> \<not> is_self_originated (w_lsdb w) l \<and> lh_ls_type (l_header l) \<in> set valid_lsa_types
     \<and> lacks (if_area_id (intf_at w j)) l w"

lemma lacks_accepted:
  assumes "lacks area l w" and "same_instance l' l"
  shows "install_accepted (w_now w) area l' (w_lsdb w)"
proof -
  have "lsa_key l' = lsa_key l" "lh_ls_sequence_number (l_header l') = lh_ls_sequence_number (l_header l)"
    using assms(2) by (simp_all add: same_instance_def)
  moreover have "lh_ls_type (l_header l') = lh_ls_type (l_header l)"
    using calculation(1) lsa_key_type by metis
  ultimately show ?thesis
    using assms(1) by (auto simp: lacks_def install_accepted_def newer_def compare_lsa_def split: option.splits)
qed

lemma answered_request:
  assumes can: "can_answer i r l w" and "lsr_item_key item = lsa_key l"
    and auth: "if_auth_type (intf_at w i) = 0 \<or> if_auth_type (intf_at w i) = 1"
  obtains w1 n sq packet body l' where "process_ls_request i r [item] w = (Inr (), w1)"
    and "nbr_at w i r = Some n" and "w_trace w1 = w_trace w @ [Sent i packet (nb_ip_addr n)]"
    and "frame_packet (w_md5 w) (w_router_id w) (intf_at w i) sq 4 body = Inr packet"
    and "24 + length body < 65536" and "lsu_deserialize body 0 = Inr [unmarked l']" and "same_instance l' l"
proof -
  let ?area = "if_area_id (intf_at w i)"
  obtain n where n: "nbr_at w i r = Some n" "nb_state n \<ge> Nbr_Exchange"
    using can by (auto simp: can_answer_def split: option.splits)
  obtain bs l' where ser: "lsa_serialize (w_now w) True l = Inr (bs, l')" "length bs < 65508"
    using can by (auto simp: can_answer_def split: sum.splits)
  have i: "i < length (w_intfs w)" "is_socket (intf_at w i) \<noteq> None"
    "lsdb_lookup ?area (lsa_key l) (w_lsdb w) = Some l" "body_matches (lh_ls_type (l_header l)) (l_body l)"
    using can by (simp_all add: can_answer_def)
  obtain body where body: "lsu_serialize (w_now w) [l] = Inr (body, [l'])" "length body = 4 + length bs"
    "lsu_deserialize body 0 = Inr [unmarked l']" using serialized_lsu [OF ser(1) i(4)] .
  have same: "same_instance l' l" using serialized_one [OF body(1)] by auto
  let ?w1 = "w\<lparr>w_lsdb := store_header_updates ?area [l'] (w_lsdb w)\<rparr>"
  have at: "intf_at ?w1 i = intf_at w i" "nbr_at ?w1 i r = Some n" "i < length (w_intfs ?w1)"
    using n(1) i(1) by (simp_all add: intf_at_def nbr_at_def)
  obtain sq packet where packet: "frame_packet (w_md5 w) (w_router_id w) (intf_at w i) sq 4 body = Inr packet"
    "send_packet i 4 body (nb_ip_addr n) ?w1 = (Inr (), (upd_intf i (is_crypt_seq_update (\<lambda>s. (s + 1) AND 0xFFFFFFFF)) ?w1)
        \<lparr>w_trace := w_trace w @ [Sent i packet (nb_ip_addr n)]\<rparr>)"
    using send_packet_frames [OF at(3), of 4 body "nb_ip_addr n"] i(2) auth ser(2) body(2) at(1)
    by (auto simp: u8_def)
  have stored: "serialize_stored_lsas ?area [l] w = (Inr body, ?w1)"
    using body(1) by (simp add: serialize_stored_lsas_def bind_getM bind_liftM seq_modM retM_def)
  have "process_ls_request i r [item] w = send_ls_update ?area i r [l] w"
    using leD [OF n(2)] i(3) assms(2)
    by (simp add: process_ls_request_def bind_get_nbr [OF n(1)] bind_get_intf [OF i(1)] bind_getM)
  also have "\<dots> = send_packet i 4 body (nb_ip_addr n) ?w1"
    using stored by (simp add: send_ls_update_def bindM_def [of "serialize_stored_lsas ?area [l]"] bind_get_nbr [OF at(2)])
  finally show ?thesis using that [OF _ n(1) _ packet(1) _ body(3) same] packet(2) ser(2) body(2)
    by (simp add: upd_intf_def)
qed

lemma framed_lsa_taken:
  assumes packet: "frame_packet (w_md5 w) (w_router_id w) (intf_at w i) sq 4 body = Inr packet" "24 + length body < 65536"
    and body: "lsu_deserialize body 0 = Inr [unmarked l1]" and l1: "same_instance l1 l"
    and link: "shares_link (intf_at w i) (intf_at w' j) src" and take': "can_take j (w_router_id w) l w'"
    and diff: "w_router_id w' \<noteq> w_router_id w" "w_md5 w' = w_md5 w"
  obtains l' where "lsdb_lookup (if_area_id (intf_at w i)) (lsa_key l)
      (w_lsdb (snd (receive_packet j (ip_datagram packet) src w'))) = Some l'" and "same_instance l' l"
proof -
  have area: "if_area_id (intf_at w' j) = if_area_id (intf_at w i)" using link by (simp add: shares_link_def)
  let ?l = "unmarked l1" and ?rid = "w_router_id w"
  have same: "same_instance ?l l" using l1 by (simp add: unmarked_def same_instance_def lsa_key_def)
  have j: "j < length (w_intfs w')" "nbr_at w' j ?rid \<noteq> None" "db_ok w'" "lacks (if_area_id (intf_at w' j)) l w'"
    using take' by (simp_all add: can_take_def)
  have take: "\<not> is_self_originated (w_lsdb w') ?l" "lh_ls_type (l_header ?l) \<in> set valid_lsa_types"
    using take' same same_instance_self [OF same] lsa_key_type [of ?l] lsa_key_type [of l]
    by (simp_all add: can_take_def same_instance_def)
  have "snd (receive_packet j (ip_datagram packet) src w') = snd (dispatch j 4 ?rid body src w')"
    using framed_packet_received [OF _ _ packet(2) link j(1) diff(1)] packet(1) diff(2)
    by (simp add: u8_def catchM_def)
  also have "\<dots> = snd (receive_lsu j ?rid [?l] w')"
    using j(2) body by (simp add: dispatch_def bind_liftM if_neighbor_def bind_getM whenM_def)
  finally have "has_instance (if_area_id (intf_at w i)) ?l (snd (receive_packet j (ip_datagram packet) src w'))"
    using received_update_stored [OF j(3,1) lacks_accepted [OF j(4) same] take, of ?rid] area by simp
  then show ?thesis using that same same_instance_trans by (fastforce simp: has_instance_def same_instance_def split: option.splits)
qed

section \<open>The end of Loading\<close>

lemma deleted_keys: "map fst (fold AList.delete keys xs) = filter (\<lambda>k. k \<notin> set keys) (map fst xs)"
proof (induction keys arbitrary: xs)
  case (Cons k keys)
  have "map fst (AList.delete k xs) = filter (\<lambda>k'. k' \<noteq> k) (map fst xs)"
    by (induction xs) auto
  then show ?case using Cons by (simp add: filter_filter conj_commute)
qed simp

lemma update_completes:
  assumes n: "nbr_at w i r = Some n" and s: "nb_state n = Nbr_Loading"
    and keys: "set (map fst (nb_ls_request_list n)) \<subseteq> set keys"
  shows "\<exists>w' n'. process_ls_update i r keys w = (Inr (), w') \<and> nbr_at w' i r = Some n' \<and> nb_state n' = Nbr_Full
    \<and> nb_ls_request_list n' = []
    \<and> map fst (nb_ls_retransmission_list n') = filter (\<lambda>k. k \<notin> set keys) (map fst (nb_ls_retransmission_list n))
    \<and> map_of (w_router_lsa_pending w') (if_area_id (intf_at w i)) \<noteq> None"
proof -
  let ?f = "\<lambda>n. n\<lparr>nb_ls_request_list := fold AList.delete keys (nb_ls_request_list n),
    nb_ls_retransmission_list := fold AList.delete keys (nb_ls_retransmission_list n)\<rparr>"
  let ?w1 = "upd_nbr i r ?f w" and ?n2 = "set_nbr_state Nbr_Full (?f n)"
  let ?w2 = "upd_nbr i r (set_nbr_state Nbr_Full) ?w1"
  have "map fst (fold AList.delete keys (nb_ls_request_list n)) = []"
    using keys by (auto simp: deleted_keys filter_empty_conv simp del: set_map)
  then have emptied: "fold AList.delete keys (nb_ls_request_list n) = []" by simp
  have at1: "nbr_at ?w1 i r = Some (?f n)" and at2: "nbr_at ?w2 i r = Some ?n2" using n by simp_all
  have i: "i < length (w_intfs w)" using n by (auto simp: nbr_at_def split: if_splits)
  have a: "nbr_fsm (nb_state (?f n)) Loading_Done = Some Loading_Done_Action" using s by (simp add: nbr_fsm_def)
  have run: "run_nbr_action i r Loading_Done_Action ?w1 = (Inr (), ?w2)" by (simp add: set_nbr_def modM_def)
  have "\<not> crosses_2way (nb_state (?f n)) (nb_state ?n2)"
    using s by (simp add: crosses_2way_def set_nbr_state_def nbr_order)
  from simple_event [OF at1 a run at2 this] obtain w' where
    ev: "nbr_event i r Loading_Done ?w1 = (Inr (), w')" "w_intfs w' = w_intfs ?w2"
      "map_of (w_router_lsa_pending w') (if_area_id (intf_at ?w2 i)) \<noteq> None"
    using s by (auto simp: set_nbr_state_def)
  have "process_ls_update i r keys w = nbr_event i r Loading_Done ?w1"
    using s emptied by (simp add: process_ls_update_def set_nbr_def seq_modM bind_get_nbr [OF at1] whenM_def)
  moreover have "nbr_at w' i r = Some ?n2" using nbr_at_cong [OF ev(2)] at2 by simp
  moreover have "if_area_id (intf_at ?w2 i) = if_area_id (intf_at w i)"
    using i by (simp add: intf_at_def upd_nbr_def upd_intf_def)
  ultimately show ?thesis using ev(1,3) emptied by (auto simp: set_nbr_state_def deleted_keys)
qed

section \<open>Properties\<close>

text \<open>
  C2. An LSA that is asked for arrives: let one router hold an LSA and have the asking router as a
  neighbour in Exchange or later, and let the asking router, on a link with the same area and null or
  password authentication, know the first as a neighbour and lack the LSA or hold an instance with a
  smaller sequence number. Then processing the request returns and sends one packet, and once this packet is
  received, whatever flooding and acknowledging it makes the receiver do, the receiver's database has
  an LSA with the holder's key, body and sequence number.
\<close>
theorem requested_lsa_delivered:
  assumes "can_answer i r l w" and "lsr_item_key item = lsa_key l" and "shares_link (intf_at w i) (intf_at w' j) src"
    and "can_take j (w_router_id w) l w'" and "w_router_id w' \<noteq> w_router_id w" and "w_md5 w' = w_md5 w"
  shows "\<exists>w1 packet dest l'. process_ls_request i r [item] w = (Inr (), w1)
    \<and> w_trace w1 = w_trace w @ [Sent i packet dest]
    \<and> lsdb_lookup (if_area_id (intf_at w i)) (lsa_key l)
        (w_lsdb (snd (receive_packet j (ip_datagram packet) src w'))) = Some l'
    \<and> l_body l' = l_body l \<and> lh_ls_sequence_number (l_header l') = lh_ls_sequence_number (l_header l)"
proof -
  have auth: "if_auth_type (intf_at w i) = 0 \<or> if_auth_type (intf_at w i) = 1"
    using assms(3) by (simp add: shares_link_def)
  obtain w1 n sq packet body l1 where run: "process_ls_request i r [item] w = (Inr (), w1)"
      "nbr_at w i r = Some n" "w_trace w1 = w_trace w @ [Sent i packet (nb_ip_addr n)]"
    and packet: "frame_packet (w_md5 w) (w_router_id w) (intf_at w i) sq 4 body = Inr packet" "24 + length body < 65536"
    and body: "lsu_deserialize body 0 = Inr [unmarked l1]" and l1: "same_instance l1 l"
    by (rule answered_request [OF assms(1,2) auth])
  show ?thesis
    using framed_lsa_taken [OF packet body l1 assms(3-6)] run by (auto simp: same_instance_def)
qed

definition sample_peer :: "ipv4 \<Rightarrow> ipv4 \<Rightarrow> ipv4 \<Rightarrow> lsdb \<Rightarrow> world" where
  \<comment> \<open>a router with one open interface and one neighbour in Exchange\<close>
  "sample_peer router_id nbr_id nbr_ip d = (sample_holder router_id)\<lparr>w_lsdb := d, w_intfs :=
     [(interface_create sample_intf 0)\<lparr>is_socket := Some {}, is_neighbors :=
        [(nbr_id, (neighbor_create nbr_id nbr_ip sample_intf)\<lparr>nb_state := Nbr_Exchange\<rparr>)]\<rparr>]\<rparr>"

definition sample_answerer :: world where
  "sample_answerer = sample_peer 16843009 33686018 167772162 (w_lsdb (sample_holder 16843009))"

definition sample_asker :: world where
  "sample_asker = sample_peer 33686018 16843009 167772161 ((empty_lsdb 33686018)\<lparr>ld_areas := [(0, [])]\<rparr>)"

definition sample_item :: lsr_item where
  "sample_item = \<lparr>li_ls_type = 1, li_link_state_id = 167772161, li_advertising_router = 167772161\<rparr>"

lemma sample_link: "shares_link (intf_at sample_answerer 0) (intf_at sample_asker 0) 167772161"
  by code_simp

lemma sample_takes: "can_take 0 (w_router_id sample_answerer) (mark_installed 0 sample_lsa) sample_asker"
  (is "can_take _ _ ?l _")
proof -
  have "db_ok sample_asker"
    by (simp add: sample_asker_def sample_peer_def db_ok_def lsdb_ok_def table_ok_def empty_lsdb_def)
  moreover have "0 < length (w_intfs sample_asker)" "nbr_at sample_asker 0 (w_router_id sample_answerer) \<noteq> None"
    "\<not> is_self_originated (w_lsdb sample_asker) ?l" "lh_ls_type (l_header ?l) \<in> set valid_lsa_types"
    "partition_db 0 (lh_ls_type (l_header ?l)) (w_lsdb sample_asker) = []"
    "lsdb_lookup 0 (lsa_key ?l) (w_lsdb sample_asker) = None" "if_area_id (intf_at sample_asker 0) = 0" by code_simp+
  ultimately show ?thesis by (simp add: can_take_def lacks_def)
qed

theorem requested_lsa_delivered_witness:
  "\<exists>w1 packet dest l'. process_ls_request 0 33686018 [sample_item] sample_answerer = (Inr (), w1)
    \<and> w_trace w1 = [Sent 0 packet dest]
    \<and> lsdb_lookup 0 (1, 167772161, 167772161)
        (w_lsdb (snd (receive_packet 0 (ip_datagram packet) 167772161 sample_asker))) = Some l'
    \<and> l_body l' = l_body sample_lsa"
proof -
  let ?l = "mark_installed 0 sample_lsa"
  have can: "can_answer 0 33686018 ?l sample_answerer" by code_simp
  have item: "lsr_item_key sample_item = lsa_key ?l" by code_simp
  have diff: "w_router_id sample_asker \<noteq> w_router_id sample_answerer" "w_md5 sample_asker = w_md5 sample_answerer"
    by (simp_all add: sample_asker_def sample_answerer_def sample_peer_def sample_holder_def)
  have facts: "if_area_id (intf_at sample_answerer 0) = 0" "lsa_key ?l = (1, 167772161, 167772161)"
    "w_trace sample_answerer = []" "l_body ?l = l_body sample_lsa" by code_simp+
  show ?thesis
    using requested_lsa_delivered [OF can item sample_link sample_takes diff] unfolding facts append_Nil by blast
qed

text \<open>
  C13. Loading ends: when an update with at least the LSAs still requested of a neighbour in state
  Loading is handed to the neighbour, processing it returns, the neighbour is Full with nothing left to
  request, its retransmission list has lost just the LSAs of the update, and a new Router-LSA of the
  interface's area is scheduled.
\<close>
theorem update_completes_loading:
  assumes "nbr_at w i r = Some n" and "nb_state n = Nbr_Loading"
    and "set (map fst (nb_ls_request_list n)) \<subseteq> set keys"
  shows "\<exists>w' n'. process_ls_update i r keys w = (Inr (), w') \<and> nbr_at w' i r = Some n' \<and> nb_state n' = Nbr_Full
    \<and> nb_ls_request_list n' = []
    \<and> map fst (nb_ls_retransmission_list n') = filter (\<lambda>k. k \<notin> set keys) (map fst (nb_ls_retransmission_list n))
    \<and> map_of (w_router_lsa_pending w') (if_area_id (intf_at w i)) \<noteq> None"
  using assms by (rule update_completes)

definition sample_loader :: world where
  \<comment> \<open>the asking router once it waits for the LSA\<close>
  "sample_loader = upd_nbr 0 16843009 (\<lambda>n. n\<lparr>nb_state := Nbr_Loading,
     nb_ls_request_list := [(lsa_key sample_lsa, l_header sample_lsa)]\<rparr>) sample_asker"

theorem update_completes_loading_witness:
  "\<exists>w' n'. process_ls_update 0 16843009 [(1, 167772161, 167772161)] sample_loader = (Inr (), w')
     \<and> nbr_at w' 0 16843009 = Some n' \<and> nb_state n' = Nbr_Full \<and> map_of (w_router_lsa_pending w') 0 \<noteq> None"
proof -
  have "(case nbr_at sample_loader 0 16843009 of None \<Rightarrow> False | Some n \<Rightarrow> nb_state n = Nbr_Loading
      \<and> map fst (nb_ls_request_list n) = [(1, 167772161, 167772161)])"
    and area: "if_area_id (intf_at sample_loader 0) = 0" by code_simp+
  then obtain n where "nbr_at sample_loader 0 16843009 = Some n" "nb_state n = Nbr_Loading"
    "set (map fst (nb_ls_request_list n)) \<subseteq> set [(1, 167772161, 167772161)]"
    by (auto split: option.splits)
  from update_completes_loading [OF this] show ?thesis unfolding area by blast
qed

end
