(* ===== verification/Adjacency.thy ===== *)
theory Adjacency
  imports Sample_Daemon Exchange
begin

text \<open>
  The negotiation of the database exchange, packet by packet, for any two routers of a link that are in
  ExStart with each other; and as an example two daemons followed from their configuration to Full.
\<close>

section \<open>Steps of the negotiation\<close>

definition settled :: "ospf_interface \<Rightarrow> ospf_interface" where
  \<comment> \<open>an interface but for its neighbours and the counter of cryptographic sequence numbers\<close>
  "settled it = it\<lparr>is_neighbors := [], is_crypt_seq := 0\<rparr>"

definition alike :: "world \<Rightarrow> world \<Rightarrow> bool" where
  \<comment> \<open>what the negotiation leaves as it is\<close>
  "alike w w' \<longleftrightarrow> w_router_id w' = w_router_id w \<and> w_options w' = w_options w \<and> w_md5 w' = w_md5 w
     \<and> w_lsdb w' = w_lsdb w \<and> map settled (w_intfs w') = map settled (w_intfs w)"

definition stands :: "nat \<Rightarrow> ipv4 \<Rightarrow> world \<Rightarrow> neighbor \<Rightarrow> effect list \<Rightarrow> world \<Rightarrow> bool" where
  \<comment> \<open>the neighbour is \<open>n\<close> and \<open>sent\<close> has been sent since \<open>w0\<close>\<close>
  "stands i r w0 n sent w \<longleftrightarrow> alike w0 w \<and> nbr_at w i r = Some n \<and> w_trace w = w_trace w0 @ sent"

definition does :: "unit M \<Rightarrow> world \<Rightarrow> (world \<Rightarrow> bool) \<Rightarrow> bool" where
  "does m w Q \<longleftrightarrow> (\<exists>w'. m w = (Inr (), w') \<and> Q w')"

lemma does_seq: "does m w Q \<Longrightarrow> (\<And>w'. Q w' \<Longrightarrow> does m' w' R) \<Longrightarrow> does (seqM m m') w R"
  by (fastforce simp: does_def seqM_def bindM_def)

lemma settled_fields:
  assumes "alike w w'" and "i < length (w_intfs w)"
  shows "length (w_intfs w') = length (w_intfs w)" "settled (intf_at w' i) = settled (intf_at w i)"
proof -
  have m: "map settled (w_intfs w') = map settled (w_intfs w)" using assms(1) by (simp add: alike_def)
  then show len: "length (w_intfs w') = length (w_intfs w)" by (rule map_eq_imp_length_eq)
  have "map settled (w_intfs w') ! i = map settled (w_intfs w) ! i" by (simp only: m)
  then show "settled (intf_at w' i) = settled (intf_at w i)" using assms(2) len by (simp add: intf_at_def)
qed

lemma settled_eq:
  assumes "settled it' = settled it"
  shows "if_mtu it' = if_mtu it" "if_area_id it' = if_area_id it" "if_auth_type it' = if_auth_type it"
    "if_auth_key it' = if_auth_key it" "if_type it' = if_type it" "if_ip_mask it' = if_ip_mask it"
    "if_ip_addr it' = if_ip_addr it" "is_socket it' = is_socket it"
  using assms by (cases it'; cases it; simp add: settled_def)+

lemma stands_facts:
  assumes "stands i r w0 n sent w"
  shows "nbr_at w i r = Some n" "i < length (w_intfs w)" "i < length (w_intfs w0)" "alike w0 w"
    "settled (intf_at w i) = settled (intf_at w0 i)" "w_trace w = w_trace w0 @ sent"
proof -
  show f: "nbr_at w i r = Some n" "alike w0 w" "w_trace w = w_trace w0 @ sent" using assms by (simp_all add: stands_def)
  show "i < length (w_intfs w)" using f(1) by (auto simp: nbr_at_def split: if_splits)
  moreover have "length (w_intfs w) = length (w_intfs w0)"
    using f(2) unfolding alike_def by (metis length_map)
  ultimately show i: "i < length (w_intfs w0)" by simp
  show "settled (intf_at w i) = settled (intf_at w0 i)" by (rule settled_fields(2) [OF f(2) i])
qed

lemma settled_upd_intf:
  assumes "\<And>it. settled (f it) = settled it"
  shows "map settled (w_intfs (upd_intf i f w)) = map settled (w_intfs w)"
  using assms by (cases "i < length (w_intfs w)") (simp_all add: upd_intf_def map_update list_update_same_conv list_update_beyond)

lemma stands_set_nbr:
  assumes "stands i r w0 n sent w"
  shows "does (set_nbr i r f) w (stands i r w0 (f n) sent)"
proof -
  have "map settled (w_intfs (upd_nbr i r f w)) = map settled (w_intfs w)"
    unfolding upd_nbr_def by (rule settled_upd_intf) (simp add: settled_def)
  moreover have "w_router_id (upd_nbr i r f w) = w_router_id w \<and> w_options (upd_nbr i r f w) = w_options w
      \<and> w_md5 (upd_nbr i r f w) = w_md5 w \<and> w_lsdb (upd_nbr i r f w) = w_lsdb w
      \<and> w_trace (upd_nbr i r f w) = w_trace w" by (simp add: upd_nbr_def upd_intf_def)
  ultimately have "stands i r w0 (f n) sent (upd_nbr i r f w)"
    using assms by (simp add: stands_def alike_def)
  then show ?thesis by (simp add: does_def set_nbr_def modM_def)
qed

lemma only_schedules:
  assumes n: "nbr_at w i r = Some n" and "\<not> crosses_2way old (nb_state n)"
  shows "\<exists>w'. neighbor_state_changed k i r old w = (Inr (), w') \<and> alike w w' \<and> nbr_at w' = nbr_at w \<and> w_trace w' = w_trace w"
proof -
  have i: "i < length (w_intfs w)" using n by (auto simp: nbr_at_def split: if_splits)
  have "\<exists>w'. neighbor_state_changed k i r old w = (Inr (), w') \<and> w_intfs w' = w_intfs w \<and> w_router_id w' = w_router_id w
      \<and> w_options w' = w_options w \<and> w_md5 w' = w_md5 w \<and> w_lsdb w' = w_lsdb w \<and> w_trace w' = w_trace w"
    using assms i
    by (auto simp: neighbor_state_changed_def bindM_def get_intf_def get_nbr_def seqM_def whenM_def
        schedule_router_lsa_def schedule_network_lsa_def modM_def retM_def Let_def intf_at_def)
  then obtain w' where w': "neighbor_state_changed k i r old w = (Inr (), w')" "w_intfs w' = w_intfs w"
      "alike w w'" "w_trace w' = w_trace w" unfolding alike_def by auto
  then show ?thesis using nbr_at_cong [OF w'(2)] by blast
qed

lemma stands_negotiation_done:
  assumes s: "stands i r w0 n sent w" and ex: "nb_state n = Nbr_ExStart"
  shows "does (nbr_event i r Negotiation_Done) w (stands i r w0
    ((set_nbr_state Nbr_Exchange n)\<lparr>nb_db_summary_list := get_all_headers (if_area_id (intf_at w0 i)) (w_lsdb w0)\<rparr>) sent)"
    (is "does _ _ (stands i r w0 ?n sent)")
proof -
  note f = stands_facts [OF s]
  have area: "if_area_id (intf_at w i) = if_area_id (intf_at w0 i)" "w_lsdb w = w_lsdb w0"
    using settled_eq(2) [OF f(5)] f(4) by (simp_all add: alike_def)
  let ?f = "\<lambda>n. (set_nbr_state Nbr_Exchange n)\<lparr>nb_db_summary_list := get_all_headers (if_area_id (intf_at w0 i)) (w_lsdb w0)\<rparr>"
  have "does (set_nbr i r ?f) w (stands i r w0 ?n sent)" by (rule stands_set_nbr [OF s])
  then obtain w1 where w1: "set_nbr i r ?f w = (Inr (), w1)" "stands i r w0 ?n sent w1" by (auto simp: does_def)
  have run: "run_nbr_action i r Negotiation_Done_Action w = (Inr (), w1)"
    using w1(1) area by (simp add: bind_get_intf [OF f(2)] bind_getM)
  have "\<not> crosses_2way (nb_state n) (nb_state ?n)" using ex by (simp add: crosses_2way_def set_nbr_state_def nbr_order)
  then obtain w2 where changed: "neighbor_state_changed (cascade 6) i r (nb_state n) w1 = (Inr (), w2)"
      and w2: "alike w1 w2" "nbr_at w2 = nbr_at w1" "w_trace w2 = w_trace w1"
    using only_schedules [OF stands_facts(1) [OF w1(2)]] by blast
  have "cascade 8 (Neighbor_Event i r e) = neighbor_event (cascade 7) i r e" for e
    using cascade.simps(2) [of 7 "Neighbor_Event i r e"] by simp
  moreover have "cascade 7 (Neighbor_State_Changed i r old) = neighbor_state_changed (cascade 6) i r old" for old
    using cascade.simps(2) [of 6 "Neighbor_State_Changed i r old"] by simp
  moreover have "nbr_fsm (nb_state n) Negotiation_Done = Some Negotiation_Done_Action" using ex by (simp add: nbr_fsm_def)
  moreover have "nb_state ?n \<noteq> nb_state n" using ex by (simp add: set_nbr_state_def)
  ultimately have "nbr_event i r Negotiation_Done w = (Inr (), w2)"
    using run changed f(1) stands_facts(1) [OF w1(2)]
    by (simp add: nbr_event_def neighbor_event_def bindM_def get_nbr_def seqM_def whenM_def Let_def del: run_nbr_action.simps)
  moreover have "stands i r w0 ?n sent w2" using w1(2) w2 by (simp add: stands_def alike_def)
  ultimately show ?thesis by (simp add: does_def)
qed

section \<open>Sending a description\<close>

definition describes :: "nat \<Rightarrow> world \<Rightarrow> dd_packet \<Rightarrow> bytes \<Rightarrow> bool" where
  \<comment> \<open>the packet the interface makes of that database description\<close>
  "describes i w dd packet \<longleftrightarrow> (\<exists>sq body it. settled it = settled (intf_at w i)
     \<and> frame_packet (w_md5 w) (w_router_id w) it sq 2 body = Inr packet
     \<and> 24 + length body < 65536 \<and> dd_deserialize body 0 = Inr dd)"

lemma send_dd_sends:
  assumes s: "stands i r w0 n sent w" and dd: "dd = \<lparr>dd_interface_mtu = if_mtu (intf_at w0 i), dd_options = w_options w0,
      dd_flags = flags, dd_seq_number = nb_dd_seq_number n, dd_lsa_headers = hs\<rparr>"
    and wf: "wf_dd dd" and short: "32 + 20 * length hs < 65536"
    and link: "is_socket (intf_at w0 i) \<noteq> None" "if_auth_type (intf_at w0 i) = 0 \<or> if_auth_type (intf_at w0 i) = 1"
  shows "\<exists>packet. describes i w0 dd packet
    \<and> does (send_dd i r flags hs) w (stands i r w0 (n\<lparr>nb_last_sent_dd := Some dd\<rparr>) (sent @ [Sent i packet (nb_ip_addr n)]))"
proof -
  note f = stands_facts [OF s]
  note e = settled_eq [OF f(5)]
  have same: "w_router_id w = w_router_id w0" "w_md5 w = w_md5 w0" "w_options w = w_options w0" using f(4) by (simp_all add: alike_def)
  obtain body where body: "dd_serialize dd = Inr body" "length body = 8 + 20 * length hs" "dd_deserialize body 0 = Inr dd"
    using dd_codec [OF wf] dd by (fastforce dest: spec [of _ "[]"])
  have len: "24 + length body < 65536" using body(2) short by simp
  let ?f = "is_crypt_seq_update (\<lambda>s. (s + 1) AND 0xFFFFFFFF)"
  obtain sq packet where packet: "frame_packet (w_md5 w) (w_router_id w) (intf_at w i) sq 2 body = Inr packet"
    and sent: "send_packet i 2 body (nb_ip_addr n) w
      = (Inr (), (upd_intf i ?f w)\<lparr>w_trace := w_trace w @ [Sent i packet (nb_ip_addr n)]\<rparr>)"
    using send_packet_frames [OF f(2) _ _ len, of 2 "nb_ip_addr n"] link e by (auto simp: u8_def)
  let ?w1 = "(upd_intf i ?f w)\<lparr>w_trace := w_trace w @ [Sent i packet (nb_ip_addr n)]\<rparr>"
  have "map settled (w_intfs (upd_intf i ?f w)) = map settled (w_intfs w)"
    by (rule settled_upd_intf) (simp add: settled_def)
  moreover have "nbr_at ?w1 i r = Some n"
    using f(1,2) by (simp add: nbr_at_def intf_at_def upd_intf_def)
  ultimately have s1: "stands i r w0 n (sent @ [Sent i packet (nb_ip_addr n)]) ?w1"
    using s by (simp add: stands_def alike_def) (simp add: upd_intf_def)
  have "send_dd i r flags hs w = seqM (send_packet i 2 body (nb_ip_addr n)) (set_nbr i r (nb_last_sent_dd_update (\<lambda>_. Some dd))) w"
    using body(1) e same dd by (simp add: send_dd_def bind_get_intf [OF f(2)] bind_get_nbr [OF f(1)] bind_getM Let_def bind_liftM)
  then have "send_dd i r flags hs w = set_nbr i r (nb_last_sent_dd_update (\<lambda>_. Some dd)) ?w1"
    using sent by (simp add: seqM_def bindM_def)
  moreover have "describes i w0 dd packet"
    unfolding describes_def using packet f(5) same len body(3) by metis
  ultimately show ?thesis using stands_set_nbr [OF s1, of "nb_last_sent_dd_update (\<lambda>_. Some dd)"]
    by (auto simp: does_def)
qed

definition can_describe :: "nat \<Rightarrow> world \<Rightarrow> bool" where
  \<comment> \<open>the interface is open and what goes into a description has the size of its field\<close>
  "can_describe i w \<longleftrightarrow> is_socket (intf_at w i) \<noteq> None \<and> (if_auth_type (intf_at w i) = 0 \<or> if_auth_type (intf_at w i) = 1)
     \<and> u16 (if_mtu (intf_at w i)) \<and> u8 (w_options w)
     \<and> list_all wf_lsa_header (get_all_headers (if_area_id (intf_at w i)) (w_lsdb w))"

definition dd_capacity :: "nat \<Rightarrow> world \<Rightarrow> nat" where
  "dd_capacity i w = nat ((if_mtu (intf_at w i) - 24 - 8) div 20)"

lemma next_headers:
  \<comment> \<open>of a neighbour with headers left to describe\<close>
  assumes s: "stands i r w0 n sent w" and c: "can_describe i w0"
    and left: "list_all wf_lsa_header (nb_db_summary_list n)"
    and sq: "- 2147483648 \<le> nb_dd_seq_number n" "nb_dd_seq_number n < 2147483648" and ms: "ms = 0 \<or> ms = 1"
  defines "hs \<equiv> take (dd_capacity i w0) (nb_db_summary_list n)"
  shows "\<exists>packet dd n'. describes i w0 dd packet \<and> dd_seq_number dd = nb_dd_seq_number n \<and> dd_lsa_headers dd = hs
    \<and> (dd_flags dd = ms \<or> dd_flags dd = ms + 2)
    \<and> does (bindM (pop_headers i r) (\<lambda>headers. bindM (get_nbr i r) (\<lambda>n.
        let flags = (if nb_db_summary_list n \<noteq> [] then 0x02 else 0) OR ms in send_dd i r flags headers))) w
        (stands i r w0 n' (sent @ [Sent i packet (nb_ip_addr n)]))
    \<and> nb_state n' = nb_state n \<and> nb_is_master n' = nb_is_master n \<and> nb_dd_seq_number n' = nb_dd_seq_number n
    \<and> nb_ls_request_list n' = nb_ls_request_list n"
proof -
  note f = stands_facts [OF s]
  note e = settled_eq [OF f(5)]
  let ?k = "dd_capacity i w0" and ?n1 = "nb_db_summary_list_update (drop (dd_capacity i w0)) n"
  have k: "nat ((if_mtu (intf_at w i) - 24 - 8) div 20) = ?k" using e by (simp add: dd_capacity_def)
  obtain w1 where w1: "set_nbr i r (nb_db_summary_list_update (drop ?k)) w = (Inr (), w1)" "stands i r w0 ?n1 sent w1"
    using stands_set_nbr [OF s] by (auto simp: does_def)
  let ?flags = "(if nb_db_summary_list ?n1 \<noteq> [] then 0x02 else 0) OR ms :: int"
  have flags: "?flags = ms \<or> ?flags = ms + 2" "u8 ?flags" using ms by (auto simp: u8_def)
  let ?dd = "\<lparr>dd_interface_mtu = if_mtu (intf_at w0 i), dd_options = w_options w0, dd_flags = ?flags,
      dd_seq_number = nb_dd_seq_number ?n1, dd_lsa_headers = hs\<rparr>"
  have mtu: "u16 (if_mtu (intf_at w0 i))" using c by (simp add: can_describe_def)
  have "list_all wf_lsa_header hs" using left by (auto simp: hs_def list_all_iff dest: in_set_takeD)
  then have wf: "wf_dd ?dd" using c sq flags(2) by (simp add: wf_dd_def can_describe_def)
  have "20 * length hs \<le> 65535 - 32"
    using mtu unfolding hs_def dd_capacity_def u16_def by (auto simp: min_def)
  then have short: "32 + 20 * length hs < 65536" by simp
  obtain packet where p: "describes i w0 ?dd packet"
    "does (send_dd i r ?flags hs) w1 (stands i r w0 (?n1\<lparr>nb_last_sent_dd := Some ?dd\<rparr>) (sent @ [Sent i packet (nb_ip_addr n)]))"
    using send_dd_sends [OF w1(2) refl wf short] c by (auto simp: can_describe_def)
  have "pop_headers i r w = (Inr hs, w1)"
    using w1(1) k f(1,2) by (simp add: pop_headers_def get_intf_def get_nbr_def Let_def hs_def seqM_def bindM_def retM_def)
  then have "bindM (pop_headers i r) (\<lambda>headers. bindM (get_nbr i r) (\<lambda>n.
        let flags = (if nb_db_summary_list n \<noteq> [] then 0x02 else 0) OR ms in send_dd i r flags headers)) w
      = send_dd i r ?flags hs w1"
    using stands_facts(1) [OF w1(2)] by (simp add: bindM_def get_nbr_def Let_def)
  then show ?thesis using p flags(1) by (intro exI [of _ packet] exI [of _ ?dd]) (auto simp: does_def)
qed

section \<open>The two sides\<close>

definition negotiating :: "nat \<Rightarrow> ipv4 \<Rightarrow> world \<Rightarrow> neighbor \<Rightarrow> bool" where
  \<comment> \<open>the neighbour with that router id is \<open>n\<close>, in ExStart\<close>
  "negotiating i r w n \<longleftrightarrow> nbr_at w i r = Some n \<and> nb_router_id n = r \<and> nb_state n = Nbr_ExStart \<and> can_describe i w
     \<and> 0 \<le> nb_dd_seq_number n \<and> nb_dd_seq_number n < 2147483647"

lemma negotiating_stands: "negotiating i r w n \<Longrightarrow> stands i r w n [] w"
  by (simp add: negotiating_def stands_def alike_def)

definition area_headers :: "nat \<Rightarrow> world \<Rightarrow> lsa_header list" where
  "area_headers i w = get_all_headers (if_area_id (intf_at w i)) (w_lsdb w)"

lemma opens:
  assumes neg: "negotiating i r w n"
  shows "\<exists>packet dd. describes i w dd packet \<and> dd_flags dd = 7 \<and> dd_seq_number dd = nb_dd_seq_number n \<and> dd_lsa_headers dd = []
    \<and> does (send_dd i r 7 []) w (stands i r w (n\<lparr>nb_last_sent_dd := Some dd\<rparr>) [Sent i packet (nb_ip_addr n)])"
proof -
  let ?dd = "\<lparr>dd_interface_mtu = if_mtu (intf_at w i), dd_options = w_options w,
      dd_flags = 7, dd_seq_number = nb_dd_seq_number n, dd_lsa_headers = []\<rparr>"
  have wf: "wf_dd ?dd" using neg by (simp add: negotiating_def can_describe_def wf_dd_def u8_def)
  obtain packet where "describes i w ?dd packet"
    "does (send_dd i r 7 []) w (stands i r w (n\<lparr>nb_last_sent_dd := Some ?dd\<rparr>) ([] @ [Sent i packet (nb_ip_addr n)]))"
    using send_dd_sends [OF negotiating_stands [OF neg] refl wf] neg by (auto simp: negotiating_def can_describe_def)
  then show ?thesis by (intro exI [of _ packet] exI [of _ ?dd]) simp
qed

lemma doesE:
  assumes "does m w Q"
  obtains w' where "m w = (Inr (), w')" and "Q w'"
  using assms by (auto simp: does_def)

lemma exstart_runs:
  "nbr_at w i r = Some n \<Longrightarrow> nb_state n = Nbr_ExStart \<Longrightarrow> process_dd i r dd w = process_dd_exstart i r dd w"
  by (simp add: process_dd_def bind_get_nbr seqM_def whenM_def bind_retM)

lemma slave_yields:
  assumes neg: "negotiating i r w n" and ids: "w_router_id w < r"
    and dd: "dd_flags dd = 7" "dd_lsa_headers dd = []" "0 \<le> dd_seq_number dd" "dd_seq_number dd < 2147483647"
  shows "\<exists>packet dd' n'. describes i w dd' packet \<and> dd_seq_number dd' = dd_seq_number dd
    \<and> (dd_flags dd' = 0 \<or> dd_flags dd' = 2) \<and> dd_lsa_headers dd' = take (dd_capacity i w) (area_headers i w)
    \<and> does (process_dd i r dd) w (stands i r w n' [Sent i packet (nb_ip_addr n)])
    \<and> nb_state n' = Nbr_Exchange \<and> \<not> nb_is_master n' \<and> nb_dd_seq_number n' = dd_seq_number dd"
proof -
  let ?f = "\<lambda>n. n\<lparr>nb_is_master := False, nb_dd_seq_number := dd_seq_number dd,
      nb_dd_options := dd_options dd, nb_dd_rxmt_timer := pt_stop (nb_dd_rxmt_timer n)\<rparr>"
  let ?n2 = "(set_nbr_state Nbr_Exchange (?f n))\<lparr>nb_db_summary_list := area_headers i w\<rparr>"
  have n: "nbr_at w i r = Some n" "nb_router_id n = r" "nb_state n = Nbr_ExStart" "can_describe i w"
    using neg by (simp_all add: negotiating_def)
  obtain w1 where w1: "set_nbr i r ?f w = (Inr (), w1)" "stands i r w (?f n) [] w1"
    using stands_set_nbr [OF negotiating_stands [OF neg]] by (rule doesE)
  have ex: "nb_state (?f n) = Nbr_ExStart" using n(3) by simp
  from stands_negotiation_done [OF w1(2) ex, folded area_headers_def]
  obtain w2 where w2: "nbr_event i r Negotiation_Done w1 = (Inr (), w2)" "stands i r w ?n2 [] w2" by (rule doesE)
  have left: "list_all wf_lsa_header (nb_db_summary_list ?n2)" using n(4) by (simp add: can_describe_def area_headers_def)
  obtain packet dd' n' where p: "describes i w dd' packet" "dd_seq_number dd' = dd_seq_number dd"
      "dd_lsa_headers dd' = take (dd_capacity i w) (area_headers i w)" "dd_flags dd' = 0 \<or> dd_flags dd' = 0 + 2"
      "does (send_dd_slave i r) w2 (stands i r w n' ([] @ [Sent i packet (nb_ip_addr n)]))"
      "nb_state n' = Nbr_Exchange" "\<not> nb_is_master n'" "nb_dd_seq_number n' = dd_seq_number dd"
    using next_headers [OF w2(2) n(4) left, of 0] dd(3,4) by (auto simp: send_dd_slave_def set_nbr_state_def)
  have "process_dd i r dd w = seqM (set_nbr i r ?f) (seqM (nbr_event i r Negotiation_Done) (send_dd_slave i r)) w"
    using dd ids n by (simp add: exstart_runs process_dd_exstart_def bind_get_nbr bind_getM dd_is_init_def dd_is_more_def
        dd_is_master_def whenM_def)
  then have "process_dd i r dd w = send_dd_slave i r w2" using w1(1) w2(1) by (simp add: seqM_def bindM_def)
  then have "does (process_dd i r dd) w (stands i r w n' [Sent i packet (nb_ip_addr n)])" using p(5) by (simp add: does_def)
  then show ?thesis using p by (intro exI [of _ packet] exI [of _ dd'] exI [of _ n']) simp
qed

lemma requests_added:
  "map_of (fold (\<lambda>h. AList.update (lsa_header_key h) h) hs xs) k \<noteq> None \<longleftrightarrow> k \<in> lsa_header_key ` set hs \<or> map_of xs k \<noteq> None"
  by (induction hs arbitrary: xs) (auto simp: update_conv')

lemma master_leads:
  assumes s: "stands i r w0 n sent w" and n: "nb_router_id n = r" "nb_state n = Nbr_ExStart" "can_describe i w0"
      "0 \<le> nb_dd_seq_number n" "nb_dd_seq_number n < 2147483647"
    and ids: "r < w_router_id w0" and dd: "dd_flags dd = 0 \<or> dd_flags dd = 2" "dd_seq_number dd = nb_dd_seq_number n"
  shows "\<exists>packet dd' n'. describes i w0 dd' packet
    \<and> does (process_dd i r dd) w (stands i r w0 n' (sent @ [Sent i packet (nb_ip_addr n)]))
    \<and> nb_state n' = Nbr_Exchange \<and> nb_is_master n' \<and> nb_dd_seq_number n' = nb_dd_seq_number n + 1
    \<and> (\<forall>h\<in>set (wanted_headers (w_lsdb w0) (if_area_id (intf_at w0 i)) (dd_lsa_headers dd)).
        map_of (nb_ls_request_list n') (lsa_header_key h) \<noteq> None)"
proof -
  let ?f = "\<lambda>n. n\<lparr>nb_is_master := True, nb_dd_options := dd_options dd, nb_dd_rxmt_timer := pt_stop (nb_dd_rxmt_timer n)\<rparr>"
  let ?n2 = "(set_nbr_state Nbr_Exchange (?f n))\<lparr>nb_db_summary_list := area_headers i w0\<rparr>"
  let ?wanted = "wanted_headers (w_lsdb w0) (if_area_id (intf_at w0 i)) (dd_lsa_headers dd)"
  let ?n3 = "add_requests ?wanted ?n2"
  let ?g = "\<lambda>n. n\<lparr>nb_last_received_dd := Some dd, nb_dd_seq_number := nb_dd_seq_number n + 1\<rparr>"
  obtain w1 where w1: "set_nbr i r ?f w = (Inr (), w1)" "stands i r w0 (?f n) sent w1"
    using stands_set_nbr [OF s] by (rule doesE)
  have ex: "nb_state (?f n) = Nbr_ExStart" using n(2) by simp
  from stands_negotiation_done [OF w1(2) ex, folded area_headers_def]
  obtain w2 where w2: "nbr_event i r Negotiation_Done w1 = (Inr (), w2)" "stands i r w0 ?n2 sent w2" by (rule doesE)
  have here: "w_lsdb w2 = w_lsdb w0" "if_area_id (intf_at w2 i) = if_area_id (intf_at w0 i)" "i < length (w_intfs w2)"
    using stands_facts [OF w2(2)] settled_eq(2) [OF stands_facts(5) [OF w2(2)]] by (simp_all add: alike_def)
  obtain w3 where w3: "set_nbr i r (add_requests ?wanted) w2 = (Inr (), w3)" "stands i r w0 ?n3 sent w3"
    using stands_set_nbr [OF w2(2)] by (rule doesE)
  have headers: "process_dd_headers i r dd w2 = (Inr (), w3)"
    using w3(1) here by (simp add: process_dd_headers_def bind_get_intf bind_getM)
  obtain w4 where w4: "set_nbr i r ?g w3 = (Inr (), w4)" "stands i r w0 (?g ?n3) sent w4"
    using stands_set_nbr [OF w3(2)] by (rule doesE)
  have left: "list_all wf_lsa_header (nb_db_summary_list (?g ?n3))"
    using n(3) by (simp add: can_describe_def area_headers_def add_requests_def)
  obtain packet dd' n' where p: "describes i w0 dd' packet"
      "does (send_dd_master i r) w4 (stands i r w0 n' (sent @ [Sent i packet (nb_ip_addr n)]))"
      "nb_state n' = Nbr_Exchange" "nb_is_master n'" "nb_dd_seq_number n' = nb_dd_seq_number n + 1"
      "nb_ls_request_list n' = nb_ls_request_list (?g ?n3)"
    using next_headers [OF w4(2) n(3) left, of 1] n(4,5)
    by (auto simp: send_dd_master_def set_nbr_state_def add_requests_def)
  have first: "process_dd i r dd w = seqM (set_nbr i r ?f) (seqM (nbr_event i r Negotiation_Done)
      (seqM (process_dd_headers i r dd) (seqM (set_nbr i r ?g) (send_dd_master i r)))) w"
    using dd ids n stands_facts(1,4) [OF s]
    by (auto simp: exstart_runs process_dd_exstart_def bind_get_nbr bind_getM dd_is_init_def dd_is_more_def
        dd_is_master_def alike_def)
  have "process_dd i r dd w = send_dd_master i r w4"
    unfolding first using w1(1) w2(1) headers w4(1) by (simp add: seqM_def bindM_def)
  then have "does (process_dd i r dd) w (stands i r w0 n' (sent @ [Sent i packet (nb_ip_addr n)]))" using p(2) by (simp add: does_def)
  moreover have "map_of (nb_ls_request_list n') (lsa_header_key h) \<noteq> None" if "h \<in> set ?wanted" for h
    using that p(6) by (simp add: add_requests_def requests_added del: not_None_eq)
  ultimately show ?thesis using p by blast
qed

section \<open>Over the link\<close>

lemma shares_link_settled:
  assumes "settled it1 = settled it" and "settled it1' = settled it'"
  shows "shares_link it1 it1' src = shares_link it it' src"
  using settled_eq [OF assms(1)] settled_eq [OF assms(2)] by (simp add: shares_link_def)

lemma description_received:
  assumes d: "describes i w dd packet" and link: "shares_link (intf_at w i) (intf_at w' j) src"
    and w': "nbr_at w' j (w_router_id w) = Some n" "w_router_id w' \<noteq> w_router_id w" "w_md5 w' = w_md5 w"
    and run: "does (process_dd j (w_router_id w) dd) w' Q"
  shows "does (receive_packet j (ip_datagram packet) src) w' Q"
proof -
  obtain sq body it where it: "settled it = settled (intf_at w i)" "24 + length body < 65536" "dd_deserialize body 0 = Inr dd"
      "frame_packet (w_md5 w') (w_router_id w) it sq 2 body = Inr packet"
    using d w'(3) by (auto simp: describes_def)
  have j: "j < length (w_intfs w')" using w'(1) by (auto simp: nbr_at_def split: if_splits)
  have "shares_link it (intf_at w' j) src" using shares_link_settled [OF it(1) refl] link by simp
  from framed_packet_received [OF it(4) _ it(2) this j w'(2)]
  have "receive_packet j (ip_datagram packet) src w' = catchM (dispatch j 2 (w_router_id w) body src) w'"
    by (simp add: u8_def)
  moreover have "dispatch j 2 (w_router_id w) body src w' = process_dd j (w_router_id w) dd w'"
    using w'(1) it(3) by (simp add: dispatch_def bind_liftM if_neighbor_def bind_getM whenM_def)
  ultimately show ?thesis using run by (auto simp: does_def catchM_def)
qed

section \<open>Properties\<close>

text \<open>
  C12. Two routers of a link negotiate who leads the exchange: let each have the other as a neighbour in
  ExStart, on a link with the same area and null or password authentication. The router with the higher
  id sends its opening description; the one with the lower id, on receiving it, yields: it enters
  Exchange as the slave with the other's sequence number and sends the first part of its database's
  headers. On receiving this packet the first router enters Exchange as the master, has moved on to the
  next sequence number, lists for request every LSA described that is newer than its own or missing,
  and sends its own first description. Each step returns and sends the one packet.
\<close>
theorem negotiation_completes:
  assumes low: "negotiating i (w_router_id w') w n" and high: "negotiating j (w_router_id w) w' n'"
    and ids: "w_router_id w < w_router_id w'" and md5: "w_md5 w' = w_md5 w"
    and link: "shares_link (intf_at w i) (intf_at w' j) src" "shares_link (intf_at w' j) (intf_at w i) src'"
  shows "\<exists>p1 w1 p2 w2 p3 w3 n2 n3.
    send_dd j (w_router_id w) 0x07 [] w' = (Inr (), w1) \<and> w_trace w1 = w_trace w' @ [Sent j p1 (nb_ip_addr n')]
    \<and> receive_packet i (ip_datagram p1) src' w = (Inr (), w2) \<and> w_trace w2 = w_trace w @ [Sent i p2 (nb_ip_addr n)]
    \<and> receive_packet j (ip_datagram p2) src w1 = (Inr (), w3) \<and> w_trace w3 = w_trace w1 @ [Sent j p3 (nb_ip_addr n')]
    \<and> nbr_at w2 i (w_router_id w') = Some n2 \<and> nb_state n2 = Nbr_Exchange \<and> \<not> nb_is_master n2
    \<and> nb_dd_seq_number n2 = nb_dd_seq_number n'
    \<and> nbr_at w3 j (w_router_id w) = Some n3 \<and> nb_state n3 = Nbr_Exchange \<and> nb_is_master n3
    \<and> nb_dd_seq_number n3 = nb_dd_seq_number n' + 1
    \<and> (\<forall>h\<in>set (wanted_headers (w_lsdb w') (if_area_id (intf_at w' j)) (take (dd_capacity i w) (area_headers i w))).
        map_of (nb_ls_request_list n3) (lsa_header_key h) \<noteq> None)"
proof -
  let ?a = "w_router_id w" and ?b = "w_router_id w'"
  have ne: "?a \<noteq> ?b" "?b \<noteq> ?a" using ids by auto
  obtain p1 dd1 where d1: "describes j w' dd1 p1" "dd_flags dd1 = 7" "dd_seq_number dd1 = nb_dd_seq_number n'" "dd_lsa_headers dd1 = []"
      "does (send_dd j ?a 7 []) w' (stands j ?a w' (n'\<lparr>nb_last_sent_dd := Some dd1\<rparr>) [Sent j p1 (nb_ip_addr n')])"
    using opens [OF high] by blast
  obtain w1 where w1: "send_dd j ?a 7 [] w' = (Inr (), w1)"
      "stands j ?a w' (n'\<lparr>nb_last_sent_dd := Some dd1\<rparr>) [Sent j p1 (nb_ip_addr n')] w1"
    using d1(5) by (rule doesE)
  have seq: "0 \<le> nb_dd_seq_number n'" "nb_dd_seq_number n' < 2147483647" using high by (simp_all add: negotiating_def)
  obtain p2 dd2 n2 where d2: "describes i w dd2 p2" "dd_seq_number dd2 = nb_dd_seq_number n'" "dd_flags dd2 = 0 \<or> dd_flags dd2 = 2"
      "dd_lsa_headers dd2 = take (dd_capacity i w) (area_headers i w)"
      "does (process_dd i ?b dd1) w (stands i ?b w n2 [Sent i p2 (nb_ip_addr n)])"
      "nb_state n2 = Nbr_Exchange" "\<not> nb_is_master n2" "nb_dd_seq_number n2 = nb_dd_seq_number n'"
    using slave_yields [OF low ids d1(2,4)] d1(3) seq by auto
  have nbr: "nbr_at w i ?b = Some n" using low by (simp add: negotiating_def)
  obtain w2 where w2: "receive_packet i (ip_datagram p1) src' w = (Inr (), w2)" "stands i ?b w n2 [Sent i p2 (nb_ip_addr n)] w2"
    using description_received [OF d1(1) link(2) nbr ne(1) _ d2(5)] md5 by (auto elim: doesE)
  have w1f: "w_router_id w1 = ?b" "w_md5 w1 = w_md5 w'" "settled (intf_at w1 j) = settled (intf_at w' j)"
      "nbr_at w1 j ?a = Some (n'\<lparr>nb_last_sent_dd := Some dd1\<rparr>)"
    using stands_facts [OF w1(2)] by (simp_all add: alike_def)
  have n': "nb_router_id (n'\<lparr>nb_last_sent_dd := Some dd1\<rparr>) = ?a" "nb_state (n'\<lparr>nb_last_sent_dd := Some dd1\<rparr>) = Nbr_ExStart"
      "can_describe j w'" using high by (simp_all add: negotiating_def)
  obtain p3 dd3 n3 where d3:
      "does (process_dd j ?a dd2) w1 (stands j ?a w' n3 ([Sent j p1 (nb_ip_addr n')] @ [Sent j p3 (nb_ip_addr n')]))"
      "nb_state n3 = Nbr_Exchange" "nb_is_master n3" "nb_dd_seq_number n3 = nb_dd_seq_number n' + 1"
      "\<forall>h\<in>set (wanted_headers (w_lsdb w') (if_area_id (intf_at w' j)) (dd_lsa_headers dd2)).
        map_of (nb_ls_request_list n3) (lsa_header_key h) \<noteq> None"
    using master_leads [OF w1(2) n' _ _ ids d2(3)] d2(2) seq by auto
  have "shares_link (intf_at w i) (intf_at w1 j) src" using shares_link_settled [OF refl w1f(3)] link(1) by simp
  then obtain w3 where w3: "receive_packet j (ip_datagram p2) src w1 = (Inr (), w3)"
      "stands j ?a w' n3 ([Sent j p1 (nb_ip_addr n')] @ [Sent j p3 (nb_ip_addr n')]) w3"
    using description_received [OF d2(1) _ w1f(4) _ _ d3(1)] ne md5 w1f(1,2) by (auto elim: doesE)
  note f = stands_facts(1,6) [OF w1(2)] stands_facts(1,6) [OF w2(2)] stands_facts(1,6) [OF w3(2)]
  have "w_trace w3 = w_trace w1 @ [Sent j p3 (nb_ip_addr n')]" using f(2,6) by simp
  then show ?thesis using w1(1) w2(1) w3(1) f(2,3,4,5) d2(4,6-8) d3(2-5)
    by (intro exI [of _ p1] exI [of _ w1] exI [of _ p2] exI [of _ w2] exI [of _ p3] exI [of _ w3] exI [of _ n2] exI [of _ n3]) simp
qed

definition sample_meeting :: "ipv4 \<Rightarrow> ipv4 \<Rightarrow> ipv4 \<Rightarrow> world" where
  \<comment> \<open>a router with one LSA and the other as a neighbour in ExStart\<close>
  "sample_meeting router_id nbr_id nbr_ip = upd_nbr 0 nbr_id (\<lambda>n. n\<lparr>nb_state := Nbr_ExStart, nb_dd_seq_number := 100\<rparr>)
     (sample_peer router_id nbr_id nbr_ip (if router_id = 16843009 then w_lsdb (sample_holder 16843009)
       else (empty_lsdb router_id)\<lparr>ld_areas := [(0, [])]\<rparr>))"

theorem negotiation_completes_witness:
  "\<exists>p1 w1 p2 w2 w3 n2 n3. send_dd 0 16843009 0x07 [] (sample_meeting 33686018 16843009 167772161) = (Inr (), w1)
     \<and> receive_packet 0 (ip_datagram p1) 167772162 (sample_meeting 16843009 33686018 167772162) = (Inr (), w2)
     \<and> receive_packet 0 (ip_datagram p2) 167772161 w1 = (Inr (), w3)
     \<and> nbr_at w2 0 33686018 = Some n2 \<and> nb_state n2 = Nbr_Exchange \<and> \<not> nb_is_master n2
     \<and> nbr_at w3 0 16843009 = Some n3 \<and> nb_state n3 = Nbr_Exchange \<and> nb_is_master n3
     \<and> map_of (nb_ls_request_list n3) (1, 167772161, 167772161) \<noteq> None"
proof -
  let ?w = "sample_meeting 16843009 33686018 167772162" and ?w' = "sample_meeting 33686018 16843009 167772161"
  have ids: "w_router_id ?w = 16843009" "w_router_id ?w' = 33686018" by code_simp+
  have "case nbr_at ?w 0 33686018 of None \<Rightarrow> False | Some n \<Rightarrow> negotiating 0 33686018 ?w n"
    "case nbr_at ?w' 0 16843009 of None \<Rightarrow> False | Some n \<Rightarrow> negotiating 0 16843009 ?w' n"
    unfolding negotiating_def by code_simp+
  then obtain n n' where n: "negotiating 0 (w_router_id ?w') ?w n" "negotiating 0 (w_router_id ?w) ?w' n'"
    unfolding ids by (auto split: option.splits)
  have "shares_link (intf_at ?w 0) (intf_at ?w' 0) 167772161" "shares_link (intf_at ?w' 0) (intf_at ?w 0) 167772162"
    "w_router_id ?w < w_router_id ?w'" by code_simp+
  moreover have "w_md5 ?w' = w_md5 ?w" by (simp add: sample_meeting_def sample_peer_def sample_holder_def upd_nbr_def upd_intf_def)
  moreover have "map lsa_header_key (wanted_headers (w_lsdb ?w') (if_area_id (intf_at ?w' 0)) (take (dd_capacity 0 ?w) (area_headers 0 ?w)))
      = [(1, 167772161, 167772161)]" by code_simp
  then obtain h where h: "h \<in> set (wanted_headers (w_lsdb ?w') (if_area_id (intf_at ?w' 0)) (take (dd_capacity 0 ?w) (area_headers 0 ?w)))"
      "lsa_header_key h = (1, 167772161, 167772161)" by (auto simp: map_eq_Cons_conv)
  ultimately obtain p1 w1 p2 w2 w3 n2 n3 where "send_dd 0 (w_router_id ?w) 0x07 [] ?w' = (Inr (), w1)"
      "receive_packet 0 (ip_datagram p1) 167772162 ?w = (Inr (), w2)" "receive_packet 0 (ip_datagram p2) 167772161 w1 = (Inr (), w3)"
      "nbr_at w2 0 (w_router_id ?w') = Some n2" "nb_state n2 = Nbr_Exchange" "\<not> nb_is_master n2"
      "nbr_at w3 0 (w_router_id ?w) = Some n3" "nb_state n3 = Nbr_Exchange" "nb_is_master n3"
      "map_of (nb_ls_request_list n3) (lsa_header_key h) \<noteq> None"
    using negotiation_completes [OF n] by blast
  then show ?thesis unfolding ids h(2) by blast
qed

section \<open>An example: a link with a daemon at each end\<close>

definition link_system :: "ipv4 \<Rightarrow> sys_env" where
  \<comment> \<open>the sample system with that address on its interface\<close>
  "link_system ip = sample_system\<lparr>se_interfaces := map (ii_addresses_update (\<lambda>_. [(ip, 24)])) (se_interfaces sample_system)\<rparr>"

definition link_daemon :: "ipv4 \<Rightarrow> ipv4 \<Rightarrow> daemon option" where
  "link_daemon router_id ip = boot (link_system ip) (sample_config router_id 1) 1000 (\<lambda>_. 100) (\<lambda>_. [])"

definition link_start :: "daemon \<times> daemon" where
  \<comment> \<open>router 1 at 10.0.0.1 and router 2 at 10.0.0.2, on a point-to-point link\<close>
  "link_start = (the (link_daemon 1 167772161), the (link_daemon 2 167772162))"

definition link_packets :: "daemon \<Rightarrow> bytes list" where
  \<comment> \<open>sent and not received yet\<close>
  "link_packets d = map (\<lambda>s. case s of Sent _ packet _ \<Rightarrow> packet) (w_trace (dm_world d))"

definition link_sent :: "daemon \<Rightarrow> daemon" where
  "link_sent d = d\<lparr>dm_world := (dm_world d)\<lparr>w_trace := []\<rparr>\<rparr>"

definition deliver :: "ipv4 \<Rightarrow> daemon \<Rightarrow> daemon \<Rightarrow> daemon" where
  \<comment> \<open>the second daemon after it has received what the first one, at that address, has sent\<close>
  "deliver ip a b = run_inputs (map (\<lambda>packet. Datagram_In 0 (ip_datagram packet) ip) (link_packets a)) b"

definition link_round :: "daemon \<times> daemon \<Rightarrow> daemon \<times> daemon" where
  "link_round = (\<lambda>(a, b).
     let b' = deliver 167772161 a b; a' = deliver 167772162 b' (link_sent a) in (a', link_sent b'))"

definition say_hello :: "daemon \<Rightarrow> daemon" where
  \<comment> \<open>ten seconds later the Hello timer fires\<close>
  "say_hello d = run_inputs [Hello_Fires 0] (d\<lparr>dm_world := (dm_world d)\<lparr>w_now := w_now (dm_world d) + 10\<rparr>\<rparr>)"

definition link_view :: "daemon \<Rightarrow> nbr_state list \<times> lsa_ident list" where
  \<comment> \<open>the states of the neighbours on the link and the LSAs of the backbone\<close>
  "link_view d = (map nb_state (map snd (is_neighbors (intf_at (dm_world d) 0))),
     map fst (area_db 0 (w_lsdb (dm_world d))))"

fun link_history ::
    "nat \<Rightarrow> daemon \<times> daemon \<Rightarrow> ((nbr_state list \<times> lsa_ident list) \<times> (nbr_state list \<times> lsa_ident list)) list" where
  "link_history 0 p = [map_prod link_view link_view p]"
| "link_history (Suc n) p = map_prod link_view link_view p # link_history n (link_round p)"

text \<open>
  The two daemons, booted, hear each other's first Hello, and after the second one four rounds of
  delivering packets take them through ExStart, Exchange and Loading to Full. At the end the databases
  of both hold the two Router-LSAs, each the other's obtained by a link state request.
\<close>
lemma adjacency_reaches_full:
  "link_history 4 (map_prod say_hello say_hello (link_round link_start)) =
     [(([Nbr_Init], [(1, 1, 1)]), ([Nbr_Init], [(1, 2, 2)])),
      (([Nbr_Exchange], [(1, 1, 1)]), ([Nbr_ExStart], [(1, 2, 2)])),
      (([Nbr_Loading], [(1, 1, 1)]), ([Nbr_Exchange], [(1, 2, 2)])),
      (([Nbr_Full], [(1, 1, 1), (1, 2, 2)]), ([Nbr_Loading], [(1, 2, 2)])),
      (([Nbr_Full], [(1, 1, 1), (1, 2, 2)]), ([Nbr_Full], [(1, 2, 2), (1, 1, 1)]))]"
  by code_simp

end
