(* ===== verification/Nbr_Correct.thy ===== *)
theory Nbr_Correct
  imports Nbr_Invariant Adjacency
begin

text \<open>
  What the invariant of the neighbours means for the routers of a link: who leads an exchange, how a
  dead neighbour is noticed, and what is not repeated when a packet is lost.
\<close>

section \<open>A neighbour that has fallen\<close>

definition gone :: "nat \<Rightarrow> ipv4 \<Rightarrow> world \<Rightarrow> bool" where
  "gone i r w \<longleftrightarrow> (\<forall>n. nbr_at w i r = Some n \<longrightarrow> nb_state n = Nbr_Down \<and> nb_db_summary_list n = []
     \<and> nb_ls_request_list n = [] \<and> nb_ls_retransmission_list n = [] \<and> \<not> os_is_running (nb_inactivity_timer n))"

lemma gone_cong: "gone i r w \<Longrightarrow> w_intfs w' = w_intfs w \<Longrightarrow> gone i r w'"
  unfolding gone_def using nbr_at_cong [of w' w] by simp

lemma gone_set_intf:
  assumes "\<And>it. is_neighbors (f it) = is_neighbors it \<or> is_neighbors (f it) = []"
  shows "keeps (gone i r) (set_intf j f)"
  unfolding keeps_def set_intf_def modM_def
proof (intro allI impI)
  fix w assume w: "gone i r w"
  show "gone i r (snd (Inr (), upd_intf j f w))"
    using w assms [of "intf_at w j"] by (auto simp: gone_def nbr_at_upd_intf [OF refl]) (auto simp: nbr_at_def)
qed

lemma gone_mod: "(\<And>w. w_intfs (f w) = w_intfs w) \<Longrightarrow> keeps (gone i r) (modM f)"
  by (intro keeps_mod) (erule gone_cong)

lemma gone_packet: "keeps (gone i r) draw" "keeps (gone i r) (send_packet j t b d)"
proof -
  show "keeps (gone i r) draw" unfolding keeps_def draw_def by (auto elim: gone_cong)
  show "keeps (gone i r) (send_packet j t b d)"
    unfolding send_packet_def by (intro keeps_intros gone_set_intf gone_mod) simp_all
qed

lemma gone_sending:
  "keeps (gone i r) (schedule_router_lsa a)" "keeps (gone i r) (schedule_network_lsa j)"
  "keeps (gone i r) (start_hello j)" "keeps (gone i r) (stop_all j)"
proof -
  show "keeps (gone i r) (schedule_router_lsa a)" "keeps (gone i r) (schedule_network_lsa j)"
    unfolding schedule_router_lsa_def schedule_network_lsa_def by (auto intro!: gone_mod simp: Let_def)
  have "keeps (gone i r) (send_hello j)"
    unfolding send_hello_def Let_def by (intro keeps_intros gone_packet)
  then show "keeps (gone i r) (start_hello j)" "keeps (gone i r) (stop_all j)"
    unfolding start_hello_def stop_all_def draw_fraction_def by (intro keeps_intros gone_set_intf gone_packet; simp)+
qed

lemma gone_other_nbr: "(j, s) \<noteq> (i, r) \<Longrightarrow> keeps (gone i r) (set_nbr j s f)"
  by (auto simp: keeps_def set_nbr_def modM_def gone_def)

lemma gone_other_action: "(j, s) \<noteq> (i, r) \<Longrightarrow> keeps (gone i r) (run_nbr_action j s a)"
proof -
  assume o: "(j, s) \<noteq> (i, r)"
  note other = gone_other_nbr [OF o]
  have dd: "keeps (gone i r) (send_dd j s fl hs)" for fl hs
    unfolding send_dd_def Let_def by (intro keeps_intros other gone_packet)
  have "keeps (gone i r) (start_dd_exchange j s)" "keeps (gone i r) (send_ls_request j s)"
    unfolding start_dd_exchange_def send_ls_request_def Let_def by (intro keeps_intros other gone_packet dd)+
  then show ?thesis
    by (cases a) (simp_all only: run_nbr_action.simps form_adjacency_def seq_num_mismatch_def,
      (intro keeps_intros other | assumption)+)
qed

interpretation gone: cascade_frame "gone i r" "\<lambda>j s e. (j, s) = (i, r) \<longrightarrow> e \<noteq> Hello_Received \<and> e \<noteq> Nbr_Start"
  for i r
proof unfold_locales
  fix w :: world and j s e n a
  assume w: "gone i r w" and n: "nbr_at w j s = Some n" and a: "nbr_fsm (nb_state n) e = Some a"
    and e: "(j, s) = (i, r) \<longrightarrow> e \<noteq> Hello_Received \<and> e \<noteq> Nbr_Start"
  have "nbr_fsm Nbr_Down e = None" if "(j, s) = (i, r)"
    using e that by (cases e) (simp_all add: nbr_fsm_def)
  then have "(j, s) \<noteq> (i, r)" using w n a by (auto simp: gone_def)
  then show "gone i r (snd (run_nbr_action j s a w))" using keeps_run [OF gone_other_action w] by blast
next
  fix j s
  show "keeps (gone i r) (set_nbr j s go_down_reset)"
    by (cases "(j, s) = (i, r)")
      (auto simp: gone_other_nbr keeps_def set_nbr_def modM_def gone_def nbr_inv_simps)
next
  fix j and f :: "ospf_interface \<Rightarrow> ospf_interface"
  assume "\<And>it. (is_neighbors (f it) = is_neighbors it \<or> is_neighbors (f it) = []) \<and> if_dead_interval (f it) = if_dead_interval it"
  then show "keeps (gone i r) (set_intf j f)" by (intro gone_set_intf) blast
qed (simp_all add: gone_sending)

lemma inactivity_gone: "gone i r (snd (fire_inactivity_timer i r w))"
proof (cases "nbr_at w i r")
  case None
  then show ?thesis
    by (simp add: fire_inactivity_timer_def set_nbr_def seq_modM upd_nbr_absent catchM_def absent_event gone_def)
next
  case (Some n)
  have "gone i r (upd_nbr i r (\<lambda>n. go_down_reset (nb_inactivity_timer_update os_cancel n)) w)"
    using Some by (simp add: gone_def nbr_inv_simps)
  moreover have "keeps (gone i r) (seqM (whenM (nb_state n \<noteq> Nbr_Down) (cascade 7 (Neighbor_State_Changed i r (nb_state n))))
      (bindM (get_nbr i r) (\<lambda>n'. whenM (nb_state n' \<noteq> nb_state n) (cascade 7 (Neighbor_State_Changed i r (nb_state n))))))"
    by (intro keeps_intros gone.cascading gone.permitted_simps)
  ultimately show ?thesis
    unfolding inactivity_fires [OF Some] set_nbr_def seq_modM catchM_def upd_nbr_twice by (simp add: keeps_run)
qed

section \<open>Two routers of a link in Exchange\<close>

definition peer_datagram :: "ipv4 \<Rightarrow> int \<Rightarrow> bytes result \<Rightarrow> bytes" where
  \<comment> \<open>a packet of that router on the sample link\<close>
  "peer_datagram router_id packet_type body =
     (case bindE body (frame_packet (\<lambda>_. []) router_id (sample_intf\<lparr>if_auth_type := 0\<rparr>) 0 packet_type) of
        Inl _ \<Rightarrow> [] | Inr packet \<Rightarrow> ip_datagram packet)"

definition peer_inputs :: "ipv4 \<Rightarrow> ipv4 \<Rightarrow> ipv4 \<Rightarrow> int \<Rightarrow> int \<Rightarrow> input list" where
  \<comment> \<open>a neighbour that has heard this router and answers with an empty database description\<close>
  "peer_inputs router_id peer peer_ip flags seq =
     [Datagram_In 0 (peer_datagram peer 1 (hello_serialize (sample_hello\<lparr>hp_neighbors := [router_id]\<rparr>))) peer_ip,
      Datagram_In 0 (peer_datagram peer 2 (dd_serialize \<lparr>dd_interface_mtu = 1500, dd_options = 2, dd_flags = flags,
        dd_seq_number = seq, dd_lsa_headers = []\<rparr>)) peer_ip]"

definition link_run :: "ipv4 \<Rightarrow> ipv4 \<Rightarrow> input list \<Rightarrow> daemon" where
  "link_run router_id ip xs = (case link_daemon router_id ip of None \<Rightarrow> run_inputs xs undefined | Some d \<Rightarrow> run_inputs xs d)"

lemma link_running:
  "link_daemon router_id ip \<noteq> None \<Longrightarrow> running (link_system ip) (sample_config router_id 1) (link_run router_id ip xs)"
  using running_inputs by (fastforce simp: link_daemon_def link_run_def split: option.split)

definition peer_view :: "daemon \<Rightarrow> ipv4 \<Rightarrow> (ipv4 \<times> time \<times> (nbr_state \<times> bool \<times> time option) option)" where
  \<comment> \<open>the router's id, the time, and the neighbour's state, role and deadline on the first interface\<close>
  "peer_view d r = (w_router_id (dm_world d), w_now (dm_world d),
     map_option (\<lambda>n. (nb_state n, nb_is_master n, os_due (nb_inactivity_timer n))) (nbr_at (dm_world d) 0 r))"

lemma peer_viewD:
  assumes "peer_view d r = (rid, now, Some (s, m, due))"
  obtains n where "w_router_id (dm_world d) = rid" "w_now (dm_world d) = now" "nbr_at (dm_world d) 0 r = Some n"
    "nb_state n = s" "nb_is_master n = m" "os_due (nb_inactivity_timer n) = due"
  using assms by (auto simp: peer_view_def)

definition lower :: daemon where
  \<comment> \<open>router 1, which router 2 asks to lead\<close>
  "lower = link_run 1 167772161 (peer_inputs 1 2 167772162 7 9)"

definition higher :: daemon where
  \<comment> \<open>router 2, to which router 1 has yielded\<close>
  "higher = link_run 2 167772162 (peer_inputs 2 1 167772161 0 100)"

lemma lower_exchanges:
  obtains n where "running (link_system 167772161) (sample_config 1 1) lower" "w_router_id (dm_world lower) = 1"
    "w_now (dm_world lower) = 1000" "nbr_at (dm_world lower) 0 2 = Some n" "nb_state n = Nbr_Exchange"
    "os_due (nb_inactivity_timer n) = Some 1040"
proof -
  have "link_daemon 1 167772161 \<noteq> None" by code_simp
  moreover have "peer_view lower 2 = (1, 1000, Some (Nbr_Exchange, False, Some 1040))" by code_simp
  ultimately show ?thesis using that link_running by (auto simp: lower_def elim!: peer_viewD)
qed

lemma higher_exchanges:
  obtains n where "running (link_system 167772162) (sample_config 2 1) higher" "w_router_id (dm_world higher) = 2"
    "nbr_at (dm_world higher) 0 1 = Some n" "nb_state n = Nbr_Exchange"
proof -
  have "link_daemon 2 167772162 \<noteq> None" by code_simp
  moreover have "peer_view higher 1 = (2, 1000, Some (Nbr_Exchange, True, Some 1040))" by code_simp
  ultimately show ?thesis using that link_running by (auto simp: higher_def elim!: peer_viewD)
qed

section \<open>Properties\<close>

text \<open>
  C5. Of two routers that exchange databases exactly one is the master: whatever each of them has
  received and whatever timers have fired, when each has the other in state Exchange or above, the
  one with the higher router id holds itself for the master and the other one does not.
\<close>
theorem exchange_has_one_master:
  assumes "running env1 cfg1 d1" and "running env2 cfg2 d2"
    and "nbr_at (dm_world d1) i1 (w_router_id (dm_world d2)) = Some n2" and "Nbr_Exchange \<le> nb_state n2"
    and "nbr_at (dm_world d2) i2 (w_router_id (dm_world d1)) = Some n1" and "Nbr_Exchange \<le> nb_state n1"
    and "w_router_id (dm_world d1) < w_router_id (dm_world d2)"
  shows "\<not> nb_is_master n2 \<and> nb_is_master n1"
proof -
  have "nb_is_master n2 = (w_router_id (dm_world d2) < w_router_id (dm_world d1))"
    "nb_is_master n1 = (w_router_id (dm_world d1) < w_router_id (dm_world d2))"
    using running_inv [OF assms(1)] running_inv [OF assms(2)] assms(3-6) by (auto simp: nbrs_inv_def nbr_inv_def)
  then show ?thesis using assms(7) by auto
qed

theorem exchange_has_one_master_witness:
  "\<exists>n1 n2. nbr_at (dm_world lower) 0 2 = Some n2 \<and> nbr_at (dm_world higher) 0 1 = Some n1
     \<and> nb_state n1 = Nbr_Exchange \<and> nb_state n2 = Nbr_Exchange \<and> \<not> nb_is_master n2 \<and> nb_is_master n1"
proof -
  obtain n2 where lo: "running (link_system 167772161) (sample_config 1 1) lower" "w_router_id (dm_world lower) = 1"
    "nbr_at (dm_world lower) 0 2 = Some n2" "nb_state n2 = Nbr_Exchange" by (rule lower_exchanges)
  obtain n1 where hi: "running (link_system 167772162) (sample_config 2 1) higher" "w_router_id (dm_world higher) = 2"
    "nbr_at (dm_world higher) 0 1 = Some n1" "nb_state n1 = Nbr_Exchange" by (rule higher_exchanges)
  have "\<not> nb_is_master n2 \<and> nb_is_master n1"
    by (rule exchange_has_one_master [OF lo(1) hi(1), of 0 n2 0 n1]) (simp_all add: lo hi)
  then show ?thesis using lo hi by blast
qed

text \<open>
  C6. A dead neighbour is noticed: every neighbour that is not Down is watched by its inactivity
  timer, which fires no later than one dead interval of its interface from now, and when it does, the
  neighbour is Down, with no list left and no timer running, or is no longer in the table, whatever
  the events this causes raise.
\<close>
theorem dead_neighbor_detected:
  assumes "running env cfg d" and "nbr_at (dm_world d) i r = Some n" and "nb_state n \<noteq> Nbr_Down"
  shows "\<exists>t. os_due (nb_inactivity_timer n) = Some t
    \<and> t \<le> w_now (dm_world d) + of_int (if_dead_interval (intf_at (dm_world d) i))
    \<and> (case nbr_at (snd (handle (Inactivity_Fires i r) ((dm_world d)\<lparr>w_now := t\<rparr>))) i r of
         None \<Rightarrow> True
       | Some n' \<Rightarrow> nb_state n' = Nbr_Down \<and> nb_db_summary_list n' = [] \<and> nb_ls_request_list n' = []
           \<and> nb_ls_retransmission_list n' = [] \<and> \<not> os_is_running (nb_inactivity_timer n'))"
proof -
  have "nbr_fine (dm_world d) i r n" using running_inv [OF assms(1)] assms(2) by (simp add: nbrs_inv_def)
  then obtain t where t: "os_due (nb_inactivity_timer n) = Some t"
    "t \<le> w_now (dm_world d) + of_int (if_dead_interval (intf_at (dm_world d) i))"
    using assms(3) by (auto simp: nbr_inv_def os_is_running_def)
  then show ?thesis
    using inactivity_gone [of i r "(dm_world d)\<lparr>w_now := t\<rparr>"] by (intro exI [of _ t]) (auto simp: gone_def split: option.split)
qed

theorem dead_neighbor_detected_witness:
  "case nbr_at (snd (handle (Inactivity_Fires 0 2) ((dm_world lower)\<lparr>w_now := 1040\<rparr>))) 0 2 of
     None \<Rightarrow> True | Some n \<Rightarrow> nb_state n = Nbr_Down \<and> nb_db_summary_list n = []"
proof -
  obtain n where lo: "running (link_system 167772161) (sample_config 1 1) lower"
    "nbr_at (dm_world lower) 0 2 = Some n" "nb_state n = Nbr_Exchange" "os_due (nb_inactivity_timer n) = Some 1040"
    by (rule lower_exchanges)
  show ?thesis
    using dead_neighbor_detected [OF lo(1,2)] lo(3,4) by (auto split: option.split)
qed

text \<open>
  C29. A database description that is lost in Exchange is not repeated: the timer that repeats it is
  stopped when the master is settled and nothing starts it before the next ExStart, so in Exchange
  and above it does not run, and its callback, which is written to repeat the packet in Exchange too,
  does nothing.
\<close>
theorem lost_description_not_repeated:
  assumes "running env cfg d" and "nbr_at (dm_world d) i r = Some n" and "Nbr_Exchange \<le> nb_state n"
  shows "\<not> pt_running (nb_dd_rxmt_timer n) \<and> handle (Dd_Rxmt_Fires i r) (dm_world d) = (Inr (), dm_world d)"
proof -
  have "nbr_fine (dm_world d) i r n" using running_inv [OF assms(1)] assms(2) by (simp add: nbrs_inv_def)
  then have "\<not> pt_running (nb_dd_rxmt_timer n)" using assms(3) by (auto simp: nbr_inv_def nbr_order)
  then show ?thesis
    by (simp add: fire_dd_rxmt_timer_def bind_get_nbr [OF assms(2)] whenM_def retM_def)
qed

theorem lost_description_not_repeated_witness:
  "handle (Dd_Rxmt_Fires 0 2) (dm_world lower) = (Inr (), dm_world lower)"
proof -
  obtain n where lo: "running (link_system 167772161) (sample_config 1 1) lower"
    "nbr_at (dm_world lower) 0 2 = Some n" "nb_state n = Nbr_Exchange"
    by (rule lower_exchanges)
  show ?thesis using lost_description_not_repeated [OF lo(1,2)] lo(3) by simp
qed

end
