(* ===== verification/Flood_Delivery.thy ===== *)
theory Flood_Delivery
  imports Exchange Nbr_Invariant
begin

text \<open>
  Flooding reaches the neighbours: an LSA that is flooded out of an interface is put on the
  retransmission list of every neighbour that takes part, and the packet that carries it brings it
  into the database of a router that receives it.
\<close>

section \<open>Retransmission lists\<close>

definition listed :: "nat \<Rightarrow> lsa_ident \<Rightarrow> ipv4 \<Rightarrow> world \<Rightarrow> bool" where
  "listed i key r w \<longleftrightarrow> (case nbr_at w i r of None \<Rightarrow> False
     | Some n \<Rightarrow> map_of (nb_ls_retransmission_list n) key \<noteq> None)"

lemma listed_upd_intf: "is_neighbors (f (intf_at w j)) = is_neighbors (intf_at w j)
    \<Longrightarrow> listed i key r (upd_intf j f w) = listed i key r w"
  by (simp add: listed_def nbr_at_upd_intf [OF refl]) (simp add: nbr_at_def)

lemma listed_cong: "w_intfs w' = w_intfs w \<Longrightarrow> listed i key r w' = listed i key r w"
  using nbr_at_cong [of w' w] by (simp add: listed_def)

lemma bind_get_lsa: "lsdb_lookup area key (w_lsdb w) = Some l \<Longrightarrow> bindM (get_lsa area key) f w = f l w"
  by (simp add: bindM_def get_lsa_def)

lemma enlist_lists:
  assumes "lsdb_lookup area key (w_lsdb w) = Some l" and "distinct rs"
    and "\<And>r. r \<in> set rs \<Longrightarrow> \<exists>n. nbr_at w i r = Some n \<and> length (nb_ls_retransmission_list n) < 1000"
  shows "\<exists>g. enlist area key i rs w = (Inr True, upd_intf i (is_neighbors_update g) w)
    \<and> (\<forall>r. r \<in> set rs \<or> listed i key r w \<longrightarrow> listed i key r (upd_intf i (is_neighbors_update g) w))"
  using assms
proof (induction rs arbitrary: w)
  case Nil
  have same: "is_neighbors_update (\<lambda>ns. ns) it = it" for it :: ospf_interface by (cases it) simp
  have "upd_intf i (is_neighbors_update (\<lambda>ns. ns)) w = w" by (simp only: upd_intf_def same list_update_id) simp
  then show ?case by (intro exI [of _ "\<lambda>ns. ns"]) (simp add: retM_def)
next
  case (Cons r rs)
  obtain n where n: "nbr_at w i r = Some n" "length (nb_ls_retransmission_list n) < 1000"
    using Cons.prems(3) [of r] by auto
  show ?case
  proof (cases "map_of (nb_ls_retransmission_list n) key")
    case (Some e)
    then have "enlist area key i (r # rs) w = enlist area key i rs w" "listed i key r w"
      using n by (simp_all add: bind_get_nbr listed_def)
    then show ?thesis using Cons.IH [of w] Cons.prems by fastforce
  next
    case None
    let ?f = "nb_ls_retransmission_list_update (AList.update key l)"
    let ?w = "upd_nbr i r ?f w"
    have run: "enlist area key i (r # rs) w = enlist area key i rs ?w"
      using n None Cons.prems(1)
      by (simp add: bind_get_nbr) (simp add: bindM_def get_lsa_def set_nbr_def seq_modM)
    have grown: "listed i key r ?w" "\<And>s. listed i key s w \<Longrightarrow> listed i key s ?w"
      using n by (auto simp: listed_def update_conv' split: option.splits)
    have "\<exists>n. nbr_at ?w i s = Some n \<and> length (nb_ls_retransmission_list n) < 1000" if "s \<in> set rs" for s
      using Cons.prems(2,3) that by auto
    then obtain g where g: "enlist area key i rs ?w = (Inr True, upd_intf i (is_neighbors_update g) ?w)"
      "\<forall>s. s \<in> set rs \<or> listed i key s ?w \<longrightarrow> listed i key s (upd_intf i (is_neighbors_update g) ?w)"
      using Cons.IH [of ?w] Cons.prems(1,2) by (auto simp: upd_nbr_def upd_intf_def)
    have eq: "upd_intf i (is_neighbors_update g) ?w = upd_intf i (is_neighbors_update (g \<circ> AList.map_entry r ?f)) w"
    proof -
      have "is_neighbors_update g (it\<lparr>is_neighbors := AList.map_entry r ?f (is_neighbors it)\<rparr>)
          = is_neighbors_update (g \<circ> AList.map_entry r ?f) it" for it :: ospf_interface by (cases it) simp
      then show ?thesis by (simp only: upd_nbr_def upd_intf_twice)
    qed
    show ?thesis
    proof (intro exI conjI allI impI)
      show "enlist area key i (r # rs) w = (Inr True, upd_intf i (is_neighbors_update (g \<circ> AList.map_entry r ?f)) w)"
        using g(1) unfolding run eq .
      fix s assume "s \<in> set (r # rs) \<or> listed i key s w"
      then have "s \<in> set rs \<or> listed i key s ?w" using grown set_ConsD by metis
      then show "listed i key s (upd_intf i (is_neighbors_update (g \<circ> AList.map_entry r ?f)) w)"
        using g(2) unfolding eq by blast
    qed
  qed
qed

section \<open>The packet that carries the LSA\<close>

definition can_flood :: "nat \<Rightarrow> lsa \<Rightarrow> world \<Rightarrow> bool" where
  \<comment> \<open>the LSA is in the area of an open interface, an update with it fits into one packet, and some
      neighbour takes part in the flooding, none of them with a full retransmission list\<close>
  "can_flood i l w \<longleftrightarrow> i < length (w_intfs w) \<and> is_socket (intf_at w i) \<noteq> None
     \<and> (if_auth_type (intf_at w i) = 0 \<or> if_auth_type (intf_at w i) = 1)
     \<and> distinct (map fst (is_neighbors (intf_at w i)))
     \<and> list_ex (\<lambda>(r, n). Nbr_Exchange \<le> nb_state n) (is_neighbors (intf_at w i))
     \<and> list_all (\<lambda>(r, n). Nbr_Exchange \<le> nb_state n \<longrightarrow> int (length (nb_ls_retransmission_list n)) < 1000)
         (is_neighbors (intf_at w i))
     \<and> lsdb_lookup (if_area_id (intf_at w i)) (lsa_key l) (w_lsdb w) = Some l
     \<and> body_matches (lh_ls_type (l_header l)) (l_body l)
     \<and> (case lsa_serialize (w_now w) True l of Inl _ \<Rightarrow> False | Inr (bs, _) \<Rightarrow> int (length bs) < 65508)"

lemma serialized_flooded:
  assumes "lsdb_lookup area (lsa_key l) (w_lsdb w) = Some l" and "body_matches (lh_ls_type (l_header l)) (l_body l)"
    and "lsa_serialize (w_now w) True l = Inr (bs, l1)" and "length bs < 65508"
  obtains body l' d where "serialize_flooded area (lsa_key l) w = (Inr body, w\<lparr>w_lsdb := d\<rparr>)"
    and "24 + length body < 65536" and "lsu_deserialize body 0 = Inr [unmarked l']" and "same_instance l' l"
proof -
  obtain body where body: "lsu_serialize (w_now w) [l] = Inr (body, [l1])" "length body = 4 + length bs"
    "lsu_deserialize body 0 = Inr [unmarked l1]" using serialized_lsu [OF assms(3,2)] .
  have "serialize_flooded area (lsa_key l) w = (Inr body, w\<lparr>w_lsdb := store_header_updates area [l1] (w_lsdb w)\<rparr>)"
    using assms(1) body(1)
    by (simp add: serialize_flooded_def bind_get_lsa serialize_stored_lsas_def bind_getM bind_liftM seq_modM retM_def)
  then show ?thesis using that body(2,3) assms(4) serialized_one [OF body(1)] by auto
qed

text \<open>What happens after the first packet leaves it on the wire and the lists as they are.\<close>

definition sent_and_listed :: "effect list \<Rightarrow> nat \<Rightarrow> lsa_ident \<Rightarrow> ipv4 set \<Rightarrow> world \<Rightarrow> bool" where
  "sent_and_listed trace i key rs w \<longleftrightarrow> (\<exists>rest. w_trace w = trace @ rest) \<and> (\<forall>r\<in>rs. listed i key r w)"

lemma sent_and_listed_cong:
  assumes "sent_and_listed trace i key rs w" and "w_intfs w' = w_intfs w" and "w_trace w' = w_trace w @ extra"
  shows "sent_and_listed trace i key rs w'"
  using assms(1,3) unfolding sent_and_listed_def listed_cong [OF assms(2)] by auto

lemma sent_and_listed_send: "keeps (sent_and_listed trace i key rs) (send_packet j t b dest)"
proof -
  have "keeps (sent_and_listed trace i key rs) (set_intf j (is_crypt_seq_update f))" for f
    unfolding keeps_def set_intf_def modM_def sent_and_listed_def by (auto simp: listed_upd_intf) (auto simp: upd_intf_def)
  moreover have "keeps (sent_and_listed trace i key rs) (modM (\<lambda>w. w\<lparr>w_trace := w_trace w @ x\<rparr>))" for x
    by (intro keeps_mod) (erule sent_and_listed_cong; simp)
  ultimately show ?thesis unfolding send_packet_def by (intro keeps_intros)
qed

lemma sent_and_listed_serialize: "keeps (sent_and_listed trace i key rs) (serialize_flooded area k)"
proof -
  have "keeps (sent_and_listed trace i key rs) (modM (w_lsdb_update f))" for f
    by (intro keeps_mod) (erule sent_and_listed_cong [where extra = "[]"]; simp)
  moreover have "keeps (sent_and_listed trace i key rs) (get_lsa area k)"
    by (simp add: keeps_def get_lsa_def split: option.split)
  ultimately show ?thesis
    unfolding serialize_flooded_def serialize_stored_lsas_def by (intro keeps_intros keeps_case_prod)
qed

lemma flood_sends:
  assumes can: "can_flood i l w" and key: "key = lsa_key l" and area: "area = if_area_id (intf_at w i)"
  obtains packet dest body sq l' where "frame_packet (w_md5 w) (w_router_id w) (intf_at w i) sq 4 body = Inr packet"
    and "24 + length body < 65536" and "lsu_deserialize body 0 = Inr [unmarked l']" and "same_instance l' l"
    and "sent_and_listed (w_trace w @ [Sent i packet dest]) i key
      {r. \<exists>n. nbr_at w i r = Some n \<and> Nbr_Exchange \<le> nb_state n} (snd (flood_to_interface area key i w))"
proof -
  let ?it = "intf_at w i" and ?el = "eligible_neighbors (intf_at w i)"
  have i: "i < length (w_intfs w)" and dist: "distinct (map fst (is_neighbors ?it))"
    and lookup: "lsdb_lookup area (lsa_key l) (w_lsdb w) = Some l" and body_ok: "body_matches (lh_ls_type (l_header l)) (l_body l)"
    using can area by (simp_all add: can_flood_def)
  obtain bs l1 where ser: "lsa_serialize (w_now w) True l = Inr (bs, l1)" "length bs < 65508"
    using can by (auto simp: can_flood_def split: sum.splits)
  have el: "?el \<noteq> []" using can by (auto simp: can_flood_def eligible_neighbors_def list_ex_iff filter_empty_conv)
  have in_el: "r \<in> set ?el \<longleftrightarrow> (\<exists>n. nbr_at w i r = Some n \<and> Nbr_Exchange \<le> nb_state n)" for r
    using i dist by (force simp: eligible_neighbors_def nbr_at_def)
  have room: "\<exists>n. nbr_at w i r = Some n \<and> length (nb_ls_retransmission_list n) < 1000" if el: "r \<in> set ?el" for r
  proof -
    obtain n where n: "nbr_at w i r = Some n" "Nbr_Exchange \<le> nb_state n" using el in_el [of r] by auto
    then have "(r, n) \<in> set (is_neighbors ?it)" using i by (simp add: nbr_at_def map_of_SomeD)
    then show ?thesis using can n by (force simp: can_flood_def list_all_iff)
  qed
  have "distinct ?el" using dist by (auto simp: eligible_neighbors_def distinct_map_filter)
  from enlist_lists [OF lookup this room] obtain g where
    g: "enlist area key i ?el w = (Inr True, upd_intf i (is_neighbors_update g) w)"
    "\<forall>r\<in>set ?el. listed i key r (upd_intf i (is_neighbors_update g) w)" using key by blast
  let ?w = "upd_intf i (is_neighbors_update g) w"
  have at: "intf_at ?w i = is_neighbors_update g ?it" "i < length (w_intfs ?w)" "w_trace ?w = w_trace w"
    "w_now ?w = w_now w" "w_lsdb ?w = w_lsdb w" "w_md5 ?w = w_md5 w" "w_router_id ?w = w_router_id w"
    using i by (simp_all add: intf_at_def upd_intf_def)
  obtain body l' d where body: "serialize_flooded area key ?w = (Inr body, ?w\<lparr>w_lsdb := d\<rparr>)"
    "24 + length body < 65536" "lsu_deserialize body 0 = Inr [unmarked l']" "same_instance l' l"
    using serialized_flooded [of area l ?w bs l1] lookup body_ok ser at(4,5) key by metis
  let ?v = "?w\<lparr>w_lsdb := d\<rparr>"
  have v: "intf_at ?v i = is_neighbors_update g ?it" "i < length (w_intfs ?v)" "nbr_at ?v = nbr_at ?w"
    using at(1,2) nbr_at_cong [of ?v ?w] by (simp_all add: intf_at_def)
  have framed: "frame_packet m rid (is_neighbors_update g ?it) sq t b = frame_packet m rid ?it sq t b" for m rid sq t b
    by (simp add: frame_packet_def checksummed_packet_def)
  define dest where "dest = (if is_multi_access ?it then
      (if is_state ?it = If_DR \<or> is_state ?it = If_Backup then all_spf_routers else all_d_routers)
    else nb_ip_addr (the (nbr_at ?v i (hd ?el))))"
  obtain sq packet where packet: "frame_packet (w_md5 w) (w_router_id w) ?it sq 4 body = Inr packet"
    "send_packet i 4 body dest ?v = (Inr (), (upd_intf i (is_crypt_seq_update (\<lambda>s. (s + 1) AND 0xFFFFFFFF)) ?v)
        \<lparr>w_trace := w_trace w @ [Sent i packet dest]\<rparr>)"
    using send_packet_frames [OF v(2), of 4 body dest] v(1) at body(2) can framed
    by (auto simp: u8_def can_flood_def)
  let ?after = "(upd_intf i (is_crypt_seq_update (\<lambda>s. (s + 1) AND 0xFFFFFFFF)) ?v)\<lparr>w_trace := w_trace w @ [Sent i packet dest]\<rparr>"
  let ?ok = "sent_and_listed (w_trace w @ [Sent i packet dest]) i key (set ?el)"
  have "listed i key r ?after = listed i key r ?w" for r
    using i by (simp add: listed_def nbr_at_def intf_at_def upd_intf_def)
  then have after: "?ok ?after" using g(2) by (simp add: sent_and_listed_def)
  have attrs: "is_multi_access (is_neighbors_update g ?it) = is_multi_access ?it"
    "is_state (is_neighbors_update g ?it) = is_state ?it" by (simp_all add: is_multi_access_def)
  have flood: "flood_to_interface area key i w
      = (if is_multi_access ?it then bindM (serialize_flooded area key) (\<lambda>body. send_packet i 4 body
            (if is_state ?it = If_DR \<or> is_state ?it = If_Backup then all_spf_routers else all_d_routers))
        else forM ?el (\<lambda>r. bindM (serialize_flooded area key) (\<lambda>body.
          bindM (get_nbr i r) (\<lambda>n. send_packet i 4 body (nb_ip_addr n))))) ?w"
    by (simp only: flood_to_interface_def bind_get_intf [OF i] Let_def el if_False bindM_def [of "enlist area key i ?el"] g(1)
        prod.case sum.case whenM_def if_True bind_get_intf [OF at(2)] at(1) attrs)
  have "?ok (snd (flood_to_interface area key i w))"
  proof (cases "is_multi_access ?it")
    case True
    then show ?thesis using after packet(2) body(1) flood
      by (simp add: bindM_def [of "serialize_flooded _ _"] dest_def)
  next
    case False
    obtain r rs where rs: "?el = r # rs" using el by (cases ?el) auto
    have "listed i key r ?w" using g(2) rs by simp
    then obtain n where n: "nbr_at ?v i r = Some n" using v(3) by (auto simp: listed_def split: option.splits)
    let ?one = "\<lambda>r. bindM (serialize_flooded area key) (\<lambda>body.
          bindM (get_nbr i r) (\<lambda>n. send_packet i 4 body (nb_ip_addr n)))"
    have rest: "keeps ?ok (forM rs ?one)"
      by (intro keeps_intros sent_and_listed_serialize sent_and_listed_send)
    have "dest = nb_ip_addr n" using False rs n by (simp add: dest_def)
    then have first: "?one r ?w = (Inr (), ?after)"
      using body(1) n packet(2) by (simp add: bindM_def [of "serialize_flooded _ _"] bind_get_nbr)
    have "flood_to_interface area key i w = seqM (?one r) (forM rs ?one) ?w"
      unfolding flood rs using False by simp
    also have "\<dots> = forM rs ?one ?after" by (simp only: seqM_def bindM_def [of "?one r"] first prod.case sum.case)
    finally show ?thesis using keeps_run [OF rest after] by simp
  qed
  moreover have "set ?el = {r. \<exists>n. nbr_at w i r = Some n \<and> Nbr_Exchange \<le> nb_state n}" using in_el by blast
  ultimately show ?thesis using that [OF packet(1) body(2-4)] by simp
qed

section \<open>Properties\<close>

text \<open>
  C3. A flooded LSA reaches the neighbours: let an LSA of the database be flooded out of an open
  interface of its area with null or password authentication, some neighbour of it being at least in
  Exchange and none of those having a full retransmission list. Then the LSA is on the retransmission
  list of every neighbour in Exchange or above, a packet is sent, and a router that has the sender as a
  neighbour on a link with the same area and authentication, receives this packet and lacks the
  LSA or holds an older instance, has an LSA with its key, body and sequence number afterwards, whatever
  flooding and acknowledging it does in turn.
\<close>
theorem flooded_lsa_delivered:
  assumes "can_flood i l w" and "shares_link (intf_at w i) (intf_at w' j) src"
    and "can_take j (w_router_id w) l w'" and "w_router_id w' \<noteq> w_router_id w" and "w_md5 w' = w_md5 w"
  shows "\<exists>w1 packet dest rest l'. w1 = snd (flood_to_interface (if_area_id (intf_at w i)) (lsa_key l) i w)
    \<and> w_trace w1 = w_trace w @ Sent i packet dest # rest
    \<and> (\<forall>r n. nbr_at w i r = Some n \<and> Nbr_Exchange \<le> nb_state n \<longrightarrow> listed i (lsa_key l) r w1)
    \<and> lsdb_lookup (if_area_id (intf_at w i)) (lsa_key l)
        (w_lsdb (snd (receive_packet j (ip_datagram packet) src w'))) = Some l'
    \<and> l_body l' = l_body l \<and> lh_ls_sequence_number (l_header l') = lh_ls_sequence_number (l_header l)"
proof -
  obtain packet dest body sq l1 where
    packet: "frame_packet (w_md5 w) (w_router_id w) (intf_at w i) sq 4 body = Inr packet" "24 + length body < 65536"
    and body: "lsu_deserialize body 0 = Inr [unmarked l1]" and same: "same_instance l1 l"
    and sent: "sent_and_listed (w_trace w @ [Sent i packet dest]) i (lsa_key l)
      {r. \<exists>n. nbr_at w i r = Some n \<and> Nbr_Exchange \<le> nb_state n}
      (snd (flood_to_interface (if_area_id (intf_at w i)) (lsa_key l) i w))"
    by (rule flood_sends [OF assms(1) refl refl])
  obtain l' where "lsdb_lookup (if_area_id (intf_at w i)) (lsa_key l)
      (w_lsdb (snd (receive_packet j (ip_datagram packet) src w'))) = Some l'"
    "l_body l' = l_body l" "lh_ls_sequence_number (l_header l') = lh_ls_sequence_number (l_header l)"
    using framed_lsa_taken [OF packet body same assms(2-5)] by (auto simp: same_instance_def)
  then show ?thesis using sent unfolding sent_and_listed_def by fastforce
qed

theorem flooded_lsa_delivered_witness:
  "\<exists>w1 packet dest rest l'. w1 = snd (flood_to_interface 0 (1, 167772161, 167772161) 0 sample_answerer)
    \<and> w_trace w1 = Sent 0 packet dest # rest \<and> listed 0 (1, 167772161, 167772161) 33686018 w1
    \<and> lsdb_lookup 0 (1, 167772161, 167772161)
        (w_lsdb (snd (receive_packet 0 (ip_datagram packet) 167772161 sample_asker))) = Some l'
    \<and> l_body l' = l_body sample_lsa"
proof -
  let ?l = "mark_installed 0 sample_lsa"
  have can: "can_flood 0 ?l sample_answerer" by code_simp
  have diff: "w_router_id sample_asker \<noteq> w_router_id sample_answerer" "w_md5 sample_asker = w_md5 sample_answerer"
    by (simp_all add: sample_asker_def sample_answerer_def sample_peer_def sample_holder_def)
  have facts: "if_area_id (intf_at sample_answerer 0) = 0" "lsa_key ?l = (1, 167772161, 167772161)"
    "w_trace sample_answerer = []" "l_body ?l = l_body sample_lsa"
    "map_option nb_state (nbr_at sample_answerer 0 33686018) = Some Nbr_Exchange" by code_simp+
  show ?thesis
    using flooded_lsa_delivered [OF can sample_link sample_takes diff] facts(5) unfolding facts(1-4) append_Nil
    by fastforce
qed

end
