(* ===== verification/Kernel_Sync.thy ===== *)
theory Kernel_Sync
  imports Instance_Correct
begin

text \<open>
  The kernel follows the routing table: over the whole life of a daemon, what was asked of the kernel
  last for a destination is what the table says now.
\<close>

section \<open>The last request\<close>

fun is_ip_request :: "kernel_request \<Rightarrow> bool" where
  "is_ip_request (Route_Replace _ _ _) = True"
| "is_ip_request (Route_Del _) = True"
| "is_ip_request (Sr_Replace _ _ _) = False"

definition last_request :: "network \<Rightarrow> kernel_request list \<Rightarrow> kernel_request option" where
  \<comment> \<open>of the requests for an IP route to the destination\<close>
  "last_request dest reqs = (let qs = filter (\<lambda>q. is_ip_request q \<and> request_destination q = dest) reqs
     in if qs = [] then None else Some (last qs))"

definition gateways :: "ospf_route \<Rightarrow> ipv4 set" where
  "gateways r = nl_gateway ` set (convert_nexthops r)"

definition follows :: "network \<Rightarrow> ospf_route option \<Rightarrow> kernel_request option \<Rightarrow> bool" where
  \<comment> \<open>the request fits the table's entry; a route without a gateway is never asked for\<close>
  "follows dest entry q = (case entry of
     None \<Rightarrow> q = None \<or> q = Some (remove_route dest)
   | Some r \<Rightarrow> gateways r = {} \<or> (\<exists>hops. q = Some (install_route dest hops (ro_cost r)) \<and> nl_gateway ` set hops = gateways r))"

definition kernel_follows :: "daemon \<Rightarrow> bool" where
  "kernel_follows d \<longleftrightarrow> (\<forall>dest. follows dest (map_of (dm_table d) dest) (last_request dest (dm_requests d)))"

lemma last_request_append:
  "last_request dest (reqs @ more_reqs)
    = (case last_request dest more_reqs of None \<Rightarrow> last_request dest reqs | Some q \<Rightarrow> Some q)"
  by (auto simp: last_request_def Let_def)

lemma run_asks_ip: "run_spf (w, old) = Some ((w', new), reqs) \<Longrightarrow> list_all is_ip_request reqs"
  by (rule run_spf_cases [of w old w' new reqs], assumption)
    (auto simp: sync_to_kernel_def list_all_iff remove_route_def install_route_def)

lemma unchanged_gateways:
  assumes "\<not> route_changed old r"
  shows "gateways old = gateways r" and "ro_cost old = ro_cost r"
proof -
  have "gateways r = {a. a \<noteq> 0 \<and> a \<in> snd ` nh_id ` set (ro_nexthops r)}" for r
    by (force simp: gateways_def convert_nexthops_def nh_id_def)
  then show "gateways old = gateways r" using assms by (simp add: route_changed_def nh_same_def)
  show "ro_cost old = ro_cost r" using assms by (simp add: route_changed_def)
qed

lemma run_follows:
  assumes "keyed old" and "run_spf (w, old) = Some ((w', new), reqs)"
    and "follows dest (map_of old dest) q"
  shows "follows dest (map_of new dest) (case last_request dest reqs of None \<Rightarrow> q | Some q' \<Rightarrow> Some q')"
proof -
  have "filter (\<lambda>q. is_ip_request q \<and> request_destination q = dest) reqs = filter (\<lambda>q. request_destination q = dest) reqs"
    using run_asks_ip [OF assms(2)] by (auto simp: list_all_iff intro: filter_cong)
  then have last: "last_request dest reqs = (case map_of new dest of
       None \<Rightarrow> if map_of old dest = None then None else Some (remove_route dest)
     | Some r \<Rightarrow> if convert_nexthops r \<noteq> []
           \<and> (case map_of old dest of None \<Rightarrow> True | Some o' \<Rightarrow> route_changed o' r)
         then Some (install_route dest (convert_nexthops r) (ro_cost r)) else None)"
    unfolding last_request_def by (simp add: run_requests [OF assms(1,2)] split: option.split)
  show ?thesis
  proof (cases "map_of new dest")
    case None
    then show ?thesis using last assms(3) by (auto simp: follows_def)
  next
    case (Some r)
    show ?thesis
    proof (cases "\<exists>o'. map_of old dest = Some o' \<and> \<not> route_changed o' r")
      case True
      then obtain o' where o': "map_of old dest = Some o'" "\<not> route_changed o' r" by blast
      then show ?thesis using Some last assms(3) unchanged_gateways [OF o'(2)] by (simp add: follows_def)
    next
      case False
      then show ?thesis using Some last by (auto simp: follows_def gateways_def split: option.splits)
    qed
  qed
qed

lemma sr_asks_no_ip: "last_request dest (install_sr_routes rs) = None"
  by (induction rs) (simp_all add: install_sr_routes_def last_request_def)

section \<open>Every reachable state\<close>

lemma fire_spf_requests:
  assumes "fire_spf d = Some d'"
  obtains w reqs sr where "run_spf (dm_world d, dm_table d) = Some ((w, dm_table d'), reqs)"
    and "dm_requests d' = dm_requests d @ reqs @ sr" and "\<And>dest. last_request dest sr = None"
proof -
  have none: "last_request dest (concat (map (\<lambda>(_, tree). install_sr_routes (compute_sr_routes tree db)) trees)) = None"
    for dest db trees
    by (induction trees) (auto simp: last_request_append sr_asks_no_ip, simp add: last_request_def)
  then show ?thesis using assms that
    by (fastforce simp: fire_spf_def sr_after_spf_def Let_def last_request_def split: option.splits prod.splits if_splits)
qed

lemma kernel_step:
  assumes "daemon_step d d'" and "daemon_ok d" and "kernel_follows d"
  shows "kernel_follows d'"
  using assms
proof (induction rule: daemon_step.induct)
  case (spf d d')
  obtain w reqs sr where run: "run_spf (dm_world d, dm_table d) = Some ((w, dm_table d'), reqs)"
    "dm_requests d' = dm_requests d @ reqs @ sr" "\<And>dest. last_request dest sr = None"
    by (rule fire_spf_requests [OF spf.hyps]) blast
  have "keyed (dm_table d)" using spf.prems(1) by (simp add: daemon_ok_def)
  then show ?case using run_follows [OF _ run(1)] spf.prems(2) run(2,3)
    by (simp add: kernel_follows_def last_request_append)
qed (simp_all add: kernel_follows_def)

lemma kernel_steps: "daemon_step\<^sup>*\<^sup>* d0 d \<Longrightarrow> daemon_ok d0 \<Longrightarrow> kernel_follows d0 \<Longrightarrow> daemon_ok d \<and> kernel_follows d"
  by (induction rule: rtranclp_induct) (auto intro: daemon_step_ok kernel_step)

section \<open>A daemon with one route\<close>

definition lan_daemon :: daemon where
  "lan_daemon = \<lparr>dm_world = p2p_world 10, dm_table = [], dm_sr_db = [], dm_sr_enabled = False, dm_requests = []\<rparr>"

lemma lan_daemon_ok: "daemon_ok lan_daemon"
proof -
  have "world_ok (p2p_world 10)"
    by (simp add: p2p_world_def world_ok_def intf_ok_def nbr_ok_def interface_create_def intf_attrs.extend_def
        ospf_interface.defs neighbor_create_def)
  moreover have "db_ok (p2p_world 10)" by code_simp
  ultimately show ?thesis by (simp add: lan_daemon_def daemon_ok_def state_ok_def keyed_def)
qed

lemma lan_daemon_run:
  "map_option (\<lambda>d. map (\<lambda>(dest, r). (dest, ro_cost r, map nl_gateway (convert_nexthops r))) (dm_table d)) (fire_spf lan_daemon)
    = Some [(lan_network, 15, [167772162])]"
  by code_simp

section \<open>Properties\<close>

text \<open>
  C10. The kernel follows the routing table: at any time in the life of a daemon, whatever packets,
  timers and runs of the calculation there have been, the last request for an IP route to a destination
  fits the table. If the table has no route, there never was a request or the last one deleted the
  route; if it has one with gateways, the last request installed exactly these gateways at the
  route's cost. (A route that has no gateway is never asked for.)
\<close>
theorem kernel_requests_follow_table:
  assumes "daemon_step\<^sup>*\<^sup>* d0 d" and "daemon_ok d0" and "dm_table d0 = []" and "dm_requests d0 = []"
  shows "case map_of (dm_table d) dest of
      None \<Rightarrow> last_request dest (dm_requests d) \<in> {None, Some (remove_route dest)}
    | Some r \<Rightarrow> gateways r = {} \<or> (\<exists>hops. last_request dest (dm_requests d) = Some (install_route dest hops (ro_cost r))
        \<and> nl_gateway ` set hops = gateways r)"
proof -
  have "kernel_follows d0"
    using assms(3,4) by (simp add: kernel_follows_def follows_def last_request_def)
  then have "kernel_follows d" using kernel_steps [OF assms(1,2)] by blast
  then have "follows dest (map_of (dm_table d) dest) (last_request dest (dm_requests d))"
    unfolding kernel_follows_def by blast
  then show ?thesis by (auto simp: follows_def split: option.splits)
qed

theorem kernel_requests_follow_table_witness:
  "\<exists>d r. fire_spf lan_daemon = Some d \<and> map_of (dm_table d) lan_network = Some r
    \<and> (\<exists>hops. last_request lan_network (dm_requests d) = Some (install_route lan_network hops 15)
        \<and> nl_gateway ` set hops = {167772162})"
proof -
  obtain d r where d: "fire_spf lan_daemon = Some d" "dm_table d = [(lan_network, r)]" "ro_cost r = 15" "gateways r = {167772162}"
    using lan_daemon_run by (auto simp: map_eq_Cons_conv gateways_def)
  have "daemon_step\<^sup>*\<^sup>* lan_daemon d" using d(1) by (intro r_into_rtranclp daemon_step.spf)
  from kernel_requests_follow_table [OF this lan_daemon_ok, of lan_network] show ?thesis
    using d by (auto simp: lan_daemon_def)
qed

end
