(* ===== verification/Raw_Socket.thy ===== *)
theory Raw_Socket
  imports Instance
begin

text \<open>
  \<^verbatim>\<open>io/raw_socket.py\<close>: the raw socket of an interface. What it asks of the kernel is recorded, what the
  kernel answers is an argument that may depend on the calls made before. The kernel's multicast
  memberships are those the object remembers, but for those it failed to give up; the groups it
  remembers are what the interface's model keeps.
\<close>

section \<open>The socket\<close>

datatype sock_call =
    Open_Raw int                  \<comment> \<open>the IP protocol\<close>
  | Multicast_Ttl int
  | Ttl int
  | Tos int
  | Bind_To_Device bytes
  | Multicast_If bytes
  | Multicast_Loop int
  | Non_Blocking
  | Add_Membership bytes
  | Drop_Membership bytes
  | Add_Reader
  | Remove_Reader
  | Send_To bytes ipv4
  | Close_Socket

record ospf_socket =
  so_interface_name :: string
  so_interface_addr :: ipv4
  so_mtu :: int
  so_multicast_groups :: "ipv4 list"            \<comment> \<open>a set, in the order of joining\<close>
  so_callback :: bool
  so_reply :: "(sock_call \<times> unit result) list \<Rightarrow> sock_call \<Rightarrow> unit result"  \<comment> \<open>the kernel, after the calls so far\<close>
  so_calls :: "(sock_call \<times> unit result) list"   \<comment> \<open>made so far, with the answers\<close>

type_synonym kernel_replies = "(sock_call \<times> unit result) list \<Rightarrow> sock_call \<Rightarrow> unit result"
type_synonym 'a sock = "ospf_socket \<Rightarrow> 'a result \<times> ospf_socket"

definition is_os_error :: "py_error \<Rightarrow> bool" where
  \<comment> \<open>the subclasses of \<^verbatim>\<open>OSError\<close>\<close>
  "is_os_error e \<longleftrightarrow> e = OSError \<or> e = FileNotFoundError \<or> e = FileExistsError"

definition ask :: "sock_call \<Rightarrow> unit sock" where
  "ask c s = (let r = so_reply s (so_calls s) c in (r, s\<lparr>so_calls := so_calls s @ [(c, r)]\<rparr>))"

definition try_ask :: "sock_call \<Rightarrow> unit sock" where
  \<comment> \<open>\<^verbatim>\<open>try: ... except OSError\<close>\<close>
  "try_ask c s = (case ask c s of
     (Inl e, s') \<Rightarrow> if is_os_error e then (Inr (), s') else (Inl e, s')
   | (Inr _, s') \<Rightarrow> (Inr (), s'))"

fun ask_all :: "sock_call list \<Rightarrow> unit sock" where
  "ask_all [] s = (Inr (), s)"
| "ask_all (c # cs) s = (case ask c s of (Inl e, s') \<Rightarrow> (Inl e, s') | (Inr _, s') \<Rightarrow> ask_all cs s')"

definition inet_aton :: "ipv4 \<Rightarrow> bytes" where
  "inet_aton a = be_encode 4 (uint a)"

definition opening_calls :: "string \<Rightarrow> ipv4 \<Rightarrow> sock_call list" where
  "opening_calls name addr = [Open_Raw 89, Multicast_Ttl 1, Ttl 1, Tos 0xC0, Bind_To_Device (utf8 name @ [0]),
     Multicast_If (inet_aton addr), Multicast_Loop 0, Non_Blocking]"

definition create_socket :: "kernel_replies \<Rightarrow> string \<Rightarrow> ipv4 \<Rightarrow> int \<Rightarrow> unit result \<times> ospf_socket" where
  "create_socket reply name addr mtu = ask_all (opening_calls name addr)
     \<lparr>so_interface_name = name, so_interface_addr = addr, so_mtu = mtu, so_multicast_groups = [],
      so_callback = False, so_reply = reply, so_calls = []\<rparr>"

section \<open>Multicast groups\<close>

definition mreq :: "ipv4 \<Rightarrow> ipv4 \<Rightarrow> bytes" where
  "mreq grp addr = inet_aton grp @ inet_aton addr"

definition join_multicast :: "ipv4 \<Rightarrow> unit sock" where
  "join_multicast grp s =
     (if grp \<in> set (so_multicast_groups s) then (Inr (), s)
      else (case ask (Add_Membership (mreq grp (so_interface_addr s))) s of
          (Inl e, s') \<Rightarrow> (Inl e, s')
        | (Inr _, s') \<Rightarrow> (Inr (), s'\<lparr>so_multicast_groups := so_multicast_groups s' @ [grp]\<rparr>)))"

definition leave_multicast :: "ipv4 \<Rightarrow> unit sock" where
  "leave_multicast grp s =
     (if grp \<notin> set (so_multicast_groups s) then (Inr (), s)
      else (case try_ask (Drop_Membership (mreq grp (so_interface_addr s))) s of
          (Inl e, s') \<Rightarrow> (Inl e, s')
        | (Inr _, s') \<Rightarrow> (Inr (), s'\<lparr>so_multicast_groups := filter (\<lambda>g. g \<noteq> grp) (so_multicast_groups s')\<rparr>)))"

definition join_allspf :: "unit sock" where "join_allspf = join_multicast all_spf_routers"
definition join_alld :: "unit sock" where "join_alld = join_multicast all_d_routers"
definition leave_alld :: "unit sock" where "leave_alld = leave_multicast all_d_routers"

section \<open>Input and output\<close>

definition register_reader :: "unit sock" where
  "register_reader s = ask Add_Reader (s\<lparr>so_callback := True\<rparr>)"

definition send :: "bytes \<Rightarrow> ipv4 \<Rightarrow> unit sock" where
  "send data dest = try_ask (Send_To data dest)"

definition recv :: "ospf_socket \<Rightarrow> bytes \<Rightarrow> bytes result" where
  \<comment> \<open>of a datagram that has arrived; a longer one is cut\<close>
  "recv s datagram = strip_ip_header (take (nat (so_mtu s + 64)) datagram)"

fun leave_all :: "ipv4 list \<Rightarrow> unit sock" where
  "leave_all [] s = (Inr (), s)"
| "leave_all (g # gs) s = (case leave_multicast g s of (Inl e, s') \<Rightarrow> (Inl e, s') | (Inr _, s') \<Rightarrow> leave_all gs s')"

definition close_socket :: "unit sock" where
  \<comment> \<open>whatever the removal of the reader raises is ignored\<close>
  "close_socket s =
     (let s1 = (if so_callback s then snd (ask Remove_Reader s) else s)
      in case leave_all (so_multicast_groups s1) s1 of
           (Inl e, s2) \<Rightarrow> (Inl e, s2)
         | (Inr _, s2) \<Rightarrow> try_ask Close_Socket s2)"

datatype sock_op = Join_All_Spf | Join_All_D | Leave_All_D | Register_Reader | Send bytes ipv4 | Close

fun sock_do :: "sock_op \<Rightarrow> unit sock" where
  "sock_do Join_All_Spf = join_allspf"
| "sock_do Join_All_D = join_alld"
| "sock_do Leave_All_D = leave_alld"
| "sock_do Register_Reader = register_reader"
| "sock_do (Send data dest) = send data dest"
| "sock_do Close = close_socket"

section \<open>The kernel's memberships\<close>

fun member_step :: "sock_call \<times> unit result \<Rightarrow> bytes set \<Rightarrow> bytes set" where
  \<comment> \<open>a call that fails changes nothing; closing the socket ends its memberships\<close>
  "member_step (Add_Membership m, Inr _) ms = insert m ms"
| "member_step (Drop_Membership m, Inr _) ms = ms - {m}"
| "member_step (Close_Socket, Inr _) ms = {}"
| "member_step _ ms = ms"

definition memberships :: "ospf_socket \<Rightarrow> bytes set" where
  \<comment> \<open>the memberships the calls made so far have left\<close>
  "memberships s = fold member_step (so_calls s) {}"

fun failed_drop :: "sock_call \<times> unit result \<Rightarrow> bytes list" where
  "failed_drop (Drop_Membership m, Inl _) = [m]"
| "failed_drop _ = []"

definition failed_drops :: "ospf_socket \<Rightarrow> bytes list" where
  \<comment> \<open>the memberships that the kernel once refused to end\<close>
  "failed_drops s = concat (map failed_drop (so_calls s))"

definition drops_raise_os_errors :: "kernel_replies \<Rightarrow> bool" where
  \<comment> \<open>what \<^verbatim>\<open>setsockopt\<close> raises is an \<^verbatim>\<open>OSError\<close>\<close>
  "drops_raise_os_errors reply \<longleftrightarrow> (\<forall>h m e. reply h (Drop_Membership m) = Inl e \<longrightarrow> is_os_error e)"

definition remembered :: "ospf_socket \<Rightarrow> bytes set" where
  "remembered s = (\<lambda>g. mreq g (so_interface_addr s)) ` set (so_multicast_groups s)"

definition socket_ok :: "ospf_socket \<Rightarrow> bool" where
  "socket_ok s \<longleftrightarrow> distinct (so_multicast_groups s) \<and> remembered s \<subseteq> memberships s
     \<and> memberships s \<subseteq> remembered s \<union> set (failed_drops s)"

definition same_socket :: "ospf_socket \<Rightarrow> ospf_socket \<Rightarrow> bool" where
  \<comment> \<open>the parts no operation changes\<close>
  "same_socket s s' \<longleftrightarrow> so_reply s' = so_reply s \<and> so_interface_addr s' = so_interface_addr s"

lemma mreq_inj: "mreq g a = mreq h a \<longleftrightarrow> g = h"
proof -
  have "g = h" if "be_encode 4 (uint g) = be_encode 4 (uint h)"
  proof -
    have "be_decode (be_encode 4 (uint g)) = be_decode (be_encode 4 (uint h))" by (simp only: that)
    then have "uint g mod 2 ^ 32 = uint h mod 2 ^ 32" unfolding be_decode_encode by simp
    then show ?thesis using uint_lt2p [of g] uint_lt2p [of h] by (intro word_uint_eqI) simp
  qed
  then show ?thesis by (auto simp: mreq_def inet_aton_def)
qed

lemma ask_effect:
  assumes "ask c s = (r, s')"
  shows "memberships s' = member_step (c, r) (memberships s)" "failed_drops s' = failed_drops s @ failed_drop (c, r)"
    "so_multicast_groups s' = so_multicast_groups s" "same_socket s s'" "r = so_reply s (so_calls s) c"
    "so_calls s' = so_calls s @ [(c, r)]"
  using assms by (auto simp: ask_def Let_def memberships_def failed_drops_def same_socket_def)

lemma groups_update [simp]:
  "memberships (s\<lparr>so_multicast_groups := gs\<rparr>) = memberships s" "failed_drops (s\<lparr>so_multicast_groups := gs\<rparr>) = failed_drops s"
  by (simp_all add: memberships_def failed_drops_def)

lemma snd_try_ask: "snd (try_ask c s) = snd (ask c s)"
  by (simp add: try_ask_def split: prod.split sum.split)

lemma same_socket_refl: "same_socket s s"
  by (simp add: same_socket_def)

lemma same_socket_trans: "same_socket a b \<Longrightarrow> same_socket b c \<Longrightarrow> same_socket a c"
  by (simp add: same_socket_def)

lemma same_socket_replies: "same_socket s s' \<Longrightarrow> drops_raise_os_errors (so_reply s) \<Longrightarrow> drops_raise_os_errors (so_reply s')"
  by (simp add: same_socket_def)

lemma remembered_same:
  "same_socket s s' \<Longrightarrow> so_multicast_groups s' = so_multicast_groups s \<Longrightarrow> remembered s' = remembered s"
  by (simp add: remembered_def same_socket_def)

lemma quiet_ask:
  \<comment> \<open>a call that neither enters nor leaves a group\<close>
  assumes ask: "ask c s = (r, s')" and quiet: "\<And>ms. member_step (c, r) ms = ms" and ok: "socket_ok s"
  shows "same_socket s s' \<and> socket_ok s' \<and> so_multicast_groups s' = so_multicast_groups s"
  using ask_effect [OF ask] remembered_same [of s s'] quiet ok by (auto simp: socket_ok_def)

lemma join_multicast_spec:
  assumes "join_multicast g s = (x, s')" and ok: "socket_ok s"
  shows "same_socket s s' \<and> socket_ok s'
    \<and> (x = Inr () \<longrightarrow> set (so_multicast_groups s') = insert g (set (so_multicast_groups s)))"
proof (cases "g \<in> set (so_multicast_groups s)")
  case True
  then show ?thesis using assms by (auto simp: join_multicast_def same_socket_def)
next
  case False
  obtain r s1 where ask: "ask (Add_Membership (mreq g (so_interface_addr s))) s = (r, s1)" by fastforce
  note e = ask_effect [OF ask]
  show ?thesis
  proof (cases r)
    case (Inl err)
    then have "s' = s1" "x = Inl err" using assms(1) False ask by (auto simp: join_multicast_def)
    then show ?thesis using quiet_ask [OF ask _ ok] Inl by simp
  next
    case (Inr u)
    let ?s = "s1\<lparr>so_multicast_groups := so_multicast_groups s1 @ [g]\<rparr>"
    have s': "s' = ?s" using assms(1) False ask Inr by (auto simp: join_multicast_def)
    have same: "same_socket s ?s" using e(4) by (simp add: same_socket_def)
    have "remembered ?s = insert (mreq g (so_interface_addr s)) (remembered s)"
      using e(3,4) by (auto simp: remembered_def same_socket_def)
    moreover have "distinct (so_multicast_groups ?s)" using e(3) False ok by (auto simp: socket_ok_def)
    ultimately have "socket_ok ?s" using e(1,2) Inr ok by (auto simp: socket_ok_def)
    then show ?thesis using s' same e(3) by auto
  qed
qed

lemma leave_multicast_spec:
  assumes "leave_multicast g s = (x, s')" and ok: "socket_ok s" and law: "drops_raise_os_errors (so_reply s)"
  shows "same_socket s s' \<and> socket_ok s' \<and> x = Inr () \<and> set (so_multicast_groups s') = set (so_multicast_groups s) - {g}"
proof (cases "g \<in> set (so_multicast_groups s)")
  case False
  then show ?thesis using assms by (auto simp: leave_multicast_def same_socket_def)
next
  case True
  let ?m = "mreq g (so_interface_addr s)"
  obtain r s1 where ask: "ask (Drop_Membership ?m) s = (r, s1)" by fastforce
  note e = ask_effect [OF ask]
  let ?s = "s1\<lparr>so_multicast_groups := filter (\<lambda>h. h \<noteq> g) (so_multicast_groups s1)\<rparr>"
  have "is_os_error err" if "r = Inl err" for err using that e(5) law by (auto simp: drops_raise_os_errors_def)
  then have s': "x = Inr ()" "s' = ?s"
    using assms(1) True ask by (auto simp: leave_multicast_def try_ask_def split: sum.splits)
  have rem: "remembered ?s = remembered s - {?m}"
    using e(3,4) by (auto simp: remembered_def same_socket_def mreq_inj)
  have "distinct (so_multicast_groups ?s)" using e(3) ok by (simp add: socket_ok_def)
  then have "socket_ok ?s" using e(1,2) rem ok by (cases r) (auto simp: socket_ok_def)
  then show ?thesis using s' e(3,4) by (auto simp: same_socket_def)
qed

lemma leave_all_spec:
  assumes "leave_all gs s = (x, s')" and "socket_ok s" and "drops_raise_os_errors (so_reply s)"
  shows "same_socket s s' \<and> socket_ok s' \<and> x = Inr () \<and> set (so_multicast_groups s') = set (so_multicast_groups s) - set gs"
  using assms
proof (induction gs arbitrary: s)
  case (Cons g gs)
  obtain y s1 where one: "leave_multicast g s = (y, s1)" by fastforce
  note l = leave_multicast_spec [OF one Cons.prems(2,3)]
  then have "leave_all gs s1 = (x, s')" "drops_raise_os_errors (so_reply s1)"
    using Cons.prems one same_socket_replies by auto
  from Cons.IH [OF this(1) _ this(2)] l show ?case using same_socket_trans by auto
qed (simp add: same_socket_refl)

lemma close_socket_spec:
  assumes ok: "socket_ok s" and law: "drops_raise_os_errors (so_reply s)"
  shows "\<exists>r calls. same_socket s (snd (close_socket s)) \<and> socket_ok (snd (close_socket s))
    \<and> so_multicast_groups (snd (close_socket s)) = [] \<and> so_calls (snd (close_socket s)) = calls @ [(Close_Socket, r)]"
proof -
  obtain r0 s0 where ask0: "ask Remove_Reader s = (r0, s0)" by fastforce
  let ?s1 = "if so_callback s then s0 else s"
  have s1: "same_socket s ?s1" "socket_ok ?s1"
    using quiet_ask [OF ask0 _ ok] ok by (auto simp: same_socket_refl)
  obtain x s2 where s2: "leave_all (so_multicast_groups ?s1) ?s1 = (x, s2)" by fastforce
  note left = leave_all_spec [OF s2 s1(2) same_socket_replies [OF s1(1) law]]
  obtain r s3 where ask: "ask Close_Socket s2 = (r, s3)" by fastforce
  note e = ask_effect [OF ask]
  have none: "so_multicast_groups s2 = []" using left by simp
  then have "remembered s2 = {}" "remembered s3 = {}" using e(3) by (simp_all add: remembered_def)
  moreover have "memberships s3 \<subseteq> memberships s2" "failed_drops s3 = failed_drops s2" using e(1,2) by (cases r; simp)+
  ultimately have "socket_ok s3" using left e(3) none by (auto simp: socket_ok_def)
  moreover have "snd (close_socket s) = s3"
    using s2 left ask0 ask by (auto simp: close_socket_def Let_def snd_try_ask)
  moreover have "same_socket s s3" using s1(1) left e(4) same_socket_trans by blast
  ultimately show ?thesis using e(3,6) none by auto
qed

lemma sock_do_ok:
  assumes ok: "socket_ok s" and law: "drops_raise_os_errors (so_reply s)"
  shows "same_socket s (snd (sock_do op s)) \<and> socket_ok (snd (sock_do op s))"
proof (cases op)
  case Register_Reader
  let ?s = "s\<lparr>so_callback := True\<rparr>"
  have "memberships ?s = memberships s" "failed_drops ?s = failed_drops s" "remembered ?s = remembered s"
    by (simp_all add: memberships_def failed_drops_def remembered_def)
  then have "socket_ok ?s" using ok by (simp add: socket_ok_def)
  from quiet_ask [OF prod.collapse [symmetric] _ this] show ?thesis using Register_Reader
    by (simp add: register_reader_def same_socket_def)
next
  case (Send data dest)
  then show ?thesis using quiet_ask [OF prod.collapse [symmetric] _ ok] by (simp add: send_def snd_try_ask)
next
  case Close
  then show ?thesis using close_socket_spec [OF assms] by auto
qed (simp_all add: join_allspf_def join_alld_def leave_alld_def
    join_multicast_spec [OF prod.collapse [symmetric] ok] leave_multicast_spec [OF prod.collapse [symmetric] assms])

section \<open>The socket of an interface\<close>

definition run_sock :: "sock_op list \<Rightarrow> ospf_socket \<Rightarrow> ospf_socket" where
  \<comment> \<open>one operation after the other, whether they raise or not\<close>
  "run_sock ops s = fold (\<lambda>op s. snd (sock_do op s)) ops s"

lemma run_sock_ok:
  assumes "socket_ok s" and "drops_raise_os_errors (so_reply s)"
  shows "same_socket s (run_sock ops s) \<and> socket_ok (run_sock ops s)"
  using assms
proof (induction ops arbitrary: s)
  case (Cons op ops)
  note one = sock_do_ok [OF Cons.prems, of op]
  then have "drops_raise_os_errors (so_reply (snd (sock_do op s)))" using Cons.prems(2) same_socket_replies by blast
  from Cons.IH [OF _ this] one show ?case using same_socket_trans by (auto simp: run_sock_def)
qed (simp add: run_sock_def same_socket_refl)

lemma ask_all_ok:
  assumes "socket_ok s" and "\<forall>c\<in>set cs. \<forall>r ms. member_step (c, r) ms = ms" and "ask_all cs s = (x, s')"
  shows "same_socket s s' \<and> socket_ok s' \<and> so_multicast_groups s' = so_multicast_groups s"
  using assms
proof (induction cs arbitrary: s)
  case (Cons c cs)
  obtain r s1 where ask: "ask c s = (r, s1)" by fastforce
  have one: "same_socket s s1 \<and> socket_ok s1 \<and> so_multicast_groups s1 = so_multicast_groups s"
    using quiet_ask [OF ask _ Cons.prems(1)] Cons.prems(2) by simp
  show ?case
  proof (cases r)
    case (Inl e)
    then show ?thesis using one Cons.prems(3) ask by auto
  next
    case (Inr u)
    then have "ask_all cs s1 = (x, s')" using Cons.prems(3) ask by simp
    with Cons.IH [of s1] one Cons.prems(2) show ?thesis using same_socket_trans by auto
  qed
qed (simp add: same_socket_refl)

lemma create_socket_ok:
  assumes "create_socket reply name addr mtu = (x, s)"
  shows "socket_ok s \<and> so_reply s = reply \<and> so_interface_addr s = addr \<and> so_multicast_groups s = []"
proof -
  let ?s0 = "\<lparr>so_interface_name = name, so_interface_addr = addr, so_mtu = mtu, so_multicast_groups = [],
      so_callback = False, so_reply = reply, so_calls = []\<rparr>"
  have "socket_ok ?s0" by (simp add: socket_ok_def memberships_def remembered_def)
  from ask_all_ok [OF this _ assms [unfolded create_socket_def]]
  show ?thesis by (simp add: opening_calls_def same_socket_def)
qed

lemma joined_group:
  \<comment> \<open>the groups of the interface's model follow those of its socket\<close>
  assumes "socket_ok s" and "is_socket it = Some (set (so_multicast_groups s))"
  shows "join_multicast g s = (Inr (), s') \<Longrightarrow> is_socket (join_group g it) = Some (set (so_multicast_groups s'))"
    "drops_raise_os_errors (so_reply s) \<Longrightarrow> leave_multicast g s = (x, s')
      \<Longrightarrow> is_socket (leave_group g it) = Some (set (so_multicast_groups s'))"
  using assms join_multicast_spec [of g s] leave_multicast_spec [of g s]
  by (simp_all add: join_group_def leave_group_def)

text \<open>
  C40. The groups a socket remembers and the memberships the kernel holds for it: the kernel may refuse
  any call at any time, all the code relies on is that a refused IP_DROP_MEMBERSHIP raises an
  \<^verbatim>\<open>OSError\<close>. Whatever operations follow the creation, in any order and whether they raise or not, the
  remembered groups are distinct and the kernel is a member of each; it is a member of nothing else but
  groups whose IP_DROP_MEMBERSHIP it refused, which the socket forgets all the same. Closing the socket
  forgets every group, whatever is refused, ends with the call that closes it, and leaves no membership
  when that call succeeds.
\<close>
theorem socket_groups_match_kernel:
  assumes new: "create_socket reply name addr mtu = (x, s)"
    and law: "drops_raise_os_errors reply"
    and later: "s1 = run_sock ops s" and closed: "s2 = snd (close_socket s1)"
  shows "distinct (so_multicast_groups s1)
    \<and> (\<lambda>g. mreq g addr) ` set (so_multicast_groups s1) \<subseteq> memberships s1
    \<and> memberships s1 \<subseteq> (\<lambda>g. mreq g addr) ` set (so_multicast_groups s1) \<union> set (failed_drops s1)
    \<and> so_multicast_groups s2 = [] \<and> memberships s2 \<subseteq> set (failed_drops s2)
    \<and> fst (last (so_calls s2)) = Close_Socket
    \<and> (snd (last (so_calls s2)) = Inr () \<longrightarrow> memberships s2 = {})"
proof -
  have s: "socket_ok s" "drops_raise_os_errors (so_reply s)" "so_interface_addr s = addr"
    using create_socket_ok [OF new] law by simp_all
  note run = run_sock_ok [OF s(1,2), of ops, folded later]
  obtain r calls where c: "socket_ok s2" "so_multicast_groups s2 = []" "so_calls s2 = calls @ [(Close_Socket, r)]"
    using close_socket_spec [of s1] run s(2) same_socket_replies closed by blast
  have "r = Inr () \<Longrightarrow> memberships s2 = {}" using c(3) by (simp add: memberships_def)
  then show ?thesis using run s(3) c by (auto simp: socket_ok_def remembered_def same_socket_def)
qed

definition forgetful_kernel :: kernel_replies where
  \<comment> \<open>a kernel that refuses to send, and refuses the first time that a group is left\<close>
  "forgetful_kernel h c = (case c of Send_To _ _ \<Rightarrow> Inl OSError
     | Drop_Membership _ \<Rightarrow> if list_ex (\<lambda>x. failed_drop x \<noteq> []) h then Inr () else Inl OSError | _ \<Rightarrow> Inr ())"

theorem socket_groups_match_kernel_witness:
  "memberships (run_sock [Register_Reader, Join_All_Spf, Join_All_D, Send [1] all_spf_routers, Leave_All_D]
       (snd (create_socket forgetful_kernel ''eth0'' 167772161 1500)))
     \<subseteq> {[224, 0, 0, 5, 10, 0, 0, 1], [224, 0, 0, 6, 10, 0, 0, 1]}
   \<and> memberships (snd (close_socket (run_sock [Join_All_Spf, Join_All_D, Leave_All_D]
       (snd (create_socket forgetful_kernel ''eth0'' 167772161 1500))))) = {}"
proof -
  let ?s = "snd (create_socket forgetful_kernel ''eth0'' 167772161 1500)"
  let ?ops = "[Register_Reader, Join_All_Spf, Join_All_D, Send [1] all_spf_routers, Leave_All_D]"
  let ?c = "snd (close_socket (run_sock [Join_All_Spf, Join_All_D, Leave_All_D] ?s))"
  have law: "drops_raise_os_errors forgetful_kernel"
    by (simp add: drops_raise_os_errors_def forgetful_kernel_def is_os_error_def)
  note match = socket_groups_match_kernel [OF prod.collapse [symmetric] law refl refl,
      where name = "''eth0''" and addr = 167772161 and mtu = 1500]
  have "so_multicast_groups (run_sock ?ops ?s) = [all_spf_routers]" by code_simp
  moreover have "failed_drops (run_sock ?ops ?s) = [[224, 0, 0, 6, 10, 0, 0, 1]]" by code_simp
  moreover have "mreq all_spf_routers 167772161 = [224, 0, 0, 5, 10, 0, 0, 1]" by code_simp
  moreover have "snd (last (so_calls ?c)) = Inr ()" by code_simp
  ultimately show ?thesis using match [where ops = ?ops] match [where ops = "[Join_All_Spf, Join_All_D, Leave_All_D]"] by auto
qed

end
