(* ===== verification/Daemon.thy ===== *)
theory Daemon
  imports World_Frame Raw_Socket
begin

text \<open>
  The process around the instance, \<^verbatim>\<open>daemon.py\<close> and \<^verbatim>\<open>util/logging.py\<close>: the configuration is loaded, the
  log is set up, the PID file written, the event loop runs until a signal and the PID file is removed.
  The operating system is an argument (\<open>os_env\<close>): the outcome of each call the code makes of it.
\<close>

section \<open>The operating system\<close>

datatype ending =
    Exits int          \<comment> \<open>\<^verbatim>\<open>sys.exit\<close>\<close>
  | Raises py_error    \<comment> \<open>an exception nobody catches\<close>

record os_env =
  oe_document :: "string \<Rightarrow> yaml result option"  \<comment> \<open>the document of a file; \<open>None\<close> when there is no such file\<close>
  oe_parsing :: py_env
  oe_log_opens :: "string \<Rightarrow> unit result"
  oe_fork :: "nat \<Rightarrow> nat result"               \<comment> \<open>what the first and the second \<^verbatim>\<open>fork\<close> return in this process\<close>
  oe_devnull :: "unit result"                  \<comment> \<open>the redirection of the standard streams\<close>
  oe_pid :: nat
  oe_mkdir :: "string \<Rightarrow> unit result"          \<comment> \<open>of the directory of that file\<close>
  oe_open :: "string \<Rightarrow> unit result"           \<comment> \<open>of a file that does not exist yet\<close>
  oe_write :: "string \<Rightarrow> unit result"
  oe_unlink :: "string \<Rightarrow> unit result"
  oe_create :: "unit result"                   \<comment> \<open>whether \<^verbatim>\<open>OspfInstance(config)\<close> raises; \<open>create_instance\<close> as written\<close>
  oe_netlink :: bool                           \<comment> \<open>whether the netlink socket can be opened\<close>
  oe_system :: "sys_env result"                \<comment> \<open>the interfaces read from it\<close>
  oe_now :: time
  oe_entropy :: "nat \<Rightarrow> int"
  oe_md5 :: "bytes \<Rightarrow> bytes"
  oe_runs :: "daemon \<Rightarrow> daemon"                \<comment> \<open>what happens until the signal that ends the loop\<close>
  oe_kernel_routes :: "(ipv4 option \<times> int option) list"  \<comment> \<open>those of the daemon's protocol number at the end\<close>

record launch =
  la_config_path :: string
  la_foreground :: bool
  la_debug :: bool

type_synonym files = "(string \<times> string) list"  \<comment> \<open>files other processes can see, by name, with their text\<close>

section \<open>Configuration and logging\<close>

definition load_config :: "os_env \<Rightarrow> launch \<Rightarrow> ending + ospf_config" where
  \<comment> \<open>every exception is reported and ends the process with status 1\<close>
  "load_config env la =
     (case (case oe_document env (la_config_path la) of
              None \<Rightarrow> Inl FileNotFoundError
            | Some doc \<Rightarrow> bindE doc (\<lambda>y. load_document (oe_parsing env) (Some y))) of
        Inl _ \<Rightarrow> Inl (Exits 1)
      | Inr c \<Rightarrow> Inr c)"

definition char_upper :: "char \<Rightarrow> char" where
  "char_upper c = (let n = of_char c :: int in if 97 \<le> n \<and> n \<le> 122 then char_of (n - 32) else c)"

definition py_upper :: "string \<Rightarrow> string" where
  \<comment> \<open>\<^verbatim>\<open>str.upper\<close> on ASCII\<close>
  "py_upper s = map char_upper s"

definition logging_attributes :: "(string \<times> int result) list" where
  \<comment> \<open>the upper-case names of the module \<^verbatim>\<open>logging\<close> with what \<^verbatim>\<open>setLevel\<close> says to their values\<close>
  "logging_attributes = [(''CRITICAL'', Inr 50), (''FATAL'', Inr 50), (''ERROR'', Inr 40), (''WARNING'', Inr 30),
     (''WARN'', Inr 30), (''INFO'', Inr 20), (''DEBUG'', Inr 10), (''NOTSET'', Inr 0),
     (''BASIC_FORMAT'', Inl ValueError), (''_STYLES'', Inl TypeError)]"

definition log_level :: "yaml \<Rightarrow> int result" where
  "log_level level = (case level of
     Y_Str s \<Rightarrow> (case map_of logging_attributes (py_upper s) of None \<Rightarrow> Inr 20 | Some r \<Rightarrow> r)
   | _ \<Rightarrow> Inl AttributeError)"

datatype log_target = To_File string | To_Stderr

definition setup_logging :: "(string \<Rightarrow> unit result) \<Rightarrow> yaml \<Rightarrow> yaml \<Rightarrow> (int \<times> log_target) result" where
  "setup_logging opens level log_file =
     bindE (log_level level) (\<lambda>n.
     if truthy log_file then
       (case log_file of
          Y_Str f \<Rightarrow> bindE (opens f) (\<lambda>_. Inr (n, To_File f))
        | _ \<Rightarrow> Inl TypeError)
     else Inr (n, To_Stderr))"

definition daemon_logging :: "os_env \<Rightarrow> launch \<Rightarrow> ospf_config \<Rightarrow> (int \<times> log_target) result" where
  "daemon_logging env la c =
     setup_logging (oe_log_opens env) (if la_debug la then Y_Str ''debug'' else cf_log_level c)
       (if la_foreground la then Y_Null else cf_log_file c)"

section \<open>Going into the background\<close>

definition daemonize :: "os_env \<Rightarrow> ospf_config \<Rightarrow> ending + bool" where
  \<comment> \<open>both parents exit; the result tells whether the output is discarded\<close>
  "daemonize env c =
     (case oe_fork env 1 of
        Inl e \<Rightarrow> Inl (Raises e)
      | Inr pid \<Rightarrow> if pid > 0 then Inl (Exits 0)
          else (case oe_fork env 2 of
              Inl e \<Rightarrow> Inl (Raises e)
            | Inr pid \<Rightarrow> if pid > 0 then Inl (Exits 0)
                else (case oe_devnull env of
                    Inl e \<Rightarrow> Inl (Raises e)
                  | Inr _ \<Rightarrow> Inr (\<not> truthy (cf_log_file c)))))"

section \<open>The PID file\<close>

fun decimal :: "nat \<Rightarrow> string" where
  "decimal n = (if n < 10 then [char_of (48 + n)] else decimal (n div 10) @ [char_of (48 + n mod 10)])"

definition pid_text :: "nat \<Rightarrow> string" where
  "pid_text n = decimal n @ [char_of (10 :: nat)]"

definition create_pid_file :: "os_env \<Rightarrow> string \<Rightarrow> files \<Rightarrow> unit result \<times> files" where
  \<comment> \<open>the body of the \<^verbatim>\<open>try\<close> in \<^verbatim>\<open>_write_pid\<close>\<close>
  "create_pid_file env s fs =
     (case oe_mkdir env s of
        Inl e \<Rightarrow> (Inl e, fs)
      | Inr _ \<Rightarrow>
          if map_of fs s \<noteq> None then (Inl FileExistsError, fs)
          else (case oe_open env s of
              Inl e \<Rightarrow> (Inl e, fs)
            | Inr _ \<Rightarrow> (case oe_write env s of
                  Inl e \<Rightarrow> (Inl e, AList.update s [] fs)
                | Inr _ \<Rightarrow> (Inr (), AList.update s (pid_text (oe_pid env)) fs))))"

definition write_pid :: "os_env \<Rightarrow> yaml \<Rightarrow> files \<Rightarrow> (ending + unit) \<times> files" where
  "write_pid env pid_file fs =
     (if \<not> truthy pid_file then (Inr (), fs)
      else (case pid_file of
          Y_Str s \<Rightarrow> (case create_pid_file env s fs of
              (Inr _, fs') \<Rightarrow> (Inr (), fs')
            | (Inl e, fs') \<Rightarrow>
                if e = FileExistsError then (Inl (Exits 1), fs')
                else if is_os_error e then (Inr (), fs')
                else (Inl (Raises e), fs'))
        | _ \<Rightarrow> (Inl (Raises TypeError), fs)))"

definition remove_pid :: "os_env \<Rightarrow> yaml \<Rightarrow> files \<Rightarrow> (ending + unit) \<times> files" where
  "remove_pid env pid_file fs =
     (if \<not> truthy pid_file then (Inr (), fs)
      else (case pid_file of
          Y_Str s \<Rightarrow> (case oe_unlink env s of
              Inr _ \<Rightarrow> (Inr (), AList.delete s fs)
            | Inl e \<Rightarrow> if is_os_error e then (Inr (), fs) else (Inl (Raises e), fs))
        | _ \<Rightarrow> (Inl (Raises TypeError), fs)))"

section \<open>The event loop\<close>

definition loaded :: "ospf_config \<Rightarrow> world \<Rightarrow> daemon" where
  \<comment> \<open>the instance's routing table and segment routing database are empty until the first calculation\<close>
  "loaded cfg w = \<lparr>dm_world = w, dm_table = [], dm_sr_db = [], dm_sr_enabled = truthy (src_enabled (cf_sr cfg)),
     dm_requests = []\<rparr>"

definition run_until_signal :: "os_env \<Rightarrow> ospf_config \<Rightarrow> daemon" where
  \<comment> \<open>the body of the \<^verbatim>\<open>try\<close> in \<^verbatim>\<open>_run_event_loop\<close>; its exceptions are logged\<close>
  "run_until_signal env cfg =
     (let w = new_instance cfg (oe_now env) (oe_entropy env) (oe_md5 env) in
      if \<not> oe_netlink env then loaded cfg w
      else (case oe_system env of
          Inl _ \<Rightarrow> loaded cfg w
        | Inr sys \<Rightarrow> (case start sys cfg w of
              (Inl _, w') \<Rightarrow> loaded cfg w'
            | (Inr _, w') \<Rightarrow> oe_runs env (loaded cfg w'))))"

definition run_event_loop :: "os_env \<Rightarrow> ospf_config \<Rightarrow> unit result \<times> daemon option" where
  \<comment> \<open>without a netlink socket there are no routes to flush\<close>
  "run_event_loop env cfg =
     (case oe_create env of
        Inl e \<Rightarrow> (Inl e, None)
      | Inr _ \<Rightarrow>
          (case shutdown (if oe_netlink env then oe_kernel_routes env else []) (run_until_signal env cfg) of
             (r, d) \<Rightarrow> (r, Some d)))"

definition daemon_run :: "os_env \<Rightarrow> launch \<Rightarrow> files \<Rightarrow> (ending + unit) \<times> files \<times> daemon option" where
  "daemon_run env la fs =
     (case load_config env la of
        Inl x \<Rightarrow> (Inl x, fs, None)
      | Inr c \<Rightarrow> (case daemon_logging env la c of
            Inl e \<Rightarrow> (Inl (Raises e), fs, None)
          | Inr _ \<Rightarrow> (case (if la_foreground la then Inr False else daemonize env c) of
                Inl x \<Rightarrow> (Inl x, fs, None)
              | Inr _ \<Rightarrow> (case write_pid env (cf_pid_file c) fs of
                    (Inl x, fs') \<Rightarrow> (Inl x, fs', None)
                  | (Inr _, fs') \<Rightarrow> (case run_event_loop env c of
                        (Inl e, d) \<Rightarrow> (Inl (Raises e), fs', d)
                      | (Inr _, d) \<Rightarrow> (case remove_pid env (cf_pid_file c) fs' of
                            (x, fs'') \<Rightarrow> (x, fs'', d)))))))"

section \<open>The dump of the database\<close>

datatype dump_line =
    Area_Line ipv4
  | Lsa_Line int ipv4 ipv4 int int int       \<comment> \<open>type, id, router, sequence number, age, length\<close>
  | External_Line int ipv4 ipv4 int int

definition lsa_line :: "time \<Rightarrow> lsa \<Rightarrow> dump_line" where
  "lsa_line now l = (let h = l_header l in Lsa_Line (lh_ls_type h) (lh_link_state_id h) (lh_advertising_router h)
     (lh_ls_sequence_number h) (current_age now l) (lh_length h))"

definition external_line :: "time \<Rightarrow> lsa \<Rightarrow> dump_line" where
  "external_line now l = (let h = l_header l in External_Line (lh_ls_type h) (lh_link_state_id h)
     (lh_advertising_router h) (lh_ls_sequence_number h) (current_age now l))"

definition handle_dump :: "time \<Rightarrow> lsdb \<Rightarrow> dump_line list" where
  "handle_dump now d =
     concat (map (\<lambda>area. Area_Line area # map (lsa_line now) (get_all area None d)) (lsdb_area_ids d))
       @ map (external_line now) (get_all_external d)"

section \<open>What the process leaves behind\<close>

lemma run_until_signal_areas:
  assumes "\<And>d. daemon_step\<^sup>*\<^sup>* d (oe_runs env d)"
  shows "areas_ok (dm_world (run_until_signal env cfg))"
proof -
  let ?w = "new_instance cfg (oe_now env) (oe_entropy env) (oe_md5 env)"
  have new: "areas_ok ?w" by (simp add: areas_ok_def new_instance_def)
  have started: "areas_ok w'" if "start sys cfg ?w = (x, w')" for sys x w'
    using keepsD [OF start_areas new that] .
  have runs: "areas_ok (dm_world (oe_runs env (loaded cfg w')))" if "areas_ok w'" for w'
    using areas_steps [OF assms [of "loaded cfg w'"]] that by (simp add: loaded_def)
  show ?thesis
    using new started runs by (auto simp: run_until_signal_def loaded_def Let_def split: sum.split prod.split)
qed

lemma create_instance_raises: "create_instance = Inl AttributeError"
  by code_simp

text \<open>
  C7. What a run of the event loop leaves behind depends on whether its instance could be created. When
  creating it raises, the exception leaves the loop before anything is started and nothing is cleaned
  up, neither interfaces nor routes of an earlier run; the constructor as it is written always does
  this, with an \<^verbatim>\<open>AttributeError\<close>. Once there is an instance, however the loop ends -- the netlink socket
  cannot be opened, the interfaces cannot be read, the start raises halfway, or a signal arrives after
  any number of steps -- the shutdown completes: every interface of every area has stopped its timers,
  dropped its neighbours and closed its socket, nothing stays scheduled, and with the netlink socket
  open the last the kernel is asked for is to delete every route it holds of the daemon.
\<close>
theorem event_loop_cleans_up:
  assumes runs: "\<And>d. daemon_step\<^sup>*\<^sup>* d (oe_runs env d)"
  shows "(case oe_create env of
        Inl e \<Rightarrow> run_event_loop env cfg = (Inl e, None)
      | Inr _ \<Rightarrow> \<exists>d'. run_event_loop env cfg = (Inr (), Some d')
          \<and> dm_requests d' = dm_requests (run_until_signal env cfg)
              @ (if oe_netlink env then flush_ospf_routes (oe_kernel_routes env) else [])
          \<and> w_spf_due (dm_world d') = None \<and> w_router_lsa_pending (dm_world d') = []
          \<and> w_network_lsa_pending (dm_world d') = []
          \<and> list_all (\<lambda>(_, a). list_all (\<lambda>i. intf_at (dm_world d') i
                = close_interface (intf_at (dm_world (run_until_signal env cfg)) i)) (ar_interfaces a))
              (w_areas (dm_world (run_until_signal env cfg))))
    \<and> run_event_loop (env\<lparr>oe_create := create_instance\<rparr>) cfg = (Inl AttributeError, None)"
proof -
  let ?d = "run_until_signal env cfg" and ?routes = "if oe_netlink env then oe_kernel_routes env else []"
  have "flush_ospf_routes [] = []" by (simp add: flush_ospf_routes_def)
  moreover obtain d' where "shutdown ?routes ?d = (Inr (), d')"
      and "dm_requests d' = dm_requests ?d @ flush_ospf_routes ?routes"
      and "w_spf_due (dm_world d') = None" "w_router_lsa_pending (dm_world d') = []" "w_network_lsa_pending (dm_world d') = []"
      and "\<And>area a i. (area, a) \<in> set (w_areas (dm_world ?d)) \<Longrightarrow> i \<in> set (ar_interfaces a) \<Longrightarrow>
        intf_at (dm_world d') i = close_interface (intf_at (dm_world ?d) i)"
    using shutdown_completes [OF run_until_signal_areas [OF runs]] by blast
  ultimately show ?thesis
    by (auto simp: run_event_loop_def create_instance_raises list_all_iff split: sum.split)
qed

definition reaches_pid_file :: "os_env \<Rightarrow> launch \<Rightarrow> ospf_config \<Rightarrow> string \<Rightarrow> bool" where
  \<comment> \<open>the process gets as far as writing that PID file\<close>
  "reaches_pid_file env la c s \<longleftrightarrow> load_config env la = Inr c \<and> cf_pid_file c = Y_Str s \<and> s \<noteq> []
     \<and> (case daemon_logging env la c of Inl _ \<Rightarrow> False | Inr _ \<Rightarrow> True)
     \<and> (la_foreground la \<or> (case daemonize env c of Inl _ \<Rightarrow> False | Inr _ \<Rightarrow> True))"

lemma parents_leave:
  \<comment> \<open>the parent of either fork exits with status 0 before there is a PID file or an instance\<close>
  assumes "load_config env la = Inr c" and "daemon_logging env la c = Inr lt" and "\<not> la_foreground la"
    and "oe_fork env 1 = Inr a" and "oe_fork env 2 = Inr b" and "0 < a \<or> 0 < b"
  shows "daemon_run env la fs = (Inl (Exits 0), fs, None)"
  using assms by (auto simp: daemon_run_def daemonize_def)

lemma reached:
  assumes "reaches_pid_file env la c s"
  shows "daemon_run env la fs = (case write_pid env (Y_Str s) fs of
       (Inl x, fs') \<Rightarrow> (Inl x, fs', None)
     | (Inr _, fs') \<Rightarrow> (case run_event_loop env c of
           (Inl e, d) \<Rightarrow> (Inl (Raises e), fs', d)
         | (Inr _, d) \<Rightarrow> (case remove_pid env (Y_Str s) fs' of (x, fs'') \<Rightarrow> (x, fs'', d))))"
proof -
  have pid: "cf_pid_file c = Y_Str s" and load: "load_config env la = Inr c"
    using assms by (simp_all add: reaches_pid_file_def)
  moreover obtain lt where "daemon_logging env la c = Inr lt"
    using assms by (auto simp: reaches_pid_file_def split: sum.splits)
  moreover obtain b where "(if la_foreground la then Inr False else daemonize env c) = Inr b"
    using assms by (cases "la_foreground la") (auto simp: reaches_pid_file_def split: sum.splits)
  ultimately have "daemon_run env la fs = (case write_pid env (cf_pid_file c) fs of
       (Inl x, fs') \<Rightarrow> (Inl x, fs', None)
     | (Inr _, fs') \<Rightarrow> (case run_event_loop env c of
           (Inl e, d) \<Rightarrow> (Inl (Raises e), fs', d)
         | (Inr _, d) \<Rightarrow> (case remove_pid env (cf_pid_file c) fs' of (x, fs'') \<Rightarrow> (x, fs'', d))))"
    by (simp add: daemon_run_def)
  then show ?thesis unfolding pid .
qed

text \<open>
  The PID file keeps a second daemon out: while a file of that name exists, whoever wrote it, a
  daemon whose configuration names it ends with status 1, without starting an instance and without
  touching any file.
\<close>
lemma second_start_refused:
  assumes "reaches_pid_file env la c s" and "oe_mkdir env s = Inr ()" and "map_of fs s \<noteq> None"
  shows "daemon_run env la fs = (Inl (Exits 1), fs, None)"
proof -
  have "s \<noteq> []" using assms(1) by (simp add: reaches_pid_file_def)
  then have "write_pid env (Y_Str s) fs = (Inl (Exits 1), fs)"
    using assms(2,3) by (simp add: write_pid_def create_pid_file_def)
  then show ?thesis by (simp add: reached [OF assms(1)])
qed

text \<open>
  C33. What becomes of the PID file: a daemon that writes it and runs until a signal leaves the files
  as it found them and ends normally. When the creation of the instance raises, the process ends with
  that exception and its PID file stays: the next start is refused.
\<close>
theorem pid_file_life:
  assumes r: "reaches_pid_file env la c s" and io: "oe_mkdir env s = Inr ()" "oe_open env s = Inr ()" "oe_write env s = Inr ()"
      "oe_unlink env s = Inr ()"
    and new: "map_of fs s = None" and runs: "\<And>d. daemon_step\<^sup>*\<^sup>* d (oe_runs env d)"
  shows "case oe_create env of
      Inr _ \<Rightarrow> \<exists>d. daemon_run env la fs = (Inr (), fs, Some d)
    | Inl e \<Rightarrow> \<exists>fs'. daemon_run env la fs = (Inl (Raises e), fs', None)
        \<and> map_of fs' s = Some (pid_text (oe_pid env)) \<and> daemon_run env la fs' = (Inl (Exits 1), fs', None)"
proof -
  let ?fs = "AList.update s (pid_text (oe_pid env)) fs"
  have s: "s \<noteq> []" using r by (simp add: reaches_pid_file_def)
  have written: "write_pid env (Y_Str s) fs = (Inr (), ?fs)"
    using io new s by (simp add: write_pid_def create_pid_file_def)
  have "AList.delete s ?fs = fs"
    using new by (induction fs) (auto split: if_splits)
  then have removed: "remove_pid env (Y_Str s) ?fs = (Inr (), fs)" using io s by (simp add: remove_pid_def)
  show ?thesis
  proof (cases "oe_create env")
    case (Inl e)
    then have "run_event_loop env c = (Inl e, None)" by (simp add: run_event_loop_def)
    then have "daemon_run env la fs = (Inl (Raises e), ?fs, None)" by (simp add: reached [OF r] written)
    moreover have "daemon_run env la ?fs = (Inl (Exits 1), ?fs, None)"
      using r io(1) by (rule second_start_refused) (simp add: update_conv')
    ultimately show ?thesis using Inl by (simp add: update_conv')
  next
    case (Inr u)
    then have "oe_create env = Inr ()" by simp
    then obtain d' where "run_event_loop env c = (Inr (), Some d')"
      using shutdown_completes [OF run_until_signal_areas [OF runs]] by (simp add: run_event_loop_def) (metis case_prod_conv)
    then show ?thesis using Inr by (simp add: reached [OF r] written removed)
  qed
qed

section \<open>A sample\<close>

definition sample_launch :: launch where
  "sample_launch = \<lparr>la_config_path = ''ospfd.yaml'', la_foreground = True, la_debug = False\<rparr>"

definition sample_os :: "unit result \<Rightarrow> os_env" where
  \<comment> \<open>a system where every call succeeds but perhaps the creation of the instance; one more Hello is sent\<close>
  "sample_os create = \<lparr>oe_document = (\<lambda>_. Some (Inr sample_doc)), oe_parsing = sample_env,
     oe_log_opens = (\<lambda>_. Inr ()), oe_fork = (\<lambda>_. Inr 0), oe_devnull = Inr (), oe_pid = 4711, oe_mkdir = (\<lambda>_. Inr ()), oe_open = (\<lambda>_. Inr ()),
     oe_write = (\<lambda>_. Inr ()), oe_unlink = (\<lambda>_. Inr ()), oe_create = create, oe_netlink = True,
     oe_system = Inr sample_system, oe_now = 1000, oe_entropy = (\<lambda>_. 100), oe_md5 = (\<lambda>_. []),
     oe_runs = (\<lambda>d. d\<lparr>dm_world := snd (fire_hello_timer 0 (dm_world d))\<rparr>),
     oe_kernel_routes = [(Some 167772416, Some 24)]\<rparr>"

lemma sample_os_runs: "daemon_step\<^sup>*\<^sup>* d (oe_runs (sample_os create) d)"
proof -
  have "daemon_step d (d\<lparr>dm_world := snd (handle (Hello_Fires 0) (dm_world d))\<rparr>)"
    by (rule daemon_step.handles [OF prod.collapse [symmetric]])
  then show ?thesis by (simp add: sample_os_def)
qed

definition routes_and_interfaces :: "daemon \<Rightarrow> nat \<times> nat list list" where
  "routes_and_interfaces d = (length (dm_requests d), map (ar_interfaces \<circ> snd) (w_areas (dm_world d)))"

theorem event_loop_cleans_up_witness:
  "(\<exists>d'. run_event_loop (sample_os (Inr ())) (sample_config 1 1) = (Inr (), Some d')
       \<and> dm_requests d' = [Route_Del (167772416, 24)] \<and> is_socket (intf_at (dm_world d') 0) = None)
   \<and> run_event_loop (sample_os create_instance) (sample_config 1 1) = (Inl AttributeError, None)"
proof -
  let ?d = "run_until_signal (sample_os (Inr ())) (sample_config 1 1)"
  have "routes_and_interfaces ?d = (0, [[0]])" by code_simp
  then have facts: "dm_requests ?d = []" "map (ar_interfaces \<circ> snd) (w_areas (dm_world ?d)) = [[0]]"
    by (simp_all add: routes_and_interfaces_def)
  have os: "oe_create (sample_os (Inr ())) = Inr ()" "oe_netlink (sample_os (Inr ()))"
    "oe_kernel_routes (sample_os (Inr ())) = [(Some 167772416, Some 24)]" by (simp_all add: sample_os_def)
  have real: "(sample_os (Inr ()))\<lparr>oe_create := create_instance\<rparr> = sample_os create_instance"
    by (simp add: sample_os_def)
  from event_loop_cleans_up [OF sample_os_runs, of "Inr ()" "sample_config 1 1"]
  show ?thesis using facts os real
    by (auto simp: flush_ospf_routes_def List.map_filter_def close_interface_def list_all_iff)
qed

definition sample_daemon_config :: ospf_config where
  "sample_daemon_config = (case load_config (sample_os (Inr ())) sample_launch of Inl _ \<Rightarrow> default_config | Inr c \<Rightarrow> c)"

lemma sample_reaches: "reaches_pid_file (sample_os create) sample_launch sample_daemon_config ''/var/run/ospfd.pid''"
proof -
  have "reaches_pid_file (sample_os (Inr ())) sample_launch sample_daemon_config ''/var/run/ospfd.pid''" by code_simp
  then show ?thesis
    by (simp add: reaches_pid_file_def load_config_def daemon_logging_def daemonize_def sample_os_def)
qed

theorem pid_file_life_witness:
  "(\<exists>d. daemon_run (sample_os (Inr ())) sample_launch [] = (Inr (), [], Some d))
     \<and> (\<exists>fs'. daemon_run (sample_os (Inl AttributeError)) sample_launch [] = (Inl (Raises AttributeError), fs', None)
          \<and> daemon_run (sample_os (Inl AttributeError)) sample_launch fs' = (Inl (Exits 1), fs', None))"
  using pid_file_life [OF sample_reaches [of "Inr ()"], of "[]"]
    pid_file_life [OF sample_reaches [of "Inl AttributeError"], of "[]"] sample_os_runs
  by (simp add: sample_os_def) blast

end
