(* ===== verification/Spec2Isabelle.thy ===== *)
theory Spec2Isabelle
  imports Nbr_Correct Flood_Delivery Kernel_Sync Daemon
begin

text \<open>
  This development models the OSPF daemon \<^verbatim>\<open>ospfd\<close> (\<^verbatim>\<open>src/src/ospfd\<close>): the OSPFv2 packets and LSAs on
  the wire, the neighbour and interface state machines, the link-state database with its flooding,
  origination and ageing, the shortest path calculation with the routing table it leads to, segment
  routing, the configuration and the instance that ties them together.

  \<^bold>\<open>The parts and their theories.\<close>

  \<^item> \<open>Prelude\<close>: errors as a sum (\<open>py_error\<close>, one constructor per Python exception the code raises),
    slices, big-endian integers, addresses. \<open>Struct_Codec\<close>: the standard library's \<^verbatim>\<open>struct\<close> and the
    locales of fixed-size codecs, interpreted for every record that is packed.
  \<^item> \<open>Checksum\<close>: \<^verbatim>\<open>packet/checksum.py\<close>. \<open>Lsa\<close>: \<^verbatim>\<open>packet/lsa.py\<close>. \<open>Packets\<close>: the bodies of Hello, DD, LSR,
    LSU and LSAck. \<open>Wire\<close>: \<^verbatim>\<open>packet/auth.py\<close>, framing (\<^verbatim>\<open>OspfInterface.send_packet\<close>) and the checks of
    \<^verbatim>\<open>OspfInstance._receive_packet\<close>. \<open>Ip_Util\<close>: \<^verbatim>\<open>util/ip.py\<close> and \<^verbatim>\<open>util/identifier.py\<close>.
  \<^item> \<open>Lsdb\<close>: \<^verbatim>\<open>lsdb/database.py\<close>. \<open>Ospf_State\<close>: the objects of the running protocol as one record \<open>world\<close>
    (instance, areas, interfaces, neighbours, timers, pending schedules, packets sent) and the
    state-and-exception computations \<open>'a M\<close> the handlers are written in; \<^verbatim>\<open>util/timer.py\<close> and
    \<^verbatim>\<open>protocol/area.py\<close> are there as well.
  \<^item> \<open>Dr_Election\<close>: \<^verbatim>\<open>protocol/dr_election.py\<close>. \<open>Fsm\<close>: \<^verbatim>\<open>protocol/neighbor.py\<close> and
    \<^verbatim>\<open>protocol/interface.py\<close>. \<open>Fsm_Cascade\<close> and \<open>Fsm_Invariant\<close>: the bound of the event cascade and what
    every handler keeps of the tables.
  \<^item> \<open>Flooding\<close>: \<^verbatim>\<open>lsdb/flooding.py\<close>, \<^verbatim>\<open>lsdb/origination.py\<close>, \<^verbatim>\<open>lsdb/aging.py\<close>. \<open>Flooding_Invariant\<close>: they keep
    the tables and the database. \<open>Flooding_Correct\<close>: what becomes of own and received LSAs. \<open>Frames\<close>: the
    locale of computations that write interfaces and schedules only, interpreted on the database;
    \<open>World_Frame\<close> has the locale \<open>handler_frame\<close> of what all handlers of a daemon are made of, and is
    interpreted on the list of areas. \<open>Nbr_Invariant\<close>: the locale \<open>cascade_frame\<close> of predicates that
    survive a cascade of events, and what is known of each neighbour (role, inactivity timer, timer of
    database descriptions), kept by every handler. \<open>Nbr_Correct\<close>: what follows from it for a link.
  \<^item> \<open>Spf\<close>: \<^verbatim>\<open>spf/dijkstra.py\<close>. \<open>Routes\<close>: \<^verbatim>\<open>spf/intra_area.py\<close>, \<^verbatim>\<open>spf/inter_area.py\<close>, \<^verbatim>\<open>spf/external.py\<close>,
    \<^verbatim>\<open>spf/routing_table.py\<close> and \<^verbatim>\<open>OspfInstance._run_spf\<close>. \<open>Spf_Correct\<close>, \<open>Routes_Correct\<close>: the tree holds
    shortest paths, the table the best routes, the kernel is asked for the difference.
  \<^item> \<open>Netlink\<close>: \<^verbatim>\<open>io/netlink.py\<close>. \<open>Sr_Tlv\<close>: \<^verbatim>\<open>sr/tlv.py\<close> and \<^verbatim>\<open>sr/lsa.py\<close>. \<open>Sr\<close>: \<^verbatim>\<open>sr/database.py\<close>,
    \<^verbatim>\<open>sr/spf.py\<close>, \<^verbatim>\<open>sr/origination.py\<close>. \<open>Config\<close>: \<^verbatim>\<open>config.py\<close>.
  \<^item> \<open>Instance\<close>: \<^verbatim>\<open>protocol/instance.py\<close> from the configuration to the shutdown, with the steps of the
    running daemon (\<open>daemon_step\<close>). \<open>Instance_Correct\<close>: what holds in every state a daemon reaches.
    \<open>Kernel_Sync\<close>: the requests made of the kernel follow the routing table through all runs.
  \<^item> \<open>Sample_Daemon\<close>: a small router the examples run. \<open>Exchange\<close>: two routers on one link, what one
    sends the other stores. \<open>Flood_Delivery\<close>: an LSA that is flooded is listed for retransmission and
    arrives. \<open>Adjacency\<close>: the negotiation of master and slave between two routers, packet by packet,
    and as an example two daemons from their start to Full.
    \<open>Daemon\<close>: \<^verbatim>\<open>daemon.py\<close> and \<^verbatim>\<open>util/logging.py\<close>, the process with its PID file and the shutdown.
    \<open>Raw_Socket\<close>: \<^verbatim>\<open>io/raw_socket.py\<close>, the calls of a socket and the multicast groups the kernel holds
    for it.

  \<^bold>\<open>How state and calls correspond.\<close> An object the code mutates is a record; an interface is named by
  its position in \<open>w_intfs\<close>, a neighbour by its interface and its key in the neighbour dictionary, an
  LSA of the database by its area and key. A method is a definition of the method's name, of type
  \<open>'a M\<close> = \<open>world \<Rightarrow> 'a result \<times> world\<close>: an exception ends it with the state reached so far, as in Python.
  Dictionaries whose order matters are association lists in insertion order. Integers are Python's
  unbounded ones, with the range checks of \<^verbatim>\<open>struct.pack\<close> where they are packed; addresses and bytes are
  words.

  \<^bold>\<open>Recursion and bounds.\<close> Neighbour and interface events call each other. The model gives these calls
  a depth, and \<open>cascade_depth_suffices\<close> shows that seven nested calls are always enough, so the depth of
  eight used everywhere never runs out. The shortest path loop is a \<open>partial_function\<close>, and
  \<open>spf_returns_tree\<close> and \<open>run_spf_returns\<close> prove that it returns. All other loops are structural or have
  a measure.

  \<^bold>\<open>What the lemmas show.\<close> Codecs: round trips, checksums, bounds of the parsers. Election: who wins,
  that sitting routers stay, that the order of the table is irrelevant. Database: what every operation
  returns and changes and that instances never get older. Handlers: each keeps the neighbour tables
  and the database well formed, lifted to every reachable state by rule induction over \<open>daemon_step\<close>.
  Neighbours: exactly one of two routers leads an exchange, a dead neighbour is noticed within its
  interface's dead interval, and a database description lost in Exchange is not repeated.
  Pairs of routers: an LSA that is requested or flooded arrives, a loading neighbour whose requests are answered
  becomes Full, two routers in ExStart agree on the master and enter Exchange. Process: once there is an
  instance the shutdown always completes, and nothing is cleaned up when creating it raises.
  Calculation: shortest paths, best routes, and kernel requests that keep up with the table. Several properties state what the code
  does where it differs from its documentation (the label of a node SID, the NaN the configuration
  accepts, kernel routes that stay); they are listed as findings of the manifest.

  \<^bold>\<open>Not modelled.\<close> The asyncio loop, sockets, pyroute2 and the kernel: their inputs are events and
  arguments, their outputs values of \<open>effect\<close> and \<open>kernel_request\<close>. The clock stands still during one
  handler. MD5, \<^verbatim>\<open>Path.resolve\<close>, \<^verbatim>\<open>float\<close> and \<^verbatim>\<open>int\<close> of a string are parameters. \<^verbatim>\<open>LsaAgingManager.__init__\<close>
  raises as written (it reads \<^verbatim>\<open>instance.loop\<close>): \<open>create_instance\<close> is this outcome, \<open>new_instance\<close> what the
  constructor makes otherwise. The handlers are modelled for an instance that exists, without the timer
  of the ageing and with its scan \<open>check_ages\<close> as an input; \<open>Daemon\<close> takes the outcome as an argument and
  has both. Of YAML's values dates, sets and binary strings are left out, and a finite floating-point
  number is an exact rational (infinities and NaN are there). An interface whose configured numbers are
  not integers is refused (\<open>integer_fields\<close>) where Python fails later, and so is a configuration with an
  infinite SPF delay (\<open>finite_delays\<close>), with which Python schedules a calculation that never runs. The
  kernel is an argument wherever a property is about it: any answers to a socket's calls, any table in
  which a request only touches the entries it is about (\<open>kernel_frame\<close>). Headers that Python keeps by reference in summary lists
  and queued acknowledgments are snapshots. Log messages, argument parsing and the
  entry point \<^verbatim>\<open>__main__.py\<close> are left out. The protocol model takes joining a multicast group to succeed;
  \<open>Raw_Socket\<close> has the failing case.
\<close>

end
